theory Spec2Isabelle
  imports Main "HOL-Library.Sublist" "HOL-Library.Multiset" "HOL-Library.Char_ord" "HOL-Library.List_Lexorder"
begin

section \<open>Exceptions\<close>

text \<open>
  Every raise of the Python source is a value. \<open>External\<close> stands for an exception that
  comes out of a call into a library (arcpy, os, concurrent.futures), carrying its text.
\<close>

datatype exn = ValueError | KeyError | IndexError | TypeError | AttributeError | InvalidConfiguration | External string

section \<open>helpers.py\<close>

subsection \<open>The chunk planner\<close>

text \<open>
  Modelled from the spec: \<open>helpers.get_oid_ranges_for_input\<close> is called by
  \<open>ParallelRoutePairCalculator.__init__\<close> and exercised by \<open>test_get_oid_ranges_for_input\<close>,
  but its body is not part of helpers.py as given. The spec's contract
  \<open>plan(total_row_count, max_chunk_size)\<close> is followed: chunks are produced in ascending
  order starting at index 1, each one no larger than \<open>max_chunk_size\<close> and as large as the
  remaining rows allow; a row count of 0 gives the empty plan; a chunk size that is not
  positive fails with \<open>InvalidConfiguration\<close>.
\<close>

function oid_ranges_from :: "int \<Rightarrow> int \<Rightarrow> int \<Rightarrow> (int \<times> int) list" where
  "oid_ranges_from low total_row_count max_chunk_size =
     (if max_chunk_size \<le> 0 \<or> total_row_count < low then []
      else (low, min (low + max_chunk_size - 1) total_row_count)
             # oid_ranges_from (low + max_chunk_size) total_row_count max_chunk_size)"
  by pat_completeness auto
termination
  by (relation "measure (\<lambda>(low, total_row_count, max_chunk_size). nat (total_row_count - low + 1))") auto

declare oid_ranges_from.simps [simp del]

text \<open>
  Modelled from the spec: the entry point of the planner, with the count of the input's
  rows in place of the input itself. The plan starts at index 1.
\<close>

definition get_oid_ranges_for_input :: "int \<Rightarrow> int \<Rightarrow> exn + (int \<times> int) list" where
  "get_oid_ranges_for_input total_row_count max_chunk_size =
     (if max_chunk_size \<le> 0 then Inl InvalidConfiguration
      else Inr (oid_ranges_from 1 total_row_count max_chunk_size))"

subsection \<open>Routing of subprocess messages\<close>

definition MSG_STR_SPLITTER :: string where
  "MSG_STR_SPLITTER = '' | ''"

text \<open>
  \<open>str.split(sep)\<close> for a non-empty separator: the string is cut at every occurrence of
  \<open>sep\<close>, found from left to right without overlap. \<open>split_acc\<close> carries the
  characters of the current part in reverse.
\<close>

function split_acc :: "string \<Rightarrow> string \<Rightarrow> string \<Rightarrow> string list" where
  "split_acc sep acc [] = [rev acc]"
| "split_acc sep acc (c # cs) =
     (if sep \<noteq> [] \<and> prefix sep (c # cs)
      then rev acc # split_acc sep [] (drop (length sep) (c # cs))
      else split_acc sep (c # acc) cs)"
  by pat_completeness auto
termination
  by (relation "measure (\<lambda>(sep, acc, s). length s)") auto

definition py_split :: "string \<Rightarrow> string \<Rightarrow> exn + string list" where
  "py_split s sep = (if sep = [] then Inl ValueError else Inr (split_acc sep [] s))"

text \<open>The three message sinks of the geoprocessing window, in the order they were written to.\<close>

datatype gp_message = AddError string | AddWarning string | AddMessage string

text \<open>The body of the \<open>try\<close>: unpacking into \<open>level, msg\<close> raises unless there are two parts.\<close>

definition parse_std_try :: "string \<Rightarrow> gp_message list \<Rightarrow> exn + gp_message list" where
  "parse_std_try msg_string ui =
     (case py_split msg_string MSG_STR_SPLITTER of
        Inl e \<Rightarrow> Inl e
      | Inr [level, msg] \<Rightarrow>
          if level \<in> set [''ERROR'', ''CRITICAL''] then Inr (ui @ [AddError msg])
          else if level = ''WARNING'' then Inr (ui @ [AddWarning msg])
          else Inr (ui @ [AddMessage msg])
      | Inr _ \<Rightarrow> Inl ValueError)"

definition parse_std_and_write_to_gp_ui :: "string \<Rightarrow> gp_message list \<Rightarrow> exn + gp_message list" where
  "parse_std_and_write_to_gp_ui msg_string ui =
     (case parse_std_try msg_string ui of
        Inr ui' \<Rightarrow> Inr ui'
      | Inl e \<Rightarrow> Inr (ui @ [AddMessage msg_string]))"

section \<open>parallel_route_pairs.py: values, paths and the outside world\<close>

text \<open>
  Field values as the cursors hand them over: \<open>None\<close>, a number, a string, or a geometry
  (kept as an opaque token).
\<close>

datatype val = VNone | VInt int | VStr string | VGeom string

definition digit_char :: "nat \<Rightarrow> char" where
  "digit_char d = char_of (48 + d)"

function str_nat :: "nat \<Rightarrow> string" where
  "str_nat n = (if n < 10 then [digit_char n] else str_nat (n div 10) @ [digit_char (n mod 10)])"
  by pat_completeness auto
termination
  by (relation "measure (\<lambda>n. n)") auto

declare str_nat.simps [simp del]

definition str_int :: "int \<Rightarrow> string" where
  "str_int i = (if i < 0 then CHR ''-'' # str_nat (nat (- i)) else str_nat (nat i))"

text \<open>What an f-string writes for a value: \<open>str(v)\<close>.\<close>

fun py_str :: "val \<Rightarrow> string" where
  "py_str VNone = ''None''"
| "py_str (VInt i) = str_int i"
| "py_str (VStr s) = s"
| "py_str (VGeom g) = g"

text \<open>
  \<open>os.path.join\<close> of a folder and a relative name, \<open>os.path.basename\<close> and
  \<open>os.path.dirname\<close>, on the platform the tool runs on: the separator is the backslash,
  and the slash is accepted as well. Paths here carry no drive letter.
\<close>

definition os_sep :: char where
  "os_sep = CHR 0x5C"

definition os_altsep :: char where
  "os_altsep = CHR ''/''"

definition is_sep :: "char \<Rightarrow> bool" where
  "is_sep ch = (ch = os_sep \<or> ch = os_altsep)"

definition os_path_join :: "string \<Rightarrow> string \<Rightarrow> string" where
  "os_path_join a b = (if a = [] then b else if is_sep (last a) then a @ b else a @ [os_sep] @ b)"

definition os_path_basename :: "string \<Rightarrow> string" where
  "os_path_basename p = rev (takeWhile (\<lambda>ch. \<not> is_sep ch) (rev p))"

definition os_path_dirname :: "string \<Rightarrow> string" where
  "os_path_dirname p =
     (let head = rev (dropWhile (\<lambda>ch. \<not> is_sep ch) (rev p));
          stripped = rev (dropWhile is_sep (rev head))
      in if stripped = [] then head else stripped)"

text \<open>A network data source is a layer object or a string (a catalog path or a URL).\<close>

datatype nds = NdsLayer string | NdsStr string

definition is_nds_service :: "nds \<Rightarrow> bool" where
  "is_nds_service network_data_source =
     (case network_data_source of NdsLayer l \<Rightarrow> False | NdsStr s \<Rightarrow> prefix ''http'' s)"

text \<open>
  The rows of the two input tables in cursor order. An origin row carries its ObjectID,
  its shape, its unique id, its assigned destination id and the values of the transfer
  fields; a destination row its shape, its unique id and its transfer values.
\<close>

record origin_row =
  o_oid :: int
  o_shape :: val
  o_id :: val
  o_assigned_dest :: val
  o_transfer :: "val list"

record dest_row =
  d_shape :: val
  d_id :: val
  d_transfer :: "val list"

record field =
  f_name :: string
  f_type :: string
  f_length :: int

text \<open>
  A row of the solver's Stops input, with the columns of the insert cursors:
  RouteName, Sequence, OriginUniqueID, SHAPE@, DestinationUniqueID, then the transfer fields.
\<close>

record stop =
  RouteName :: string
  Sequence :: int
  OriginUniqueID :: val
  SHAPE :: val
  DestinationUniqueID :: val
  TransferValues :: "val list"

text \<open>
  The calls that leave the program. Each may raise; those that succeed are appended to
  the trace of performed calls.
\<close>

datatype ext_call =
    OsMkdir string
  | GpTool string "string list"
  | CheckOutExtension string
  | NaxRoute string
  | ListFields string string
  | Describe string
  | AddFields "val list list"
  | SearchCursor string string
  | Load string string
  | Solve
  | Export string string

text \<open>The solver object \<open>arcpy.nax.Route\<close>: its properties and its inputs.\<close>

record 'v nax_route =
  properties :: "string \<Rightarrow> 'v option"
  added_fields :: "val list list"
  stops_table :: "stop list"

text \<open>
  Everything one job reads from outside: the job id drawn by \<open>uuid4\<close>, which calls raise,
  the tables, the answers of \<open>ListFields\<close> and \<open>Describe\<close>, the defaults of a new solver
  object, which property assignments the solver rejects, and the outcome of the solve.
  \<open>destinations_where\<close> is the answer of the geodatabase to a query on the destinations
  layer: the rows a search cursor yields, in cursor order, for the text of a where clause.
  How the clause is parsed and evaluated is the engine's business, so the answer is a
  parameter; a clause the engine refuses is a fault of the \<open>SearchCursor\<close> call.
\<close>

record 'v world =
  uuid4_hex :: string
  fault :: "ext_call \<Rightarrow> exn option"
  nds_layer_exists :: bool
  oid_field_name :: string
  origins_table :: "origin_row list"
  destinations_table :: "dest_row list"
  destinations_where :: "string \<Rightarrow> dest_row list"
  origin_id_fields :: "field list"
  dest_id_fields :: "field list"
  engine_defaults :: "string \<Rightarrow> 'v option"
  setattr_fault :: "string \<Rightarrow> 'v \<Rightarrow> exn option"
  shape_type :: "string \<Rightarrow> string"
  solve_succeeded :: "'v nax_route \<Rightarrow> bool"
  solver_messages :: "'v nax_route \<Rightarrow> (int \<times> string) list"

definition perform :: "'v world \<Rightarrow> ext_call \<Rightarrow> ext_call list \<Rightarrow> exn + ext_call list" where
  "perform w c trace = (case fault w c of Some e \<Rightarrow> Inl e | None \<Rightarrow> Inr (trace @ [c]))"

text \<open>
  The settings of rt_config.py, which is not among the sources: the static property table
  \<open>RT_PROPS\<close> (a dictionary, kept in insertion order) and the names in
  \<open>RT_PROPS_SET_BY_TOOL\<close>. Both are parameters.
\<close>

record 'v rt_config =
  RT_PROPS :: "(string \<times> 'v) list"
  RT_PROPS_SET_BY_TOOL :: "string list"

section \<open>parallel_route_pairs.py: the class Route\<close>

text \<open>The dictionary \<open>job_result\<close>; the empty string of \<open>solveMessages\<close> is the empty list.\<close>

record job_result =
  jobId :: string
  jobFolder :: string
  solveSucceeded :: bool
  solveMessages :: "string list"
  outputRoutes :: string
  logFile :: string

text \<open>The keyword arguments of \<open>Route\<close>, as \<open>rt_inputs\<close> holds them.\<close>

record 'v rt_inputs =
  origins :: string
  origin_id_field :: string
  assigned_dest_field :: string
  destinations :: string
  dest_id_field :: string
  network_data_source :: nds
  travel_mode :: 'v
  time_units :: 'v
  distance_units :: 'v
  time_of_day :: 'v
  reverse_direction :: bool
  scratch_folder :: string
  origin_transfer_fields :: "string list"
  destination_transfer_fields :: "string list"
  barriers :: "string list"

text \<open>
  The attributes of a \<open>Route\<close> object. \<open>kwargs\<close> holds the attributes copied from the
  keyword arguments, \<open>selected_origins\<close> the rows of the layer made by
  \<open>_select_inputs\<close>, \<open>performed\<close> the outside calls made so far. The per-job log file is
  not modelled.
\<close>

record 'v Route =
  kwargs :: "'v rt_inputs"
  job_id :: string
  job_folder :: string
  log_file :: string
  is_service :: bool
  rt_solver :: "'v nax_route option"
  solve_result :: "(bool \<times> string list) option"
  input_origins_layer :: string
  input_destinations_layer :: string
  origin_unique_id_field_name :: string
  dest_unique_id_field_name :: string
  job_result :: job_result
  selected_origins :: "origin_row list"
  performed :: "ext_call list"

definition make_nds_layer :: "'v world \<Rightarrow> 'v Route \<Rightarrow> exn + 'v Route" where
  "make_nds_layer w rt =
     (if is_service rt then Inr rt
      else case network_data_source (kwargs rt) of
        NdsLayer l \<Rightarrow> Inl TypeError
      | NdsStr s \<Rightarrow>
          let nds_layer_name = os_path_basename s in
          case (if nds_layer_exists w then Inr (performed rt)
                else perform w (GpTool ''MakeNetworkDatasetLayer'' [s, nds_layer_name]) (performed rt)) of
            Inl e \<Rightarrow> Inl e
          | Inr trace \<Rightarrow>
              Inr (rt\<lparr>kwargs := (kwargs rt)\<lparr>network_data_source := NdsStr nds_layer_name\<rparr>,
                       performed := trace\<rparr>))"

definition Route_init :: "'v world \<Rightarrow> 'v rt_inputs \<Rightarrow> exn + 'v Route" where
  "Route_init w inputs =
     (let jid = uuid4_hex w;
          folder = os_path_join (scratch_folder inputs) jid
      in case perform w (OsMkdir folder) [] of
           Inl e \<Rightarrow> Inl e
         | Inr trace \<Rightarrow>
             let lf = os_path_join folder ''RoutePairs.log'';
                 rt = \<lparr>kwargs = inputs, job_id = jid, job_folder = folder, log_file = lf,
                       is_service = is_nds_service (network_data_source inputs),
                       rt_solver = None, solve_result = None,
                       input_origins_layer = ''InputOrigins'' @ jid,
                       input_destinations_layer = ''InputDestinations'' @ jid,
                       origin_unique_id_field_name = ''OriginUniqueID'',
                       dest_unique_id_field_name = ''DestinationUniqueID'',
                       job_result = \<lparr>jobId = jid, jobFolder = folder, solveSucceeded = False,
                                      solveMessages = [], outputRoutes = [], logFile = lf\<rparr>,
                       selected_origins = [], performed = trace\<rparr>
             in if \<not> is_service rt then make_nds_layer w rt else Inr rt)"

definition select_inputs :: "'v world \<Rightarrow> 'v Route \<Rightarrow> int \<times> int \<Rightarrow> exn + 'v Route" where
  "select_inputs w rt origins_criteria =
     (case perform w (Describe (origins (kwargs rt))) (performed rt) of
        Inl e \<Rightarrow> Inl e
      | Inr d1 \<Rightarrow>
          let origins_where_clause =
                oid_field_name w @ '' >= '' @ str_int (fst origins_criteria) @ '' And ''
                  @ oid_field_name w @ '' <= '' @ str_int (snd origins_criteria)
          in case perform w (GpTool ''MakeFeatureLayer''
                      [origins (kwargs rt), input_origins_layer rt, origins_where_clause]) d1 of
               Inl e \<Rightarrow> Inl e
             | Inr d2 \<Rightarrow>
                 (case perform w (GpTool ''GetCount'' [input_origins_layer rt]) d2 of
                    Inl e \<Rightarrow> Inl e
                  | Inr d3 \<Rightarrow>
                      Inr (rt\<lparr>selected_origins :=
                                 filter (\<lambda>r. fst origins_criteria \<le> o_oid r \<and> o_oid r \<le> snd origins_criteria)
                                   (origins_table w),
                               performed := d3\<rparr>)))"

text \<open>\<open>setattr\<close> on the solver object: the solver may reject the value.\<close>

definition py_setattr :: "'v world \<Rightarrow> 'v nax_route \<Rightarrow> string \<Rightarrow> 'v \<Rightarrow> exn + 'v nax_route" where
  "py_setattr w s prop v =
     (case setattr_fault w prop v of
        Some e \<Rightarrow> Inl e
      | None \<Rightarrow> Inr (s\<lparr>properties := (properties s)(prop \<mapsto> v)\<rparr>))"

text \<open>
  The loop over the keys of \<open>RT_PROPS\<close>: a key in \<open>RT_PROPS_SET_BY_TOOL\<close> is passed over;
  a failing assignment is caught and leaves the solver as it was.
\<close>

fun set_config_props :: "'v world \<Rightarrow> 'v rt_config \<Rightarrow> string list \<Rightarrow> 'v nax_route \<Rightarrow> 'v nax_route" where
  "set_config_props w cfg [] s = s"
| "set_config_props w cfg (prop # rest) s =
     (if prop \<in> set (RT_PROPS_SET_BY_TOOL cfg) then set_config_props w cfg rest s
      else case map_of (RT_PROPS cfg) prop of
             None \<Rightarrow> set_config_props w cfg rest s
           | Some v \<Rightarrow>
               (case py_setattr w s prop v of
                  Inr s' \<Rightarrow> set_config_props w cfg rest s'
                | Inl ex \<Rightarrow> set_config_props w cfg rest s))"

definition initialize_rt_solver :: "'v world \<Rightarrow> 'v rt_config \<Rightarrow> 'v Route \<Rightarrow> exn + 'v Route" where
  "initialize_rt_solver w cfg rt =
     (case (if \<not> is_service rt then perform w (CheckOutExtension ''network'') (performed rt)
            else Inr (performed rt)) of
        Inl e \<Rightarrow> Inl e
      | Inr d1 \<Rightarrow>
     (case perform w (NaxRoute (case network_data_source (kwargs rt) of NdsLayer l \<Rightarrow> l | NdsStr s \<Rightarrow> s)) d1 of
        Inl e \<Rightarrow> Inl e
      | Inr d2 \<Rightarrow>
          let s0 = \<lparr>properties = engine_defaults w, added_fields = [], stops_table = []\<rparr>;
              s1 = set_config_props w cfg (map fst (RT_PROPS cfg)) s0
          in case py_setattr w s1 ''travelMode'' (travel_mode (kwargs rt)) of Inl e \<Rightarrow> Inl e | Inr s2 \<Rightarrow>
            (case py_setattr w s2 ''timeUnits'' (time_units (kwargs rt)) of Inl e \<Rightarrow> Inl e | Inr s3 \<Rightarrow>
            (case py_setattr w s3 ''distanceUnits'' (distance_units (kwargs rt)) of Inl e \<Rightarrow> Inl e | Inr s4 \<Rightarrow>
            (case py_setattr w s4 ''timeOfDay'' (time_of_day (kwargs rt)) of Inl e \<Rightarrow> Inl e | Inr s5 \<Rightarrow>
               Inr (rt\<lparr>rt_solver := Some s5, performed := d2\<rparr>))))))"

definition field_types :: "(string \<times> string) list" where
  "field_types = [(''String'', ''TEXT''), (''Single'', ''FLOAT''), (''Double'', ''DOUBLE''),
                  (''SmallInteger'', ''SHORT''), (''Integer'', ''LONG''), (''OID'', ''LONG'')]"

text \<open>The definition of a unique-id field added to Stops, from the input's id field.\<close>

definition field_def :: "string \<Rightarrow> field \<Rightarrow> exn + val list" where
  "field_def unique_id_field_name id_field =
     (case map_of field_types (f_type id_field) of
        None \<Rightarrow> Inl KeyError
      | Some t \<Rightarrow>
          Inr ([VStr unique_id_field_name, VStr t]
               @ (if f_type id_field = ''String''
                  then [VStr unique_id_field_name, VInt (f_length id_field)] else [])))"

definition origin_stop :: "bool \<Rightarrow> origin_row \<Rightarrow> stop" where
  "origin_stop reverse origin =
     \<lparr>RouteName = (if reverse then py_str (o_assigned_dest origin) @ '' - '' @ py_str (o_id origin)
                   else py_str (o_id origin) @ '' - '' @ py_str (o_assigned_dest origin)),
      Sequence = (if reverse then 2 else 1),
      OriginUniqueID = o_id origin, SHAPE = o_shape origin, DestinationUniqueID = VNone,
      TransferValues = o_transfer origin\<rparr>"

definition destination_stop :: "bool \<Rightarrow> origin_row \<Rightarrow> dest_row \<Rightarrow> stop" where
  "destination_stop reverse origin destination =
     \<lparr>RouteName = (if reverse then py_str (o_assigned_dest origin) @ '' - '' @ py_str (o_id origin)
                   else py_str (o_id origin) @ '' - '' @ py_str (o_assigned_dest origin)),
      Sequence = (if reverse then 1 else 2),
      OriginUniqueID = VNone, SHAPE = d_shape destination, DestinationUniqueID = d_id destination,
      TransferValues = d_transfer destination\<rparr>"

text \<open>
  The where clause of the search cursor on the destinations: the id is written into the
  clause as it is, between apostrophes when it is a string and through \<open>str\<close> otherwise.
\<close>

definition apostrophe :: char where
  "apostrophe = CHR 0x27"

definition dest_where_clause :: "string \<Rightarrow> val \<Rightarrow> string" where
  "dest_where_clause dest_id_field_name dest_id =
     (let dest_val = (case dest_id of VStr s \<Rightarrow> [apostrophe] @ s @ [apostrophe] | v \<Rightarrow> py_str v)
      in dest_id_field_name @ '' = '' @ dest_val)"

text \<open>
  One round of the loop over the origins. The state is the dictionary \<open>destinations\<close> of
  destination rows already fetched, the rows inserted through \<open>icur\<close>, the list
  \<open>destination_rows\<close>, and the trace of outside calls. For an id not yet in the
  dictionary a search cursor is opened on the destinations layer with the where clause;
  \<open>next\<close> takes the first row it yields. Only \<open>StopIteration\<close>, the cursor yielding no
  row, is caught and passes the origin over; any other exception of the cursor leaves
  the loop. Inserting a row is taken not to fail.
\<close>

type_synonym insert_state = "(val \<Rightarrow> dest_row option) \<times> stop list \<times> stop list \<times> ext_call list"

definition insert_origin ::
  "'v world \<Rightarrow> string \<Rightarrow> string \<Rightarrow> bool \<Rightarrow> origin_row \<Rightarrow> insert_state \<Rightarrow> exn + insert_state" where
  "insert_origin w dest_layer dest_id_field_name reverse origin st =
     (case st of (dests, icur, destination_rows, trace) \<Rightarrow>
        let dest_id = o_assigned_dest origin in
        if dest_id = VNone then Inr st
        else case dests dest_id of
               Some destination \<Rightarrow>
                 Inr (dests, icur @ [origin_stop reverse origin],
                      destination_rows @ [destination_stop reverse origin destination], trace)
             | None \<Rightarrow>
                 (case perform w (SearchCursor dest_layer (dest_where_clause dest_id_field_name dest_id)) trace of
                    Inl e \<Rightarrow> Inl e
                  | Inr trace' \<Rightarrow>
                      (case destinations_where w (dest_where_clause dest_id_field_name dest_id) of
                         [] \<Rightarrow> Inr (dests, icur, destination_rows, trace')
                       | destination # others \<Rightarrow>
                           Inr (dests(dest_id \<mapsto> destination), icur @ [origin_stop reverse origin],
                                destination_rows @ [destination_stop reverse origin destination],
                                trace'))))"

fun insert_origins ::
  "'v world \<Rightarrow> string \<Rightarrow> string \<Rightarrow> bool \<Rightarrow> origin_row list \<Rightarrow> insert_state \<Rightarrow> exn + insert_state" where
  "insert_origins w dest_layer dest_id_field_name reverse [] st = Inr st"
| "insert_origins w dest_layer dest_id_field_name reverse (origin # rest) st =
     (case insert_origin w dest_layer dest_id_field_name reverse origin st of
        Inl e \<Rightarrow> Inl e
      | Inr st' \<Rightarrow> insert_origins w dest_layer dest_id_field_name reverse rest st')"

text \<open>
  The origins that get a route, each with its destination row, in the order of the
  origins: an origin counts when its assigned destination id is not \<open>None\<close> and the
  search cursor opened with its where clause yields a row (the first row is taken).
\<close>

definition matched_pairs :: "'v world \<Rightarrow> string \<Rightarrow> origin_row list \<Rightarrow> (origin_row \<times> dest_row) list" where
  "matched_pairs w dest_id_field_name os =
     List.map_filter
       (\<lambda>origin. if o_assigned_dest origin = VNone then None
                  else (case destinations_where w (dest_where_clause dest_id_field_name (o_assigned_dest origin)) of
                          [] \<Rightarrow> None
                        | destination # others \<Rightarrow> Some (origin, destination)))
       os"

text \<open>
  The invariant of the dictionary \<open>destinations\<close> in the loop: what it holds for an id is
  the row the search cursor yields first for that id's where clause.
\<close>

definition dests_ok :: "'v world \<Rightarrow> string \<Rightarrow> (val \<Rightarrow> dest_row option) \<Rightarrow> bool" where
  "dests_ok w dest_id_field_name dests \<longleftrightarrow>
     (\<forall>k d. dests k = Some d \<longrightarrow>
        (\<exists>others. destinations_where w (dest_where_clause dest_id_field_name k) = d # others))"

definition insert_stops :: "'v world \<Rightarrow> 'v Route \<Rightarrow> exn + 'v Route" where
  "insert_stops w rt =
     (case perform w (GpTool ''MakeFeatureLayer''
                 [destinations (kwargs rt), input_destinations_layer rt]) (performed rt) of
        Inl e \<Rightarrow> Inl e | Inr d1 \<Rightarrow>
     (case perform w (ListFields (input_origins_layer rt) (origin_id_field (kwargs rt))) d1 of
        Inl e \<Rightarrow> Inl e | Inr d2 \<Rightarrow>
     (case origin_id_fields w of [] \<Rightarrow> Inl IndexError | oif # _ \<Rightarrow>
     (case field_def (origin_unique_id_field_name rt) oif of
        Inl e \<Rightarrow> Inl e | Inr origin_field_def \<Rightarrow>
     (case perform w (ListFields (input_destinations_layer rt) (dest_id_field (kwargs rt))) d2 of
        Inl e \<Rightarrow> Inl e | Inr d3 \<Rightarrow>
     (case dest_id_fields w of [] \<Rightarrow> Inl IndexError | dif # _ \<Rightarrow>
     (case field_def (dest_unique_id_field_name rt) dif of
        Inl e \<Rightarrow> Inl e | Inr dest_field_def \<Rightarrow>
     (case rt_solver rt of None \<Rightarrow> Inl AttributeError | Some s \<Rightarrow>
     (case perform w (AddFields [origin_field_def, dest_field_def]) d3 of
        Inl e \<Rightarrow> Inl e | Inr d4 \<Rightarrow>
     (case insert_origins w (input_destinations_layer rt) (dest_id_field (kwargs rt))
             (reverse_direction (kwargs rt)) (selected_origins rt) (Map.empty, [], [], d4) of
        Inl e \<Rightarrow> Inl e
      | Inr (dests, icur, destination_rows, d5) \<Rightarrow>
          Inr (rt\<lparr>rt_solver :=
                     Some (s\<lparr>added_fields := added_fields s @ [origin_field_def, dest_field_def],
                             stops_table := stops_table s @ icur @ destination_rows\<rparr>),
                   performed := d5\<rparr>)))))))))))"

fun load_barriers :: "'v world \<Rightarrow> string list \<Rightarrow> ext_call list \<Rightarrow> exn + ext_call list" where
  "load_barriers w [] trace = Inr trace"
| "load_barriers w (barrier_fc # rest) trace =
     (case perform w (Describe barrier_fc) trace of
        Inl e \<Rightarrow> Inl e
      | Inr d1 \<Rightarrow>
          if shape_type w barrier_fc = ''Polygon'' then
            (case perform w (Load ''PolygonBarriers'' barrier_fc) d1 of
               Inl e \<Rightarrow> Inl e | Inr d2 \<Rightarrow> load_barriers w rest d2)
          else if shape_type w barrier_fc = ''Polyline'' then
            (case perform w (Load ''LineBarriers'' barrier_fc) d1 of
               Inl e \<Rightarrow> Inl e | Inr d2 \<Rightarrow> load_barriers w rest d2)
          else if shape_type w barrier_fc = ''Point'' then
            (case perform w (Load ''PointBarriers'' barrier_fc) d1 of
               Inl e \<Rightarrow> Inl e | Inr d2 \<Rightarrow> load_barriers w rest d2)
          else load_barriers w rest d1)"

definition export_to_feature_class :: "'v world \<Rightarrow> 'v Route \<Rightarrow> int \<times> int \<Rightarrow> exn + 'v Route" where
  "export_to_feature_class w rt origins_criteria =
     (let od_workspace = os_path_join (job_folder rt) ''scratch.gdb'';
          suffix = str_int (fst origins_criteria) @ ''_'' @ str_int (snd origins_criteria);
          output_routes = os_path_join od_workspace (''Routes_'' @ suffix);
          output_stops = os_path_join od_workspace (''Stops_'' @ suffix);
          first_stop_field = (if reverse_direction (kwargs rt) then dest_unique_id_field_name rt
                              else origin_unique_id_field_name rt);
          second_stop_field = (if reverse_direction (kwargs rt) then origin_unique_id_field_name rt
                               else dest_unique_id_field_name rt)
      in
      case perform w (GpTool ''CreateFileGDB''
                 [os_path_dirname od_workspace, os_path_basename od_workspace]) (performed rt) of
        Inl e \<Rightarrow> Inl e | Inr d1 \<Rightarrow>
     (case perform w (Export ''Routes'' output_routes) d1 of
        Inl e \<Rightarrow> Inl e | Inr d2 \<Rightarrow>
     (case perform w (Export ''Stops'' output_stops) d2 of
        Inl e \<Rightarrow> Inl e | Inr d3 \<Rightarrow>
     (case perform w (GpTool ''JoinField''
                 [output_routes, ''FirstStopOID'', output_stops, ''ObjectID'', first_stop_field]) d3 of
        Inl e \<Rightarrow> Inl e | Inr d4 \<Rightarrow>
     (case perform w (GpTool ''JoinField''
                 [output_routes, ''LastStopOID'', output_stops, ''ObjectID'', second_stop_field]) d4 of
        Inl e \<Rightarrow> Inl e | Inr d5 \<Rightarrow>
          Inr (rt\<lparr>job_result := (job_result rt)\<lparr>outputRoutes := output_routes\<rparr>,
                   performed := d5\<rparr>))))))"

definition solve :: "'v world \<Rightarrow> 'v rt_config \<Rightarrow> 'v Route \<Rightarrow> int \<times> int \<Rightarrow> exn + 'v Route" where
  "solve w cfg rt origins_criteria =
     (case select_inputs w rt origins_criteria of Inl e \<Rightarrow> Inl e | Inr rt1 \<Rightarrow>
     (case initialize_rt_solver w cfg rt1 of Inl e \<Rightarrow> Inl e | Inr rt2 \<Rightarrow>
     (case insert_stops w rt2 of Inl e \<Rightarrow> Inl e | Inr rt3 \<Rightarrow>
     (case rt_solver rt3 of None \<Rightarrow> Inl AttributeError | Some s \<Rightarrow>
        if length (stops_table s) = 0 then Inr rt3
        else
          (case load_barriers w (barriers (kwargs rt3)) (performed rt3) of
             Inl e \<Rightarrow> Inl e | Inr d1 \<Rightarrow>
          (case perform w Solve d1 of
             Inl e \<Rightarrow> Inl e | Inr d2 \<Rightarrow>
               let solve_msgs = map snd (solver_messages w s);
                   rt4 = rt3\<lparr>solve_result := Some (solve_succeeded w s, solve_msgs),
                            job_result := (job_result rt3)\<lparr>solveMessages := solve_msgs\<rparr>,
                            performed := d2\<rparr>
               in if \<not> solve_succeeded w s then Inr rt4
                  else export_to_feature_class w
                         (rt4\<lparr>job_result := (job_result rt4)\<lparr>solveSucceeded := True\<rparr>\<rparr>)
                         origins_criteria))))))"

text \<open>
  \<open>solve_route\<close> builds the job, solves the chunk and returns the job's result
  dictionary; \<open>run_job\<close> is the same run with the whole final object, so that the
  calls it made can be read.
\<close>

definition run_job :: "'v world \<Rightarrow> 'v rt_config \<Rightarrow> 'v rt_inputs \<Rightarrow> int \<times> int \<Rightarrow> exn + 'v Route" where
  "run_job w cfg inputs chunk =
     (case Route_init w inputs of Inl e \<Rightarrow> Inl e | Inr rt \<Rightarrow> solve w cfg rt chunk)"

definition solve_route :: "'v world \<Rightarrow> 'v rt_config \<Rightarrow> 'v rt_inputs \<Rightarrow> int \<times> int \<Rightarrow> exn + job_result" where
  "solve_route w cfg inputs chunk =
     (case run_job w cfg inputs chunk of Inl e \<Rightarrow> Inl e | Inr rt \<Rightarrow> Inr (job_result rt))"

section \<open>parallel_route_pairs.py: the class ParallelRoutePairCalculator\<close>

subsection \<open>The logger of the main process\<close>

datatype level = DEBUG | INFO | WARNING | ERROR | CRITICAL

fun level_no :: "level \<Rightarrow> nat" where
  "level_no DEBUG = 10"
| "level_no INFO = 20"
| "level_no WARNING = 30"
| "level_no ERROR = 40"
| "level_no CRITICAL = 50"

definition LOG_LEVEL :: level where
  "LOG_LEVEL = INFO"

text \<open>\<open>LOGGER\<close> passes on the records at or above \<open>LOG_LEVEL\<close>.\<close>

definition log :: "level \<Rightarrow> string \<Rightarrow> (level \<times> string) list \<Rightarrow> (level \<times> string) list" where
  "log lvl msg lg = (if level_no LOG_LEVEL \<le> level_no lvl then lg @ [(lvl, msg)] else lg)"

fun log_lines :: "level \<Rightarrow> string list \<Rightarrow> (level \<times> string) list \<Rightarrow> (level \<times> string) list" where
  "log_lines lvl [] lg = lg"
| "log_lines lvl (l # ls) lg = log_lines lvl ls (log lvl l lg)"

text \<open>The record \<open>LOGGER\<close> passes on for each completed job.\<close>

definition finished_line :: "int \<Rightarrow> int \<Rightarrow> level \<times> string" where
  "finished_line tot k =
     (INFO, ''Finished Route calculation '' @ str_int k @ '' of '' @ str_int tot @ ''.'')"

text \<open>What an f-string writes for a list of strings (quotes inside a string are not escaped).\<close>

fun join_strs :: "string \<Rightarrow> string list \<Rightarrow> string" where
  "join_strs sep [] = []"
| "join_strs sep [x] = x"
| "join_strs sep (x # y # ys) = x @ sep @ join_strs sep (y # ys)"

definition py_repr_strs :: "string list \<Rightarrow> string" where
  "py_repr_strs xs = ''['' @ join_strs '', '' (map (\<lambda>x. [CHR 0x27] @ x @ [CHR 0x27]) xs) @ '']''"

subsection \<open>Feature classes\<close>

text \<open>
  A feature class as the merge reads and writes it: its geometry type, the names of its
  fields, its spatial reference, and its rows. A row gives a value to the token
  \<open>SHAPE@\<close> and to each field. \<open>DELETE_INTERMEDIATE_OUTPUTS\<close> is the module constant.
\<close>

record feature_class =
  fc_geometry :: string
  fc_fields :: "string list"
  fc_spatial_ref :: string
  fc_rows :: "(string \<times> val) list list"

definition DELETE_INTERMEDIATE_OUTPUTS :: bool where
  "DELETE_INTERMEDIATE_OUTPUTS = True"

text \<open>\<open>shutil.rmtree(folder, ignore_errors=True)\<close>: what lies under the folder is gone.\<close>

definition rmtree :: "string \<Rightarrow> (string \<Rightarrow> feature_class option) \<Rightarrow> (string \<Rightarrow> feature_class option)" where
  "rmtree folder cat = (\<lambda>p. if p = folder \<or> prefix (os_path_join folder []) p then None else cat p)"

text \<open>
  \<open>arcpy.da.SearchCursor(fc, field_names)\<close>: the rows of \<open>fc\<close> as tuples of the values of
  \<open>fields\<close>; it cannot be opened on a missing table or with a field the table lacks.
\<close>

definition search_cursor ::
  "(string \<Rightarrow> feature_class option) \<Rightarrow> string \<Rightarrow> string list \<Rightarrow> exn + val list list" where
  "search_cursor cat fc field_names =
     (case cat fc of
        None \<Rightarrow> Inl (External ''RuntimeError'')
      | Some t \<Rightarrow>
          if \<not> set field_names \<subseteq> set (''SHAPE@'' # fc_fields t) then Inl (External ''RuntimeError'')
          else Inr (map (\<lambda>r. map (\<lambda>f. case map_of r f of None \<Rightarrow> VNone | Some v \<Rightarrow> v) field_names) (fc_rows t)))"

text \<open>\<open>insertRow\<close> through an insert cursor opened with \<open>fields\<close>, for each tuple in turn.\<close>

definition insert_rows ::
  "(string \<Rightarrow> feature_class option) \<Rightarrow> string \<Rightarrow> string list \<Rightarrow> val list list
     \<Rightarrow> exn + (string \<Rightarrow> feature_class option)" where
  "insert_rows cat out field_names tuples =
     (case cat out of
        None \<Rightarrow> Inl (External ''RuntimeError'')
      | Some t \<Rightarrow> Inr (cat(out \<mapsto> t\<lparr>fc_rows := fc_rows t @ map (zip field_names) tuples\<rparr>)))"

subsection \<open>The calculator\<close>

text \<open>
  The attributes of the calculator object, together with what the main process sees and
  writes: the records \<open>LOGGER\<close> passed on (\<open>logged\<close>) and the feature classes by catalog
  path (\<open>catalog\<close>), the outputs exported by the jobs among them.
\<close>

record 'v calculator =
  calc_origins :: string
  calc_destinations :: string
  out_routes :: string
  calc_scratch_folder :: string
  max_processes :: int
  rt_inputs :: "'v rt_inputs"
  route_fcs :: "string list"
  origin_ranges :: "(int \<times> int) list"
  total_jobs :: int
  logged :: "(level \<times> string) list"
  catalog :: "string \<Rightarrow> feature_class option"

text \<open>
  What the main process reads from outside: the world its own calls see (the test job of
  the validation runs in it), the fields of the two inputs, the text of a traceback, and
  \<open>completed\<close>, the outcome of \<open>future.result()\<close> for each future in the order in which
  \<open>as_completed\<close> yields them.
\<close>

record 'v batch_world =
  main_world :: "'v world"
  origins_fields :: "field list"
  destinations_fields :: "field list"
  format_exc :: "exn \<Rightarrow> string list"
  completed :: "(exn + job_result) list"

definition validate_route_settings ::
  "'v batch_world \<Rightarrow> 'v rt_config \<Rightarrow> 'v calculator \<Rightarrow> exn \<times> 'v calculator + 'v calculator" where
  "validate_route_settings bw cfg c =
     (let c0 = c\<lparr>logged := log DEBUG ''Validating Route settings...'' (logged c)\<rparr>;
          failed = (\<lambda>e c'. c'\<lparr>logged := log_lines ERROR (format_exc bw e)
                                    (log ERROR ''Error initializing Route analysis.'' (logged c'))\<rparr>);
          cleanup = (\<lambda>rt c'. c'\<lparr>logged := log DEBUG ''Deleting temporary test Route job folder...'' (logged c'),
                                catalog := rmtree (jobFolder (job_result rt)) (catalog c')\<rparr>)
      in case Route_init (main_world bw) (rt_inputs c) of
           Inl e \<Rightarrow> Inl (e, failed e c0)
         | Inr rt \<Rightarrow>
             (case initialize_rt_solver (main_world bw) cfg rt of
                Inl e \<Rightarrow> Inl (e, cleanup rt (failed e c0))
              | Inr rt' \<Rightarrow>
                  Inr (cleanup rt (c0\<lparr>logged := log DEBUG ''Route settings successfully validated.'' (logged c0)\<rparr>))))"

definition int_types :: "string list" where
  "int_types = [''Integer'', ''SmallInteger'']"

definition numerical_types :: "string list" where
  "numerical_types = [''Double'', ''Single''] @ int_types"

definition rt_stops_input_fields :: "(string \<times> string list) list" where
  "rt_stops_input_fields =
     [(''Name'', [''String'']), (''AdditionalTime'', numerical_types),
      (''AdditionalDistance'', numerical_types), (''AdditionalCost'', numerical_types),
      (''TimeWindowStart'', [''Date'']), (''TimeWindowEnd'', [''Date'']),
      (''CurbApproach'', int_types), (''Bearing'', numerical_types),
      (''BearingTol'', numerical_types), (''NavLatency'', numerical_types),
      (''SourceID'', int_types), (''SourceOID'', int_types),
      (''PosAlong'', numerical_types), (''SideOfEdge'', int_types)]"

definition supported_fields :: "field list \<Rightarrow> string list" where
  "supported_fields fs =
     map f_name (filter (\<lambda>f. case map_of rt_stops_input_fields (f_name f) of
                                None \<Rightarrow> False | Some ts \<Rightarrow> f_type f \<in> set ts) fs)"

definition populate_input_data_transfer_fields ::
  "'v batch_world \<Rightarrow> 'v calculator \<Rightarrow> exn \<times> 'v calculator + 'v calculator" where
  "populate_input_data_transfer_fields bw c =
     (case fault (main_world bw) (ListFields (calc_origins c) []) of
        Some e \<Rightarrow> Inl (e, c)
      | None \<Rightarrow>
          let otf = supported_fields (origins_fields bw);
              c1 = c\<lparr>rt_inputs := (rt_inputs c)\<lparr>origin_transfer_fields := otf\<rparr>\<rparr>;
              c2 = (if otf \<noteq> [] then
                      c1\<lparr>logged := log INFO
                            (''Supported fields in the input Origins table that will be used in the analysis: ''
                               @ py_repr_strs otf) (logged c1)\<rparr>
                    else c1)
          in case fault (main_world bw) (ListFields (calc_destinations c) []) of
               Some e \<Rightarrow> Inl (e, c2)
             | None \<Rightarrow>
                 let dtf = supported_fields (destinations_fields bw);
                     c3 = c2\<lparr>rt_inputs := (rt_inputs c2)\<lparr>destination_transfer_fields := dtf\<rparr>\<rparr>
                 in Inr (if dtf \<noteq> [] then
                           c3\<lparr>logged := log INFO
                                 (''Supported fields in the input Destinations table that will be used in the analysis: ''
                                    @ py_repr_strs dtf) (logged c3)\<rparr>
                         else c3))"

text \<open>
  The loop over \<open>futures.as_completed(jobs)\<close>, with the counter \<open>completed_jobs\<close>. A result
  that cannot be retrieved is logged and raised again, which ends the loop.
\<close>

fun drain_completed ::
  "'v batch_world \<Rightarrow> (exn + job_result) list \<Rightarrow> int \<Rightarrow> 'v calculator
     \<Rightarrow> exn \<times> 'v calculator + 'v calculator" where
  "drain_completed bw [] completed_jobs c = Inr c"
| "drain_completed bw (future # rest) completed_jobs c =
     (let c1 = c\<lparr>logged := log INFO (''Finished Route calculation '' @ str_int (completed_jobs + 1)
                                        @ '' of '' @ str_int (total_jobs c) @ ''.'') (logged c)\<rparr>
      in case future of
           Inl e \<Rightarrow>
             Inl (e, c1\<lparr>logged := log_lines ERROR (format_exc bw e)
                             (log ERROR ''Failed to get Route result from parallel processing.'' (logged c1))\<rparr>)
         | Inr result \<Rightarrow>
             if solveSucceeded result then
               drain_completed bw rest (completed_jobs + 1)
                 (c1\<lparr>route_fcs := route_fcs c1 @ [outputRoutes result]\<rparr>)
             else
               drain_completed bw rest (completed_jobs + 1)
                 (c1\<lparr>logged := log DEBUG (py_repr_strs (solveMessages result))
                                  (log DEBUG (''Solve failed for job id '' @ jobId result @ ''.'') (logged c1))\<rparr>))"

text \<open>
  The loop over \<open>route_fcs\<close> that copies the rows into the final output. The rows of one
  feature class are read and then inserted; read and insert alternate row by row in the
  source, which is the same as long as the final output is not one of the inputs.
\<close>

fun append_route_fcs ::
  "string \<Rightarrow> string list \<Rightarrow> string list \<Rightarrow> (string \<Rightarrow> feature_class option)
     \<Rightarrow> exn \<times> (string \<Rightarrow> feature_class option) + (string \<Rightarrow> feature_class option)" where
  "append_route_fcs out field_names [] cat = Inr cat"
| "append_route_fcs out field_names (fc # rest) cat =
     (case search_cursor cat fc field_names of
        Inl e \<Rightarrow> Inl (e, cat)
      | Inr tuples \<Rightarrow>
          (case insert_rows cat out field_names tuples of
             Inl e \<Rightarrow> Inl (e, cat)
           | Inr cat' \<Rightarrow> append_route_fcs out field_names rest cat'))"

definition post_process_route_fcs ::
  "'v batch_world \<Rightarrow> 'v calculator \<Rightarrow> exn \<times> 'v calculator + 'v calculator" where
  "post_process_route_fcs bw c =
     (case route_fcs c of
        [] \<Rightarrow> Inl (IndexError, c)
      | first # others \<Rightarrow>
          (case catalog c first of
             None \<Rightarrow> Inl (External ''OSError'', c)
           | Some desc \<Rightarrow>
               (case fault (main_world bw)
                       (GpTool ''CreateFeatureclass''
                          [os_path_dirname (out_routes c), os_path_basename (out_routes c), ''POLYLINE'',
                           first, ''SAME_AS_TEMPLATE'', ''SAME_AS_TEMPLATE'', fc_spatial_ref desc]) of
                  Some e \<Rightarrow> Inl (e, c)
                | None \<Rightarrow>
                    let cat1 = (catalog c)(out_routes c \<mapsto>
                                  \<lparr>fc_geometry = ''POLYLINE'', fc_fields = fc_fields desc,
                                   fc_spatial_ref = fc_spatial_ref desc, fc_rows = []\<rparr>);
                        field_names = ''SHAPE@'' # fc_fields desc
                    in case append_route_fcs (out_routes c) field_names (route_fcs c) cat1 of
                         Inl (e, cat') \<Rightarrow> Inl (e, c\<lparr>catalog := cat'\<rparr>)
                       | Inr cat' \<Rightarrow> Inr (c\<lparr>catalog := cat'\<rparr>))))"

definition solve_route_in_parallel ::
  "'v batch_world \<Rightarrow> 'v rt_config \<Rightarrow> 'v calculator \<Rightarrow> exn \<times> 'v calculator + 'v calculator" where
  "solve_route_in_parallel bw cfg c =
     (case validate_route_settings bw cfg c of Inl x \<Rightarrow> Inl x | Inr c1 \<Rightarrow>
     (case populate_input_data_transfer_fields bw c1 of Inl x \<Rightarrow> Inl x | Inr c2 \<Rightarrow>
     (case drain_completed bw (completed bw) 0 c2 of Inl x \<Rightarrow> Inl x | Inr c3 \<Rightarrow>
     (case (if route_fcs c3 \<noteq> [] then
              post_process_route_fcs bw
                (c3\<lparr>logged := log INFO ''Post-processing Route results...'' (logged c3),
                    route_fcs := sort (route_fcs c3)\<rparr>)
            else Inr (c3\<lparr>logged := log WARNING ''All Route solves failed, so no output was produced.''
                                     (logged c3)\<rparr>)) of
        Inl x \<Rightarrow> Inl x
      | Inr c4 \<Rightarrow>
          let c5 = (if DELETE_INTERMEDIATE_OUTPUTS then
                      c4\<lparr>logged := log INFO ''Deleting intermediate outputs...'' (logged c4),
                          catalog := rmtree (calc_scratch_folder c4) (catalog c4)\<rparr>
                    else c4)
          in Inr (c5\<lparr>logged := log INFO ''Finished calculating Routes.'' (logged c5)\<rparr>)))))"

text \<open>
  The outcome of each job's future when nothing but the job itself can fail: what
  \<open>solve_route\<close> returns or raises in the world of its worker process. The jobs are
  listed in the order in which they complete.
\<close>

definition job_outcomes ::
  "('v world \<times> (int \<times> int)) list \<Rightarrow> 'v rt_config \<Rightarrow> 'v rt_inputs \<Rightarrow> (exn + job_result) list" where
  "job_outcomes jobs cfg inputs = map (\<lambda>(w, chunk). solve_route w cfg inputs chunk) jobs"

section \<open>Concrete inputs\<close>

text \<open>
  A small batch used to evaluate the definitions: three origins, two of them assigned to
  the only destination \<open>A\<close> and one to a destination \<open>B\<close> that is not in the destinations
  table; a static property table that names \<open>travelMode\<close> and \<open>timeUnits\<close> among others.
\<close>

definition ex_inputs :: "string rt_inputs" where
  "ex_inputs =
     \<lparr>origins = ''Origins'', origin_id_field = ''ID'', assigned_dest_field = ''DEST'',
      destinations = ''Destinations'', dest_id_field = ''NAME'',
      network_data_source = NdsStr ''Streets_ND'',
      travel_mode = ''Driving Time'', time_units = ''Minutes'', distance_units = ''Miles'',
      time_of_day = ''None'', reverse_direction = False, scratch_folder = ''scratch'',
      origin_transfer_fields = [], destination_transfer_fields = [], barriers = []\<rparr>"

definition ex_origins :: "origin_row list" where
  "ex_origins =
     [\<lparr>o_oid = 1, o_shape = VGeom ''p1'', o_id = VInt 10, o_assigned_dest = VStr ''A'', o_transfer = []\<rparr>,
      \<lparr>o_oid = 2, o_shape = VGeom ''p2'', o_id = VInt 11, o_assigned_dest = VStr ''B'', o_transfer = []\<rparr>,
      \<lparr>o_oid = 3, o_shape = VGeom ''p3'', o_id = VInt 12, o_assigned_dest = VStr ''A'', o_transfer = []\<rparr>]"

definition ex_destinations :: "dest_row list" where
  "ex_destinations = [\<lparr>d_shape = VGeom ''q1'', d_id = VStr ''A'', d_transfer = []\<rparr>]"

text \<open>
  The geodatabase of the example answers the where clause \<open>NAME = 'A'\<close> with the row of
  \<open>A\<close> and every other clause the jobs of the example build with no row.
\<close>

definition ex_destinations_where :: "string \<Rightarrow> dest_row list" where
  "ex_destinations_where where_clause =
     (if where_clause = ''NAME = '' @ [apostrophe] @ ''A'' @ [apostrophe] then ex_destinations else [])"

definition ex_world :: "string \<Rightarrow> string world" where
  "ex_world jid =
     \<lparr>uuid4_hex = jid, fault = (\<lambda>c. None), nds_layer_exists = False, oid_field_name = ''OBJECTID'',
      origins_table = ex_origins, destinations_table = ex_destinations,
      destinations_where = ex_destinations_where,
      origin_id_fields = [\<lparr>f_name = ''ID'', f_type = ''Integer'', f_length = 4\<rparr>],
      dest_id_fields = [\<lparr>f_name = ''NAME'', f_type = ''String'', f_length = 20\<rparr>],
      engine_defaults = (\<lambda>p. if p = ''timeUnits'' then Some ''Seconds'' else None),
      setattr_fault = (\<lambda>p v. if p = ''searchTolerance'' then Some (External ''ValueError'') else None),
      shape_type = (\<lambda>b. ''Point''),
      solve_succeeded = (\<lambda>s. True), solver_messages = (\<lambda>s. [(0, ''Solve succeeded.'')])\<rparr>"

definition ex_config :: "string rt_config" where
  "ex_config =
     \<lparr>RT_PROPS = [(''timeUnits'', ''Hours''), (''travelMode'', ''Walking Time''),
                  (''searchTolerance'', ''5000''), (''findBestSequence'', ''False'')],
      RT_PROPS_SET_BY_TOOL = [''travelMode'', ''timeOfDay'']\<rparr>"

text \<open>The job of the example as \<open>solve\<close> has it just before the stops are inserted.\<close>

definition ex_prepared :: "string \<Rightarrow> int \<times> int \<Rightarrow> exn + string Route" where
  "ex_prepared jid chunk =
     (case Route_init (ex_world jid) ex_inputs of Inl e \<Rightarrow> Inl e | Inr rt \<Rightarrow>
     (case select_inputs (ex_world jid) rt chunk of Inl e \<Rightarrow> Inl e | Inr rt1 \<Rightarrow>
        initialize_rt_solver (ex_world jid) ex_config rt1))"

text \<open>
  The example world with one fault: making the feature layer of the destinations fails
  in the geoprocessing tool.
\<close>

definition ex_world_gp_fault :: "string world" where
  "ex_world_gp_fault =
     (ex_world ''a1'')\<lparr>fault := (\<lambda>c. if c = GpTool ''MakeFeatureLayer'' [''Destinations'', ''InputDestinationsa1'']
                                     then Some (External ''ExecuteError'') else None)\<rparr>"

text \<open>The example world with an origin id field of a type \<open>field_types\<close> does not list.\<close>

definition ex_world_date_id :: "string world" where
  "ex_world_date_id =
     (ex_world ''a1'')\<lparr>origin_id_fields := [\<lparr>f_name = ''ID'', f_type = ''Date'', f_length = 8\<rparr>]\<rparr>"

text \<open>
  The example batch: the three origins in chunks of two, a calculator that starts from a
  given catalog, and a main process that sees given outcomes of its futures. The output
  of a job is where \<open>_export_to_feature_class\<close> puts it; a job's routes are named after
  their stops.
\<close>

definition ex_output :: "string \<Rightarrow> int \<times> int \<Rightarrow> string" where
  "ex_output jid chunk =
     os_path_join (os_path_join (os_path_join ''scratch'' jid) ''scratch.gdb'')
       (''Routes_'' @ str_int (fst chunk) @ ''_'' @ str_int (snd chunk))"

definition ex_routes :: "string list \<Rightarrow> feature_class" where
  "ex_routes names =
     \<lparr>fc_geometry = ''POLYLINE'', fc_fields = [''Name''], fc_spatial_ref = ''WGS84'',
      fc_rows = map (\<lambda>n. [(''SHAPE@'', VGeom n), (''Name'', VStr n)]) names\<rparr>"

definition ex_calculator :: "(string \<times> feature_class) list \<Rightarrow> string calculator" where
  "ex_calculator fcs =
     \<lparr>calc_origins = ''Origins'', calc_destinations = ''Destinations'',
      out_routes = os_path_join ''output.gdb'' ''Routes'', calc_scratch_folder = ''scratch'',
      max_processes = 2, rt_inputs = ex_inputs, route_fcs = [],
      origin_ranges = [(1, 2), (3, 3)], total_jobs = 2, logged = [], catalog = map_of fcs\<rparr>"

definition ex_batch :: "(exn + job_result) list \<Rightarrow> string batch_world" where
  "ex_batch outcomes =
     \<lparr>main_world = ex_world ''v0'', origins_fields = [], destinations_fields = [],
      format_exc = (\<lambda>e. [''Traceback (most recent call last):'']), completed = outcomes\<rparr>"

text \<open>The rows of the combined output after a run, if the run returned and wrote one.\<close>

definition merged_rows :: "exn \<times> 'v calculator + 'v calculator \<Rightarrow> (string \<times> val) list list option" where
  "merged_rows outcome =
     (case outcome of
        Inl x \<Rightarrow> None
      | Inr c \<Rightarrow> map_option fc_rows (catalog c (out_routes c)))"

text \<open>
  Two chunks of one origin each, whose assigned destination id is a string with an
  apostrophe in it and is not the id of any destination. With the id \<open>x' OR '1'='1\<close> the
  where clause reads \<open>NAME = 'x' OR '1'='1'\<close>: a disjunction whose second part compares
  two equal literals, so the geodatabase yields every row of the destinations. With the
  id \<open>O'Hare\<close> the clause reads \<open>NAME = 'O'Hare'\<close>, which is no SQL expression: the
  geodatabase refuses it and the cursor raises \<open>RuntimeError\<close>.
\<close>

definition ex_tautology_id :: string where
  "ex_tautology_id =
     ''x'' @ [apostrophe] @ '' OR '' @ [apostrophe] @ ''1'' @ [apostrophe] @ ''='' @ [apostrophe] @ ''1''"

definition ex_world_tautology_id :: "string world" where
  "ex_world_tautology_id =
     (ex_world ''a1'')
       \<lparr>origins_table :=
          [\<lparr>o_oid = 1, o_shape = VGeom ''p1'', o_id = VInt 10,
            o_assigned_dest = VStr ex_tautology_id, o_transfer = []\<rparr>],
        destinations_where :=
          (\<lambda>where_clause.
             if where_clause = ''NAME = '' @ [apostrophe] @ ex_tautology_id @ [apostrophe]
             then ex_destinations else ex_destinations_where where_clause)\<rparr>"

definition ex_apostrophe_id :: string where
  "ex_apostrophe_id = ''O'' @ [apostrophe] @ ''Hare''"

definition ex_world_apostrophe_id :: "string world" where
  "ex_world_apostrophe_id =
     (ex_world ''a1'')
       \<lparr>fault :=
          (\<lambda>c. if c = SearchCursor ''InputDestinationsa1''
                        (''NAME = '' @ [apostrophe] @ ex_apostrophe_id @ [apostrophe])
                then Some (External ''RuntimeError'') else None),
        origins_table :=
          [\<lparr>o_oid = 1, o_shape = VGeom ''p1'', o_id = VInt 10,
            o_assigned_dest = VStr ex_apostrophe_id, o_transfer = []\<rparr>]\<rparr>"

text \<open>The example world with a solver that finds no route.\<close>

definition ex_world_no_solution :: "string \<Rightarrow> string world" where
  "ex_world_no_solution jid =
     (ex_world jid)\<lparr>solve_succeeded := (\<lambda>s. False),
                     solver_messages := (\<lambda>s. [(-1, ''No solution found.'')])\<rparr>"

text \<open>The job results of the example: of a job that solved its chunk, and of one that did not.\<close>

definition ex_solved :: "string \<Rightarrow> int \<times> int \<Rightarrow> job_result" where
  "ex_solved jid chunk =
     \<lparr>jobId = jid, jobFolder = os_path_join ''scratch'' jid, solveSucceeded = True,
      solveMessages = [''Solve succeeded.''], outputRoutes = ex_output jid chunk,
      logFile = os_path_join (os_path_join ''scratch'' jid) ''RoutePairs.log''\<rparr>"

definition ex_unsolved :: "string \<Rightarrow> job_result" where
  "ex_unsolved jid =
     \<lparr>jobId = jid, jobFolder = os_path_join ''scratch'' jid, solveSucceeded = False,
      solveMessages = [''No solution found.''], outputRoutes = [],
      logFile = os_path_join (os_path_join ''scratch'' jid) ''RoutePairs.log''\<rparr>"

section \<open>Properties of the chunk planner\<close>

lemma oid_len:
  "0 < m \<Longrightarrow> length (oid_ranges_from low tot m) = (if tot < low then 0 else nat ((tot - low) div m + 1))"
proof (induction low tot m rule: oid_ranges_from.induct)
  case (1 low tot m)
  show ?case
  proof (cases "tot < low")
    case True
    then show ?thesis by (simp add: oid_ranges_from.simps)
  next
    case False
    with 1 have IH: "length (oid_ranges_from (low + m) tot m) = (if tot < low + m then 0 else nat ((tot - (low + m)) div m + 1))"
      by simp
    show ?thesis
    proof (cases "tot < low + m")
      case True
      with False 1(2) have "(tot - low) div m = 0" by (simp add: div_pos_pos_trivial)
      with True False IH 1(2) show ?thesis by (subst oid_ranges_from.simps) simp
    next
      case F2: False
      have "tot - low = (tot - (low + m)) + m" by simp
      then have "(tot - low) div m = (tot - (low + m)) div m + 1"
        using 1(2) by (metis div_add_self2 less_irrefl)
      moreover have "0 \<le> (tot - (low + m)) div m" using F2 1(2) by (simp add: pos_imp_zdiv_nonneg_iff)
      ultimately show ?thesis using F2 False IH 1(2) by (subst oid_ranges_from.simps) simp
    qed
  qed
qed

lemma oid_nth:
  "0 < m \<Longrightarrow> i < length (oid_ranges_from low tot m) \<Longrightarrow>
    oid_ranges_from low tot m ! i = (low + int i * m, min (low + int i * m + m - 1) tot)"
proof (induction low tot m arbitrary: i rule: oid_ranges_from.induct)
  case (1 low tot m)
  have nl: "\<not> tot < low" using 1(2,3) by (auto simp: oid_ranges_from.simps[of low tot m])
  have eq: "oid_ranges_from low tot m = (low, min (low + m - 1) tot) # oid_ranges_from (low + m) tot m"
    using nl 1(2) by (subst oid_ranges_from.simps) simp
  show ?case
  proof (cases i)
    case 0
    then show ?thesis by (simp add: eq)
  next
    case (Suc j)
    with 1(3) eq have "j < length (oid_ranges_from (low + m) tot m)" by simp
    with 1(1)[of j] nl 1(2) have "oid_ranges_from (low + m) tot m ! j = (low + m + int j * m, min (low + m + int j * m + m - 1) tot)"
      by simp
    then show ?thesis using Suc by (simp add: eq algebra_simps)
  qed
qed


lemma div_times_le:
  assumes m: "(0::int) < m"
  shows "(x div m) * m \<le> x"
proof -
  have "x = m * (x div m) + x mod m" by simp
  moreover have "0 \<le> x mod m" using m by simp
  ultimately have "m * (x div m) \<le> x" by linarith
  then show ?thesis by (simp add: mult.commute)
qed

lemma chunk_index_bound:
  assumes m: "(0::int) < m" and t: "1 \<le> tot" and i: "int i < (tot - 1) div m + 1"
  shows "int i * m + 1 \<le> tot"
proof -
  have "int i \<le> (tot - 1) div m" using i by simp
  then have "int i * m \<le> ((tot - 1) div m) * m" using m by (simp add: mult_right_mono)
  also have "\<dots> \<le> tot - 1" using m by (rule div_times_le)
  finally show ?thesis by simp
qed

lemma chunk_count_covers:
  assumes m: "(0::int) < m"
  shows "x < (x div m + 1) * m"
proof -
  have "x = m * (x div m) + x mod m" by simp
  moreover have "x mod m < m" using m by simp
  ultimately have "x < m * (x div m) + m" by linarith
  then show ?thesis by (simp add: algebra_simps)
qed

text \<open>
  Claim C1. For every \<open>total_row_count \<ge> 0\<close> and \<open>max_chunk_size > 0\<close> the plan is
  returned (no error) and is an ascending sequence of contiguous, non-overlapping,
  1-based inclusive ranges, none longer than \<open>max_chunk_size\<close>, whose union is
  exactly \<open>{1..total_row_count}\<close>; it has \<open>ceil(total_row_count / max_chunk_size)\<close>
  chunks and is empty exactly when \<open>total_row_count = 0\<close>. The plan for 208 rows in
  chunks of 50 is the one of the unit test.
\<close>

theorem chunk_plan_partition:
  "(0 \<le> tot \<and> 0 < m \<longrightarrow>
     (\<exists>cs. get_oid_ranges_for_input tot m = Inr cs
        \<and> int (length cs) = (tot + m - 1) div m
        \<and> (\<forall>i < length cs. fst (cs ! i) = (if i = 0 then 1 else snd (cs ! (i - 1)) + 1)
               \<and> fst (cs ! i) \<le> snd (cs ! i) \<and> snd (cs ! i) - fst (cs ! i) < m)
        \<and> (\<forall>i j. i < j \<and> j < length cs \<longrightarrow> snd (cs ! i) < fst (cs ! j))
        \<and> (\<Union>(lo, hi) \<in> set cs. {lo..hi}) = {1..tot}
        \<and> (cs = [] \<longleftrightarrow> tot = 0)))
   \<and> get_oid_ranges_for_input 208 50 = Inr [(1, 50), (51, 100), (101, 150), (151, 200), (201, 208)]"
proof (intro conjI impI)
  show "get_oid_ranges_for_input 208 50 = Inr [(1, 50), (51, 100), (101, 150), (151, 200), (201, 208)]"
    by (simp add: get_oid_ranges_for_input_def oid_ranges_from.simps)
next
  assume a: "0 \<le> tot \<and> 0 < m"
  then have t: "0 \<le> tot" and m: "0 < m" by simp_all
  define cs where "cs = oid_ranges_from 1 tot m"
  have len: "length cs = (if tot < 1 then 0 else nat ((tot - 1) div m + 1))"
    unfolding cs_def using m by (rule oid_len)
  have nth: "cs ! i = (1 + int i * m, min (int i * m + m) tot)" if "i < length cs" for i
    using oid_nth[OF m, of i 1 tot] that unfolding cs_def by (simp add: algebra_simps)
  have nn: "0 \<le> (tot - 1) div m" if "1 \<le> tot" using that m by (simp add: pos_imp_zdiv_nonneg_iff)
  have bound: "int i * m + 1 \<le> tot" if "i < length cs" for i
  proof -
    from that len have t1: "1 \<le> tot" by (auto split: if_splits)
    with that len nn[OF t1] have "int i < (tot - 1) div m + 1" by simp
    with m t1 show ?thesis by (rule chunk_index_bound)
  qed
  have c1: "get_oid_ranges_for_input tot m = Inr cs"
    using m by (simp add: get_oid_ranges_for_input_def cs_def)
  have c2: "int (length cs) = (tot + m - 1) div m"
  proof (cases "tot < 1")
    case True
    with t have "tot = 0" by simp
    with m len show ?thesis by (simp add: div_pos_pos_trivial)
  next
    case False
    have "tot + m - 1 = (tot - 1) + m" by simp
    then have "(tot + m - 1) div m = (tot - 1) div m + 1" using m by (metis div_add_self2 less_irrefl)
    with False len nn show ?thesis by simp
  qed
  have c3: "\<forall>i < length cs. fst (cs ! i) = (if i = 0 then 1 else snd (cs ! (i - 1)) + 1)
               \<and> fst (cs ! i) \<le> snd (cs ! i) \<and> snd (cs ! i) - fst (cs ! i) < m"
  proof (intro allI impI)
    fix i assume i: "i < length cs"
    have b: "int i * m + 1 \<le> tot" using i by (rule bound)
    have p1: "fst (cs ! i) = (if i = 0 then 1 else snd (cs ! (i - 1)) + 1)"
    proof (cases i)
      case 0
      with i show ?thesis by (simp add: nth)
    next
      case (Suc j)
      with i have j: "j < length cs" by simp
      have "int j * m + m = int i * m" using Suc by (simp add: algebra_simps)
      with b have "min (int j * m + m) tot = int i * m" by simp
      with Suc i j show ?thesis by (simp add: nth)
    qed
    have p2: "fst (cs ! i) \<le> snd (cs ! i)" using i b m by (simp add: nth)
    have p3: "snd (cs ! i) - fst (cs ! i) < m" using i m by (simp add: nth)
    from p1 p2 p3 show "fst (cs ! i) = (if i = 0 then 1 else snd (cs ! (i - 1)) + 1)
               \<and> fst (cs ! i) \<le> snd (cs ! i) \<and> snd (cs ! i) - fst (cs ! i) < m" by blast
  qed
  have c4: "\<forall>i j. i < j \<and> j < length cs \<longrightarrow> snd (cs ! i) < fst (cs ! j)"
  proof (intro allI impI)
    fix i j assume ij: "i < j \<and> j < length cs"
    then have "int i + 1 \<le> int j" by simp
    then have "(int i + 1) * m \<le> int j * m" using m by (simp only: mult_right_mono less_imp_le)
    then have "int i * m + m \<le> int j * m" by (simp add: algebra_simps)
    moreover have "snd (cs ! i) \<le> int i * m + m" using ij by (simp add: nth)
    moreover have "fst (cs ! j) = 1 + int j * m" using ij by (simp add: nth)
    ultimately show "snd (cs ! i) < fst (cs ! j)" by linarith
  qed
  have c5: "(\<Union>(lo, hi) \<in> set cs. {lo..hi}) = {1..tot}"
  proof (intro set_eqI iffI)
    fix x assume "x \<in> (\<Union>(lo, hi) \<in> set cs. {lo..hi})"
    then obtain lo hi where lh: "(lo, hi) \<in> set cs" and x: "lo \<le> x" "x \<le> hi" by auto
    from lh obtain i where i: "i < length cs" and ci: "cs ! i = (lo, hi)" by (auto simp: in_set_conv_nth)
    from nth[OF i] ci have lo: "lo = 1 + int i * m" and hi: "hi = min (int i * m + m) tot" by simp_all
    have nn2: "0 \<le> int i * m" using m by simp
    have "1 \<le> x" using x(1) lo nn2 by linarith
    moreover have "x \<le> tot" using x(2) hi by simp
    ultimately show "x \<in> {1..tot}" by simp
  next
    fix x assume "x \<in> {1..tot}"
    then have x: "1 \<le> x" "x \<le> tot" by simp_all
    define i where "i = nat ((x - 1) div m)"
    have nx: "0 \<le> (x - 1) div m" using x m by (simp add: pos_imp_zdiv_nonneg_iff)
    then have ii: "int i = (x - 1) div m" by (simp add: i_def)
    have "(x - 1) div m \<le> (tot - 1) div m" using x m by (simp add: zdiv_mono1)
    with ii len x nn have il: "i < length cs" by simp
    have lo: "int i * m \<le> x - 1" using div_times_le[OF m, of "x - 1"] ii by simp
    have hi: "x - 1 < (int i + 1) * m" using chunk_count_covers[OF m, of "x - 1"] ii by simp
    then have "x \<le> int i * m + m" by (simp add: algebra_simps)
    with lo x have "x \<in> {fst (cs ! i)..snd (cs ! i)}" using il by (simp add: nth)
    moreover have "cs ! i \<in> set cs" using il by simp
    ultimately show "x \<in> (\<Union>(lo, hi) \<in> set cs. {lo..hi})" by (force simp: case_prod_beta)
  qed
  have c6: "cs = [] \<longleftrightarrow> tot = 0"
  proof -
    have "cs = [] \<longleftrightarrow> length cs = 0" by simp
    also have "\<dots> \<longleftrightarrow> tot < 1" using len nn by (auto split: if_splits)
    also have "\<dots> \<longleftrightarrow> tot = 0" using t by auto
    finally show ?thesis .
  qed
  from c1 c2 c3 c4 c5 c6
  show "\<exists>cs. get_oid_ranges_for_input tot m = Inr cs
        \<and> int (length cs) = (tot + m - 1) div m
        \<and> (\<forall>i < length cs. fst (cs ! i) = (if i = 0 then 1 else snd (cs ! (i - 1)) + 1)
               \<and> fst (cs ! i) \<le> snd (cs ! i) \<and> snd (cs ! i) - fst (cs ! i) < m)
        \<and> (\<forall>i j. i < j \<and> j < length cs \<longrightarrow> snd (cs ! i) < fst (cs ! j))
        \<and> (\<Union>(lo, hi) \<in> set cs. {lo..hi}) = {1..tot}
        \<and> (cs = [] \<longleftrightarrow> tot = 0)" by blast
qed

theorem chunk_plan_partition_witness:
  "(0::int) \<le> 208 \<and> (0::int) < 50
   \<and> get_oid_ranges_for_input 208 50 = Inr [(1, 50), (51, 100), (101, 150), (151, 200), (201, 208)]
   \<and> int (length [(1::int, 50::int), (51, 100), (101, 150), (151, 200), (201, 208)]) = (208 + 50 - 1) div 50
   \<and> (\<Union>(lo, hi) \<in> set [(1::int, 50::int), (51, 100), (101, 150), (151, 200), (201, 208)]. {lo..hi}) = {1..208}"
  using chunk_plan_partition [of 208 50] by auto

section \<open>Properties of the message routing\<close>

lemma split_acc_no_sep:
  "\<not> sublist sep s \<Longrightarrow> split_acc sep acc s = [rev acc @ s]"
proof (induction s arbitrary: acc)
  case Nil
  then show ?case by simp
next
  case (Cons c cs)
  from Cons.prems have np: "\<not> prefix sep (c # cs)" and ns: "\<not> sublist sep cs"
    by (auto simp: sublist_Cons_right)
  from Cons.IH[OF ns, of "c # acc"] np show ?case by simp
qed

lemma prefix_butlast_sep:
  "sep \<noteq> [] \<Longrightarrow> prefix (a @ butlast sep) (a @ sep @ b)"
  by (metis append_butlast_last_id append.assoc prefixI same_prefix_prefix)

lemma split_acc_first_sep:
  "sep \<noteq> [] \<Longrightarrow> \<not> sublist sep (a @ butlast sep) \<Longrightarrow>
     split_acc sep acc (a @ sep @ b) = (rev acc @ a) # split_acc sep [] b"
proof (induction a arbitrary: acc)
  case Nil
  then obtain c cs where s: "sep = c # cs" by (cases sep) auto
  then show ?case by simp
next
  case (Cons x a)
  from Cons.prems(2) have ns: "\<not> sublist sep (a @ butlast sep)" and np: "\<not> prefix sep (x # a @ butlast sep)"
    by (auto simp: sublist_Cons_right)
  have "\<not> prefix sep (x # a @ sep @ b)"
  proof
    assume p: "prefix sep (x # a @ sep @ b)"
    have "length sep \<le> length (x # a @ butlast sep)" by simp
    moreover have "prefix (x # a @ butlast sep) (x # a @ sep @ b)"
      using prefix_butlast_sep[OF Cons.prems(1), of "x # a" b] by simp
    ultimately have "prefix sep (x # a @ butlast sep)" using p
      by (metis prefix_length_prefix)
    with np show False by simp
  qed
  with Cons.IH[OF Cons.prems(1) ns, of "x # acc"] show ?case by simp
qed

lemma split_acc_not_Nil: "split_acc sep acc s \<noteq> []"
  by (induction sep acc s rule: split_acc.induct) auto

lemma split_acc_one_part:
  "sep \<noteq> [] \<Longrightarrow> split_acc sep acc s = [q] \<Longrightarrow> q = rev acc @ s \<and> \<not> sublist sep s"
proof (induction sep acc s rule: split_acc.induct)
  case (1 sep acc)
  then show ?case by simp
next
  case (2 sep acc c cs)
  show ?case
  proof (cases "prefix sep (c # cs)")
    case True
    with 2(3,4) show ?thesis by (simp add: split_acc_not_Nil)
  next
    case False
    with 2(2)[OF _ 2(3)] 2(3,4) show ?thesis by (auto simp: sublist_Cons_right)
  qed
qed

lemma split_acc_two_parts:
  "sep \<noteq> [] \<Longrightarrow> split_acc sep acc s = [p, q] \<Longrightarrow>
     \<exists>a. p = rev acc @ a \<and> s = a @ sep @ q \<and> \<not> sublist sep (a @ butlast sep) \<and> \<not> sublist sep q"
proof (induction sep acc s arbitrary: p q rule: split_acc.induct)
  case (1 sep acc)
  then show ?case by simp
next
  case (2 sep acc c cs)
  show ?case
  proof (cases "prefix sep (c # cs)")
    case True
    with 2(3,4) have p: "p = rev acc" and r: "split_acc sep [] (drop (length sep) (c # cs)) = [q]"
      by simp_all
    from split_acc_one_part[OF 2(3) r] have q: "q = drop (length sep) (c # cs)" and nq: "\<not> sublist sep q"
      by simp_all
    from True q have s: "c # cs = [] @ sep @ q"
      by (metis append_Nil append_take_drop_id prefix_def append_eq_conv_conj)
    have "length (butlast sep) < length sep" using 2(3) by simp
    then have "\<not> sublist sep ([] @ butlast sep)"
      by (metis append_Nil sublist_length_le not_less)
    with p s nq show ?thesis by blast
  next
    case False
    with 2(3,4) have "split_acc sep (c # acc) cs = [p, q]" by simp
    from 2(2)[OF _ 2(3) this] False 2(3)
    obtain a where a: "p = rev (c # acc) @ a" "cs = a @ sep @ q" "\<not> sublist sep (a @ butlast sep)" "\<not> sublist sep q"
      by blast
    have "prefix ((c # a) @ butlast sep) ((c # a) @ sep @ q)" using 2(3) by (rule prefix_butlast_sep)
    with a(2) have pb: "prefix (c # a @ butlast sep) (c # cs)" by simp
    have "\<not> prefix sep (c # a @ butlast sep)"
    proof
      assume "prefix sep (c # a @ butlast sep)"
      then have "prefix sep (c # cs)" using pb by (rule prefix_order.trans)
      with False show False by simp
    qed
    with a(3) have "\<not> sublist sep ((c # a) @ butlast sep)" by (simp add: sublist_Cons_right)
    moreover have "p = rev acc @ (c # a)" using a(1) by simp
    moreover have "c # cs = (c # a) @ sep @ q" using a(2) by simp
    ultimately show ?thesis using a(4) by blast
  qed
qed


lemma py_split_two_parts_iff:
  "py_split s MSG_STR_SPLITTER = Inr [level, msg] \<longleftrightarrow>
     s = level @ MSG_STR_SPLITTER @ msg \<and> \<not> sublist MSG_STR_SPLITTER (level @ butlast MSG_STR_SPLITTER)
       \<and> \<not> sublist MSG_STR_SPLITTER msg"
proof
  assume "py_split s MSG_STR_SPLITTER = Inr [level, msg]"
  then have ne: "MSG_STR_SPLITTER \<noteq> []" and sp: "split_acc MSG_STR_SPLITTER [] s = [level, msg]"
    by (auto simp: py_split_def split: if_splits)
  from split_acc_two_parts[OF ne sp] show "s = level @ MSG_STR_SPLITTER @ msg
      \<and> \<not> sublist MSG_STR_SPLITTER (level @ butlast MSG_STR_SPLITTER) \<and> \<not> sublist MSG_STR_SPLITTER msg"
    by auto
next
  assume a: "s = level @ MSG_STR_SPLITTER @ msg \<and> \<not> sublist MSG_STR_SPLITTER (level @ butlast MSG_STR_SPLITTER)
       \<and> \<not> sublist MSG_STR_SPLITTER msg"
  have ne: "MSG_STR_SPLITTER \<noteq> []" by (simp add: MSG_STR_SPLITTER_def)
  from a have "split_acc MSG_STR_SPLITTER [] s = level # split_acc MSG_STR_SPLITTER [] msg"
    using split_acc_first_sep[OF ne, of level "[]" msg] by simp
  also have "split_acc MSG_STR_SPLITTER [] msg = [msg]" using a split_acc_no_sep[of MSG_STR_SPLITTER msg "[]"] by simp
  finally show "py_split s MSG_STR_SPLITTER = Inr [level, msg]" using ne by (simp add: py_split_def)
qed

lemma parse_std_two_parts:
  "py_split s MSG_STR_SPLITTER = Inr [level, msg] \<Longrightarrow>
     parse_std_and_write_to_gp_ui s ui =
       Inr (ui @ [if level = ''ERROR'' \<or> level = ''CRITICAL'' then AddError msg
                  else if level = ''WARNING'' then AddWarning msg else AddMessage msg])"
  by (simp add: parse_std_and_write_to_gp_ui_def parse_std_try_def)

lemma parse_std_other:
  "\<not> (\<exists>level msg. py_split s MSG_STR_SPLITTER = Inr [level, msg]) \<Longrightarrow>
     parse_std_and_write_to_gp_ui s ui = Inr (ui @ [AddMessage s])"
  by (auto simp: parse_std_and_write_to_gp_ui_def parse_std_try_def split: sum.splits list.splits)

text \<open>
  Claim C10. \<open>parse_std_and_write_to_gp_ui\<close> returns for every input string (it never
  raises). A string splits into exactly the two parts \<open>level\<close>, \<open>msg\<close> precisely when it is
  \<open>level | msg\<close> with the separator occurring first right after \<open>level\<close> and not at all in
  \<open>msg\<close>; then \<open>msg\<close> goes to the error sink for the levels ERROR and CRITICAL, to the
  warning sink for WARNING and to the info sink for any other level. Every other string
  is written verbatim to the info sink.
\<close>

theorem parse_std_routes_by_level:
  "(\<exists>ui'. parse_std_and_write_to_gp_ui s ui = Inr ui')
   \<and> (\<forall>level msg. (py_split s MSG_STR_SPLITTER = Inr [level, msg]) =
         (s = level @ '' | '' @ msg \<and> \<not> sublist '' | '' (level @ '' |'') \<and> \<not> sublist '' | '' msg))
   \<and> (\<forall>level msg. s = level @ '' | '' @ msg \<and> \<not> sublist '' | '' (level @ '' |'') \<and> \<not> sublist '' | '' msg \<longrightarrow>
         parse_std_and_write_to_gp_ui s ui =
           Inr (ui @ [if level = ''ERROR'' \<or> level = ''CRITICAL'' then AddError msg
                      else if level = ''WARNING'' then AddWarning msg else AddMessage msg]))
   \<and> ((\<nexists>level msg. s = level @ '' | '' @ msg \<and> \<not> sublist '' | '' (level @ '' |'') \<and> \<not> sublist '' | '' msg) \<longrightarrow>
         parse_std_and_write_to_gp_ui s ui = Inr (ui @ [AddMessage s]))"
proof -
  have iff: "(py_split s MSG_STR_SPLITTER = Inr [level, msg]) =
         (s = level @ '' | '' @ msg \<and> \<not> sublist '' | '' (level @ '' |'') \<and> \<not> sublist '' | '' msg)" for level msg
    using py_split_two_parts_iff[of s level msg] by (simp add: MSG_STR_SPLITTER_def)
  have c1: "\<exists>ui'. parse_std_and_write_to_gp_ui s ui = Inr ui'"
    by (simp add: parse_std_and_write_to_gp_ui_def split: sum.splits)
  have c3: "parse_std_and_write_to_gp_ui s ui =
           Inr (ui @ [if level = ''ERROR'' \<or> level = ''CRITICAL'' then AddError msg
                      else if level = ''WARNING'' then AddWarning msg else AddMessage msg])"
    if "s = level @ '' | '' @ msg \<and> \<not> sublist '' | '' (level @ '' |'') \<and> \<not> sublist '' | '' msg" for level msg
    using that iff[of level msg] parse_std_two_parts[of s level msg ui] by blast
  have c4: "parse_std_and_write_to_gp_ui s ui = Inr (ui @ [AddMessage s])"
    if "\<nexists>level msg. s = level @ '' | '' @ msg \<and> \<not> sublist '' | '' (level @ '' |'') \<and> \<not> sublist '' | '' msg"
    using that iff parse_std_other[of s ui] by blast
  from c1 iff c3 c4 show ?thesis by blast
qed

lemma no_sep_no_form:
  "\<not> sublist sep s \<Longrightarrow> \<nexists>level msg. s = level @ sep @ msg \<and> P level msg"
  by (auto simp: sublist_def)

theorem parse_std_routes_by_level_witness:
  "parse_std_and_write_to_gp_ui ''ERROR | Something terrible happened'' [] = Inr [AddError ''Something terrible happened'']
   \<and> parse_std_and_write_to_gp_ui ''WARNING | Warning message'' [] = Inr [AddWarning ''Warning message'']
   \<and> parse_std_and_write_to_gp_ui ''Poorly-formatted | message 2'' [] = Inr [AddMessage ''message 2'']
   \<and> parse_std_and_write_to_gp_ui ''Poorly-formatted message 1'' [] = Inr [AddMessage ''Poorly-formatted message 1'']"
proof -
  note two = parse_std_routes_by_level [THEN conjunct2, THEN conjunct2, THEN conjunct1, rule_format]
  note other = parse_std_routes_by_level [THEN conjunct2, THEN conjunct2, THEN conjunct2, THEN mp]
  have n1: "\<not> sublist '' | '' (''ERROR'' @ '' |'')" "\<not> sublist '' | '' ''Something terrible happened''"
    by (simp_all add: sublist_Cons_right)
  have n2: "\<not> sublist '' | '' (''WARNING'' @ '' |'')" "\<not> sublist '' | '' ''Warning message''"
    by (simp_all add: sublist_Cons_right)
  have n3: "\<not> sublist '' | '' (''Poorly-formatted'' @ '' |'')" "\<not> sublist '' | '' ''message 2''"
    by (simp_all add: sublist_Cons_right)
  have n4: "\<not> sublist '' | '' ''Poorly-formatted message 1''"
    by (simp add: sublist_Cons_right)
  have w1: "parse_std_and_write_to_gp_ui ''ERROR | Something terrible happened'' [] = Inr [AddError ''Something terrible happened'']"
    using two [of "''ERROR | Something terrible happened''" "''ERROR''" "''Something terrible happened''" "[]"] n1 by simp
  have w2: "parse_std_and_write_to_gp_ui ''WARNING | Warning message'' [] = Inr [AddWarning ''Warning message'']"
    using two [of "''WARNING | Warning message''" "''WARNING''" "''Warning message''" "[]"] n2 by simp
  have w3: "parse_std_and_write_to_gp_ui ''Poorly-formatted | message 2'' [] = Inr [AddMessage ''message 2'']"
    using two [of "''Poorly-formatted | message 2''" "''Poorly-formatted''" "''message 2''" "[]"] n3 by simp
  have w4: "parse_std_and_write_to_gp_ui ''Poorly-formatted message 1'' [] = Inr [AddMessage ''Poorly-formatted message 1'']"
  proof -
    have "\<nexists>level msg. ''Poorly-formatted message 1'' = level @ '' | '' @ msg
            \<and> \<not> sublist '' | '' (level @ '' |'') \<and> \<not> sublist '' | '' msg"
      using n4 by (rule no_sep_no_form)
    then show ?thesis using other [of "''Poorly-formatted message 1''" "[]"] by simp
  qed
  from w1 w2 w3 w4 show ?thesis by blast
qed

section \<open>Properties of the solver configuration\<close>

lemma py_setattr_properties:
  "py_setattr w s prop v = Inr s' \<Longrightarrow> properties s' = (properties s)(prop \<mapsto> v)"
  by (auto simp: py_setattr_def split: option.splits)

lemma set_config_props_properties:
  "properties (set_config_props w cfg ks s) p =
     (case map_of (RT_PROPS cfg) p of
        Some v \<Rightarrow> if p \<in> set ks \<and> p \<notin> set (RT_PROPS_SET_BY_TOOL cfg) \<and> setattr_fault w p v = None
                  then Some v else properties s p
      | None \<Rightarrow> properties s p)"
proof (induction ks arbitrary: s)
  case Nil
  then show ?case by (simp split: option.splits)
next
  case (Cons k ks)
  show ?case
  proof (cases "k \<in> set (RT_PROPS_SET_BY_TOOL cfg)")
    case True
    then show ?thesis using Cons.IH[of s] by (auto split: option.splits)
  next
    case nt: False
    show ?thesis
    proof (cases "map_of (RT_PROPS cfg) k")
      case None
      then show ?thesis using nt Cons.IH[of s] by (auto split: option.splits)
    next
      case (Some v)
      show ?thesis
      proof (cases "setattr_fault w k v")
        case None
        then have "py_setattr w s k v = Inr (s\<lparr>properties := (properties s)(k \<mapsto> v)\<rparr>)"
          by (simp add: py_setattr_def)
        then show ?thesis using nt Some None Cons.IH[of "s\<lparr>properties := (properties s)(k \<mapsto> v)\<rparr>"]
          by (auto split: option.splits)
      next
        case (Some e)
        then have "py_setattr w s k v = Inl e" by (simp add: py_setattr_def)
        then show ?thesis using nt \<open>map_of (RT_PROPS cfg) k = Some v\<close> Some Cons.IH[of s]
          by (auto split: option.splits)
      qed
    qed
  qed
qed

lemma set_config_props_tables:
  "added_fields (set_config_props w cfg ks s) = added_fields s
   \<and> stops_table (set_config_props w cfg ks s) = stops_table s"
  by (induction ks arbitrary: s) (auto simp: py_setattr_def split: option.splits)

lemma initialize_rt_solver_Inr:
  assumes "initialize_rt_solver w cfg rt = Inr rt'"
  shows "\<exists>s. rt_solver rt' = Some s
           \<and> properties s =
               (properties (set_config_props w cfg (map fst (RT_PROPS cfg))
                   \<lparr>properties = engine_defaults w, added_fields = [], stops_table = []\<rparr>))
                 (''travelMode'' \<mapsto> travel_mode (kwargs rt), ''timeUnits'' \<mapsto> time_units (kwargs rt),
                  ''distanceUnits'' \<mapsto> distance_units (kwargs rt), ''timeOfDay'' \<mapsto> time_of_day (kwargs rt))
           \<and> added_fields s = [] \<and> stops_table s = []
           \<and> kwargs rt' = kwargs rt \<and> job_result rt' = job_result rt \<and> selected_origins rt' = selected_origins rt"
  using assms unfolding initialize_rt_solver_def
  by (auto simp: Let_def py_setattr_def set_config_props_tables split: sum.splits option.splits if_splits)


lemma initialize_rt_solver_returns:
  assumes "is_service rt \<or> fault w (CheckOutExtension ''network'') = None"
    and "fault w (NaxRoute (case network_data_source (kwargs rt) of NdsLayer l \<Rightarrow> l | NdsStr s \<Rightarrow> s)) = None"
    and "setattr_fault w ''travelMode'' (travel_mode (kwargs rt)) = None"
    and "setattr_fault w ''timeUnits'' (time_units (kwargs rt)) = None"
    and "setattr_fault w ''distanceUnits'' (distance_units (kwargs rt)) = None"
    and "setattr_fault w ''timeOfDay'' (time_of_day (kwargs rt)) = None"
  shows "\<exists>rt'. initialize_rt_solver w cfg rt = Inr rt'"
  using assms unfolding initialize_rt_solver_def
  by (auto simp: Let_def py_setattr_def perform_def split: sum.splits option.splits if_splits)

text \<open>
  Claim C7. Whenever \<open>initialize_rt_solver\<close> completes, the solver's configuration is the
  three-layer merge: each of the four caller-controlled properties (travelMode, timeUnits,
  distanceUnits, timeOfDay) holds the caller's value, whatever the static table says about
  that name; every other property holds its \<open>RT_PROPS\<close> value when it has one that is not
  listed in \<open>RT_PROPS_SET_BY_TOOL\<close> and that the solver accepts, and the engine default
  otherwise. It completes whenever the solver object can be created and accepts the four
  caller values.
\<close>

theorem caller_properties_take_precedence:
  "(\<forall>rt'. initialize_rt_solver w cfg rt = Inr rt' \<longrightarrow>
      (\<exists>s. rt_solver rt' = Some s
         \<and> properties s ''travelMode'' = Some (travel_mode (kwargs rt))
         \<and> properties s ''timeUnits'' = Some (time_units (kwargs rt))
         \<and> properties s ''distanceUnits'' = Some (distance_units (kwargs rt))
         \<and> properties s ''timeOfDay'' = Some (time_of_day (kwargs rt))
         \<and> (\<forall>p. p \<notin> {''travelMode'', ''timeUnits'', ''distanceUnits'', ''timeOfDay''} \<longrightarrow>
               properties s p =
                 (case map_of (RT_PROPS cfg) p of
                    Some v \<Rightarrow> if p \<notin> set (RT_PROPS_SET_BY_TOOL cfg) \<and> setattr_fault w p v = None
                              then Some v else engine_defaults w p
                  | None \<Rightarrow> engine_defaults w p))))
   \<and> ((is_service rt \<or> fault w (CheckOutExtension ''network'') = None)
        \<and> fault w (NaxRoute (case network_data_source (kwargs rt) of NdsLayer l \<Rightarrow> l | NdsStr s \<Rightarrow> s)) = None
        \<and> setattr_fault w ''travelMode'' (travel_mode (kwargs rt)) = None
        \<and> setattr_fault w ''timeUnits'' (time_units (kwargs rt)) = None
        \<and> setattr_fault w ''distanceUnits'' (distance_units (kwargs rt)) = None
        \<and> setattr_fault w ''timeOfDay'' (time_of_day (kwargs rt)) = None
      \<longrightarrow> (\<exists>rt'. initialize_rt_solver w cfg rt = Inr rt'))"
proof (intro conjI allI impI)
  fix rt' assume a: "initialize_rt_solver w cfg rt = Inr rt'"
  from initialize_rt_solver_Inr[OF a] obtain s where s: "rt_solver rt' = Some s"
    and ps: "properties s =
               (properties (set_config_props w cfg (map fst (RT_PROPS cfg))
                   \<lparr>properties = engine_defaults w, added_fields = [], stops_table = []\<rparr>))
                 (''travelMode'' \<mapsto> travel_mode (kwargs rt), ''timeUnits'' \<mapsto> time_units (kwargs rt),
                  ''distanceUnits'' \<mapsto> distance_units (kwargs rt), ''timeOfDay'' \<mapsto> time_of_day (kwargs rt))"
    by blast
  have key: "p \<in> set (map fst (RT_PROPS cfg))" if "map_of (RT_PROPS cfg) p = Some v" for p v
    using that by (simp add: map_of_eq_Some_iff weak_map_of_SomeI image_iff) (metis map_of_SomeD fst_conv)
  have other: "properties s p =
                 (case map_of (RT_PROPS cfg) p of
                    Some v \<Rightarrow> if p \<notin> set (RT_PROPS_SET_BY_TOOL cfg) \<and> setattr_fault w p v = None
                              then Some v else engine_defaults w p
                  | None \<Rightarrow> engine_defaults w p)"
    if "p \<notin> {''travelMode'', ''timeUnits'', ''distanceUnits'', ''timeOfDay''}" for p
  proof -
    from that have "properties s p = properties (set_config_props w cfg (map fst (RT_PROPS cfg))
                   \<lparr>properties = engine_defaults w, added_fields = [], stops_table = []\<rparr>) p"
      by (simp add: ps)
    then show ?thesis using key[of p]
      by (simp add: set_config_props_properties split: option.splits)
  qed
  from s ps other
  show "\<exists>s. rt_solver rt' = Some s
         \<and> properties s ''travelMode'' = Some (travel_mode (kwargs rt))
         \<and> properties s ''timeUnits'' = Some (time_units (kwargs rt))
         \<and> properties s ''distanceUnits'' = Some (distance_units (kwargs rt))
         \<and> properties s ''timeOfDay'' = Some (time_of_day (kwargs rt))
         \<and> (\<forall>p. p \<notin> {''travelMode'', ''timeUnits'', ''distanceUnits'', ''timeOfDay''} \<longrightarrow>
               properties s p =
                 (case map_of (RT_PROPS cfg) p of
                    Some v \<Rightarrow> if p \<notin> set (RT_PROPS_SET_BY_TOOL cfg) \<and> setattr_fault w p v = None
                              then Some v else engine_defaults w p
                  | None \<Rightarrow> engine_defaults w p))"
    by simp
next
  assume "(is_service rt \<or> fault w (CheckOutExtension ''network'') = None)
        \<and> fault w (NaxRoute (case network_data_source (kwargs rt) of NdsLayer l \<Rightarrow> l | NdsStr s \<Rightarrow> s)) = None
        \<and> setattr_fault w ''travelMode'' (travel_mode (kwargs rt)) = None
        \<and> setattr_fault w ''timeUnits'' (time_units (kwargs rt)) = None
        \<and> setattr_fault w ''distanceUnits'' (distance_units (kwargs rt)) = None
        \<and> setattr_fault w ''timeOfDay'' (time_of_day (kwargs rt)) = None"
  then show "\<exists>rt'. initialize_rt_solver w cfg rt = Inr rt'"
    using initialize_rt_solver_returns[of rt w cfg] by blast
qed

lemma ex_Route_init:
  "\<exists>rt. Route_init (ex_world ''a1'') ex_inputs = Inr rt \<and> kwargs rt = ex_inputs\<lparr>network_data_source := NdsStr ''Streets_ND''\<rparr>
      \<and> \<not> is_service rt"
  by (simp add: Route_init_def ex_world_def ex_inputs_def Let_def perform_def make_nds_layer_def is_nds_service_def
        os_path_basename_def is_sep_def os_sep_def os_altsep_def)

theorem caller_properties_take_precedence_witness:
  "\<exists>rt rt' s. Route_init (ex_world ''a1'') ex_inputs = Inr rt
      \<and> initialize_rt_solver (ex_world ''a1'') ex_config rt = Inr rt' \<and> rt_solver rt' = Some s
      \<and> properties s ''travelMode'' = Some ''Driving Time''
      \<and> properties s ''timeUnits'' = Some ''Minutes''
      \<and> properties s ''distanceUnits'' = Some ''Miles''
      \<and> properties s ''timeOfDay'' = Some ''None''
      \<and> properties s ''findBestSequence'' = Some ''False''
      \<and> properties s ''searchTolerance'' = None"
proof -
  from ex_Route_init obtain rt where rt: "Route_init (ex_world ''a1'') ex_inputs = Inr rt"
    and kw: "kwargs rt = ex_inputs\<lparr>network_data_source := NdsStr ''Streets_ND''\<rparr>" and ns: "\<not> is_service rt"
    by blast
  note t = caller_properties_take_precedence [of "ex_world ''a1''" ex_config rt]
  have "\<exists>rt'. initialize_rt_solver (ex_world ''a1'') ex_config rt = Inr rt'"
    using t[THEN conjunct2] kw by (simp add: ex_world_def ex_inputs_def)
  then obtain rt' where rt': "initialize_rt_solver (ex_world ''a1'') ex_config rt = Inr rt'" by blast
  from t[THEN conjunct1, rule_format, OF rt'] obtain s where s: "rt_solver rt' = Some s"
    and p1: "properties s ''travelMode'' = Some (travel_mode (kwargs rt))"
    and p2: "properties s ''timeUnits'' = Some (time_units (kwargs rt))"
    and p3: "properties s ''distanceUnits'' = Some (distance_units (kwargs rt))"
    and p4: "properties s ''timeOfDay'' = Some (time_of_day (kwargs rt))"
    and po: "\<forall>p. p \<notin> {''travelMode'', ''timeUnits'', ''distanceUnits'', ''timeOfDay''} \<longrightarrow>
               properties s p =
                 (case map_of (RT_PROPS ex_config) p of
                    Some v \<Rightarrow> if p \<notin> set (RT_PROPS_SET_BY_TOOL ex_config) \<and> setattr_fault (ex_world ''a1'') p v = None
                              then Some v else engine_defaults (ex_world ''a1'') p
                  | None \<Rightarrow> engine_defaults (ex_world ''a1'') p)"
    by blast
  have p5: "properties s ''findBestSequence'' = Some ''False''"
    using po[rule_format, of "''findBestSequence''"] by (simp add: ex_config_def ex_world_def)
  have p6: "properties s ''searchTolerance'' = None"
    using po[rule_format, of "''searchTolerance''"] by (simp add: ex_config_def ex_world_def)
  from rt rt' s p1 p2 p3 p4 p5 p6 kw show ?thesis by (simp add: ex_inputs_def)
qed

section \<open>Properties of the stop insertion\<close>

lemma perform_Inr: "perform w c tr = Inr tr' \<Longrightarrow> tr' = tr @ [c]"
  by (auto simp: perform_def split: option.splits)

lemma perform_no_fault: "fault w c = None \<Longrightarrow> perform w c tr = Inr (tr @ [c])"
  by (simp add: perform_def)

lemma matched_pairs_single:
  "matched_pairs w f [origin] =
     (if o_assigned_dest origin = VNone then []
      else case destinations_where w (dest_where_clause f (o_assigned_dest origin)) of
             [] \<Rightarrow> [] | destination # others \<Rightarrow> [(origin, destination)])"
  by (simp add: matched_pairs_def List.map_filter_simps split: list.splits)

lemma insert_origin_matched:
  assumes ok: "dests_ok w f dests"
    and io: "insert_origin w layer f reverse origin (dests, icur, drows, tr) = Inr st'"
  shows "\<exists>dests' tr'. dests_ok w f dests'
           \<and> st' = (dests', icur @ map (\<lambda>(a, b). origin_stop reverse a) (matched_pairs w f [origin]),
                     drows @ map (\<lambda>(a, b). destination_stop reverse a b) (matched_pairs w f [origin]), tr')
           \<and> (Solve \<notin> set tr \<longrightarrow> Solve \<notin> set tr')"
proof (cases "o_assigned_dest origin = VNone")
  case True
  then show ?thesis using ok io by (auto simp add: insert_origin_def matched_pairs_single)
next
  case nn: False
  show ?thesis
  proof (cases "dests (o_assigned_dest origin)")
    case (Some d)
    with ok obtain others where "destinations_where w (dest_where_clause f (o_assigned_dest origin)) = d # others"
      by (auto simp add: dests_ok_def)
    with Some nn ok io show ?thesis
      by (auto simp add: insert_origin_def matched_pairs_single)
  next
    case None
    from io None nn obtain tr' where
      p: "perform w (SearchCursor layer (dest_where_clause f (o_assigned_dest origin))) tr = Inr tr'"
      by (auto simp add: insert_origin_def Let_def split: sum.splits)
    from perform_Inr[OF p] have tr': "Solve \<notin> set tr \<longrightarrow> Solve \<notin> set tr'" by simp
    show ?thesis
    proof (cases "destinations_where w (dest_where_clause f (o_assigned_dest origin))")
      case Nil
      with None nn ok io p tr' show ?thesis
        by (auto simp add: insert_origin_def matched_pairs_single)
    next
      case (Cons d others)
      have "dests_ok w f (dests(o_assigned_dest origin \<mapsto> d))"
        using ok Cons by (auto simp: dests_ok_def)
      with None Cons nn io p tr' show ?thesis
        by (auto simp add: insert_origin_def matched_pairs_single)
    qed
  qed
qed

lemma matched_pairs_Cons:
  "matched_pairs w f (origin # rest) = matched_pairs w f [origin] @ matched_pairs w f rest"
  by (simp add: matched_pairs_def List.map_filter_simps split: option.splits list.splits)

lemma insert_origins_matched:
  assumes "dests_ok w f dests"
    and "insert_origins w layer f reverse os (dests, icur, drows, tr) = Inr st'"
  shows "\<exists>dests' tr'. dests_ok w f dests'
           \<and> st' = (dests', icur @ map (\<lambda>(a, b). origin_stop reverse a) (matched_pairs w f os),
                     drows @ map (\<lambda>(a, b). destination_stop reverse a b) (matched_pairs w f os), tr')
           \<and> (Solve \<notin> set tr \<longrightarrow> Solve \<notin> set tr')"
  using assms
proof (induction os arbitrary: dests icur drows tr)
  case Nil
  then show ?case by (auto simp add: matched_pairs_def List.map_filter_simps)
next
  case (Cons origin rest)
  from Cons.prems(2) obtain st1 where
    s1: "insert_origin w layer f reverse origin (dests, icur, drows, tr) = Inr st1"
    and s2: "insert_origins w layer f reverse rest st1 = Inr st'"
    by (auto split: sum.splits)
  from insert_origin_matched[OF Cons.prems(1) s1]
  obtain d1 t1 where d1: "dests_ok w f d1"
    and e1: "st1 = (d1, icur @ map (\<lambda>(a, b). origin_stop reverse a) (matched_pairs w f [origin]),
                drows @ map (\<lambda>(a, b). destination_stop reverse a b) (matched_pairs w f [origin]), t1)"
    and n1: "Solve \<notin> set tr \<longrightarrow> Solve \<notin> set t1"
    by blast
  from Cons.IH[OF d1 s2[unfolded e1]] obtain d2 t2 where d2: "dests_ok w f d2"
    and e2: "st' = (d2, (icur @ map (\<lambda>(a, b). origin_stop reverse a) (matched_pairs w f [origin]))
                     @ map (\<lambda>(a, b). origin_stop reverse a) (matched_pairs w f rest),
                  (drows @ map (\<lambda>(a, b). destination_stop reverse a b) (matched_pairs w f [origin]))
                     @ map (\<lambda>(a, b). destination_stop reverse a b) (matched_pairs w f rest), t2)"
    and n2: "Solve \<notin> set t1 \<longrightarrow> Solve \<notin> set t2"
    by blast
  show ?case using d2 e2 n1 n2 by (simp add: matched_pairs_Cons[of w f origin rest])
qed

lemma insert_origins_from_empty:
  assumes "insert_origins w layer f reverse os (Map.empty, [], [], tr) = Inr st'"
  shows "\<exists>dests' tr'. st' =
      (dests', map (\<lambda>(a, b). origin_stop reverse a) (matched_pairs w f os),
               map (\<lambda>(a, b). destination_stop reverse a b) (matched_pairs w f os), tr')
      \<and> (Solve \<notin> set tr \<longrightarrow> Solve \<notin> set tr')"
proof -
  have "dests_ok w f Map.empty" by (simp add: dests_ok_def)
  from insert_origins_matched[OF this assms] show ?thesis by auto
qed

lemma insert_origin_returns:
  assumes "\<forall>c. fault w c = None"
  shows "\<exists>st'. insert_origin w layer f reverse origin st = Inr st'"
proof -
  obtain dests icur drows tr where st: "st = (dests, icur, drows, tr)" using prod_cases4 by blast
  show ?thesis using assms unfolding st
    by (auto simp add: insert_origin_def Let_def perform_no_fault split: option.splits list.splits)
qed

lemma insert_origins_returns:
  assumes "\<forall>c. fault w c = None"
  shows "\<exists>st'. insert_origins w layer f reverse os st = Inr st'"
proof (induction os arbitrary: st)
  case Nil
  show ?case by (rule exI[of _ st]) simp
next
  case (Cons origin rest)
  from insert_origin_returns[OF assms, of layer f reverse origin st]
  obtain st1 where s1: "insert_origin w layer f reverse origin st = Inr st1" by blast
  from Cons[of st1] obtain st2 where s2: "insert_origins w layer f reverse rest st1 = Inr st2" by blast
  show ?case by (rule exI[of _ st2]) (simp add: s1 s2)
qed

lemma insert_stops_unfold:
  assumes a: "insert_stops w rt = Inr rt'"
  shows "\<exists>s ofd dfd dests icur drows d5.
      rt_solver rt = Some s
    \<and> insert_origins w (input_destinations_layer rt) (dest_id_field (kwargs rt))
        (reverse_direction (kwargs rt)) (selected_origins rt)
        (Map.empty, [], [],
         performed rt @ [GpTool ''MakeFeatureLayer'' [destinations (kwargs rt), input_destinations_layer rt],
                         ListFields (input_origins_layer rt) (origin_id_field (kwargs rt)),
                         ListFields (input_destinations_layer rt) (dest_id_field (kwargs rt)),
                         AddFields [ofd, dfd]])
       = Inr (dests, icur, drows, d5)
    \<and> rt' = rt\<lparr>rt_solver := Some (s\<lparr>added_fields := added_fields s @ [ofd, dfd],
                                     stops_table := stops_table s @ icur @ drows\<rparr>),
                performed := d5\<rparr>"
proof -
  let ?c1 = "GpTool ''MakeFeatureLayer'' [destinations (kwargs rt), input_destinations_layer rt]"
  let ?c2 = "ListFields (input_origins_layer rt) (origin_id_field (kwargs rt))"
  let ?c3 = "ListFields (input_destinations_layer rt) (dest_id_field (kwargs rt))"
  obtain d1 where p1: "perform w ?c1 (performed rt) = Inr d1"
    using a by (cases "perform w ?c1 (performed rt)") (simp_all add: insert_stops_def)
  obtain d2 where p2: "perform w ?c2 d1 = Inr d2"
    using a p1 by (cases "perform w ?c2 d1") (simp_all add: insert_stops_def)
  obtain oif ofs where o: "origin_id_fields w = oif # ofs"
    using a p1 p2 by (cases "origin_id_fields w") (simp_all add: insert_stops_def)
  obtain ofd where fo: "field_def (origin_unique_id_field_name rt) oif = Inr ofd"
    using a p1 p2 o by (cases "field_def (origin_unique_id_field_name rt) oif") (simp_all add: insert_stops_def)
  obtain d3 where p3: "perform w ?c3 d2 = Inr d3"
    using a p1 p2 o fo by (cases "perform w ?c3 d2") (simp_all add: insert_stops_def)
  obtain dif dfs where d: "dest_id_fields w = dif # dfs"
    using a p1 p2 o fo p3 by (cases "dest_id_fields w") (simp_all add: insert_stops_def)
  obtain dfd where fd: "field_def (dest_unique_id_field_name rt) dif = Inr dfd"
    using a p1 p2 o fo p3 d by (cases "field_def (dest_unique_id_field_name rt) dif") (simp_all add: insert_stops_def)
  obtain s where s: "rt_solver rt = Some s"
    using a p1 p2 o fo p3 d fd by (cases "rt_solver rt") (simp_all add: insert_stops_def)
  obtain d4 where p4: "perform w (AddFields [ofd, dfd]) d3 = Inr d4"
    using a p1 p2 o fo p3 d fd s by (cases "perform w (AddFields [ofd, dfd]) d3") (simp_all add: insert_stops_def)
  let ?io = "insert_origins w (input_destinations_layer rt) (dest_id_field (kwargs rt))
        (reverse_direction (kwargs rt)) (selected_origins rt) (Map.empty, [], [], d4)"
  obtain st' where io: "?io = Inr st'"
    using a p1 p2 o fo p3 d fd s p4 by (cases ?io) (simp_all add: insert_stops_def)
  obtain dests icur drows d5 where st': "st' = (dests, icur, drows, d5)" using prod_cases4 by blast
  have rt': "rt' = rt\<lparr>rt_solver := Some (s\<lparr>added_fields := added_fields s @ [ofd, dfd],
                                     stops_table := stops_table s @ icur @ drows\<rparr>),
                performed := d5\<rparr>"
    using a p1 p2 o fo p3 d fd s p4 io st' by (simp add: insert_stops_def)
  have d4: "d4 = performed rt @ [?c1, ?c2, ?c3, AddFields [ofd, dfd]]"
    using perform_Inr[OF p1] perform_Inr[OF p2] perform_Inr[OF p3] perform_Inr[OF p4] by simp
  from s io[unfolded st' d4] rt' show ?thesis by blast
qed

lemma insert_stops_Inr:
  assumes "insert_stops w rt = Inr rt'"
  shows "\<exists>s s'. rt_solver rt = Some s \<and> rt_solver rt' = Some s'
           \<and> stops_table s' = stops_table s
                @ map (\<lambda>(a, b). origin_stop (reverse_direction (kwargs rt)) a)
                    (matched_pairs w (dest_id_field (kwargs rt)) (selected_origins rt))
                @ map (\<lambda>(a, b). destination_stop (reverse_direction (kwargs rt)) a b)
                    (matched_pairs w (dest_id_field (kwargs rt)) (selected_origins rt))
           \<and> properties s' = properties s
           \<and> kwargs rt' = kwargs rt \<and> job_result rt' = job_result rt \<and> job_folder rt' = job_folder rt"
proof -
  from insert_stops_unfold[OF assms] obtain s ofd dfd dests icur drows d5 where
    s: "rt_solver rt = Some s"
    and io: "insert_origins w (input_destinations_layer rt) (dest_id_field (kwargs rt))
               (reverse_direction (kwargs rt)) (selected_origins rt)
               (Map.empty, [], [],
                performed rt @ [GpTool ''MakeFeatureLayer'' [destinations (kwargs rt), input_destinations_layer rt],
                                ListFields (input_origins_layer rt) (origin_id_field (kwargs rt)),
                                ListFields (input_destinations_layer rt) (dest_id_field (kwargs rt)),
                                AddFields [ofd, dfd]])
             = Inr (dests, icur, drows, d5)"
    and rt': "rt' = rt\<lparr>rt_solver := Some (s\<lparr>added_fields := added_fields s @ [ofd, dfd],
                                          stops_table := stops_table s @ icur @ drows\<rparr>),
                     performed := d5\<rparr>"
    by blast
  from insert_origins_from_empty[OF io]
  have "icur = map (\<lambda>(a, b). origin_stop (reverse_direction (kwargs rt)) a)
                    (matched_pairs w (dest_id_field (kwargs rt)) (selected_origins rt))"
    and "drows = map (\<lambda>(a, b). destination_stop (reverse_direction (kwargs rt)) a b)
                    (matched_pairs w (dest_id_field (kwargs rt)) (selected_origins rt))"
    by auto
  with s rt' show ?thesis by simp
qed

lemma insert_stops_returns:
  assumes "\<forall>c. fault w c = None"
    and "\<exists>f fs t. origin_id_fields w = f # fs \<and> map_of field_types (f_type f) = Some t"
    and "\<exists>f fs t. dest_id_fields w = f # fs \<and> map_of field_types (f_type f) = Some t"
    and "\<exists>s. rt_solver rt = Some s"
  shows "\<exists>rt'. insert_stops w rt = Inr rt'"
proof -
  from assms(2) obtain f fs t where o: "origin_id_fields w = f # fs" "map_of field_types (f_type f) = Some t" by blast
  from assms(3) obtain g gs u where d: "dest_id_fields w = g # gs" "map_of field_types (f_type g) = Some u" by blast
  from assms(4) obtain s where s: "rt_solver rt = Some s" by blast
  define d4 where "d4 = performed rt @ [GpTool ''MakeFeatureLayer'' [destinations (kwargs rt), input_destinations_layer rt],
       ListFields (input_origins_layer rt) (origin_id_field (kwargs rt)),
       ListFields (input_destinations_layer rt) (dest_id_field (kwargs rt)),
       AddFields [[VStr (origin_unique_id_field_name rt), VStr t]
               @ (if f_type f = ''String''
                  then [VStr (origin_unique_id_field_name rt), VInt (f_length f)] else []),
           [VStr (dest_unique_id_field_name rt), VStr u]
               @ (if f_type g = ''String''
                  then [VStr (dest_unique_id_field_name rt), VInt (f_length g)] else [])]]"
  from insert_origins_returns[OF assms(1), of "input_destinations_layer rt" "dest_id_field (kwargs rt)"
         "reverse_direction (kwargs rt)" "selected_origins rt" "(Map.empty, [], [], d4)"]
  obtain st' where io: "insert_origins w (input_destinations_layer rt) (dest_id_field (kwargs rt))
           (reverse_direction (kwargs rt)) (selected_origins rt) (Map.empty, [], [], d4) = Inr st'" by blast
  show ?thesis using assms(1) o d s io unfolding insert_stops_def d4_def
    by (cases st') (simp add: perform_def field_def_def split: prod.splits)
qed

lemma insert_stops_frame:
  assumes "insert_stops w rt = Inr rt'"
  shows "selected_origins rt' = selected_origins rt \<and> solve_result rt' = solve_result rt
         \<and> job_result rt' = job_result rt \<and> kwargs rt' = kwargs rt \<and> job_folder rt' = job_folder rt
         \<and> (Solve \<notin> set (performed rt) \<longrightarrow> Solve \<notin> set (performed rt'))"
proof -
  from insert_stops_unfold[OF assms] obtain s ofd dfd dests icur drows d5 where
    io: "insert_origins w (input_destinations_layer rt) (dest_id_field (kwargs rt))
               (reverse_direction (kwargs rt)) (selected_origins rt)
               (Map.empty, [], [],
                performed rt @ [GpTool ''MakeFeatureLayer'' [destinations (kwargs rt), input_destinations_layer rt],
                                ListFields (input_origins_layer rt) (origin_id_field (kwargs rt)),
                                ListFields (input_destinations_layer rt) (dest_id_field (kwargs rt)),
                                AddFields [ofd, dfd]])
             = Inr (dests, icur, drows, d5)"
    and rt': "rt' = rt\<lparr>rt_solver := Some (s\<lparr>added_fields := added_fields s @ [ofd, dfd],
                                          stops_table := stops_table s @ icur @ drows\<rparr>),
                     performed := d5\<rparr>"
    by blast
  from insert_origins_from_empty[OF io] have "Solve \<notin> set (performed rt) \<longrightarrow> Solve \<notin> set d5" by auto
  with rt' show ?thesis by simp
qed

text \<open>
  Claim C8. When \<open>_insert_stops\<close> completes it has appended to Stops, for the \<open>n\<close> matched
  origin/destination pairs in order (an origin with an assigned destination id for which
  the search cursor yields a row, and the first row it yields), first the \<open>n\<close> origin rows
  and then the \<open>n\<close> destination rows: the row of the \<open>i\<close>-th origin stands at position \<open>i\<close>, before the row of
  its destination at position \<open>n + i\<close>; both carry the same RouteName; the Sequence values
  are 1 for the origin and 2 for the destination when \<open>reverse_direction\<close> is false, and 2
  and 1 when it is true. It completes whenever no outside call fails, both id fields exist
  with a supported type and the solver object exists.
\<close>

theorem origin_stop_precedes_destination_stop:
  "(\<forall>rt'. insert_stops w rt = Inr rt' \<longrightarrow>
      (\<exists>s s' new. rt_solver rt = Some s \<and> rt_solver rt' = Some s'
         \<and> stops_table s' = stops_table s @ new
         \<and> length new = 2 * length (matched_pairs w (dest_id_field (kwargs rt)) (selected_origins rt))
         \<and> (\<forall>i < length (matched_pairs w (dest_id_field (kwargs rt)) (selected_origins rt)).
               i < length (matched_pairs w (dest_id_field (kwargs rt)) (selected_origins rt)) + i
             \<and> OriginUniqueID (new ! i) = o_id (fst (matched_pairs w (dest_id_field (kwargs rt)) (selected_origins rt) ! i))
             \<and> SHAPE (new ! i) = o_shape (fst (matched_pairs w (dest_id_field (kwargs rt)) (selected_origins rt) ! i))
             \<and> DestinationUniqueID (new ! i) = VNone
             \<and> DestinationUniqueID (new ! (length (matched_pairs w (dest_id_field (kwargs rt)) (selected_origins rt)) + i))
                   = d_id (snd (matched_pairs w (dest_id_field (kwargs rt)) (selected_origins rt) ! i))
             \<and> SHAPE (new ! (length (matched_pairs w (dest_id_field (kwargs rt)) (selected_origins rt)) + i))
                   = d_shape (snd (matched_pairs w (dest_id_field (kwargs rt)) (selected_origins rt) ! i))
             \<and> OriginUniqueID (new ! (length (matched_pairs w (dest_id_field (kwargs rt)) (selected_origins rt)) + i)) = VNone
             \<and> RouteName (new ! i)
                   = RouteName (new ! (length (matched_pairs w (dest_id_field (kwargs rt)) (selected_origins rt)) + i))
             \<and> Sequence (new ! i) = (if reverse_direction (kwargs rt) then 2 else 1)
             \<and> Sequence (new ! (length (matched_pairs w (dest_id_field (kwargs rt)) (selected_origins rt)) + i))
                   = (if reverse_direction (kwargs rt) then 1 else 2))))
   \<and> ((\<forall>c. fault w c = None)
        \<and> (\<exists>f fs t. origin_id_fields w = f # fs \<and> map_of field_types (f_type f) = Some t)
        \<and> (\<exists>f fs t. dest_id_fields w = f # fs \<and> map_of field_types (f_type f) = Some t)
        \<and> (\<exists>s. rt_solver rt = Some s)
      \<longrightarrow> (\<exists>rt'. insert_stops w rt = Inr rt'))"
proof (intro conjI allI impI)
  fix rt' assume a: "insert_stops w rt = Inr rt'"
  define ps where "ps = matched_pairs w (dest_id_field (kwargs rt)) (selected_origins rt)"
  define r where "r = reverse_direction (kwargs rt)"
  define new where "new = map (\<lambda>(a, b). origin_stop r a) ps @ map (\<lambda>(a, b). destination_stop r a b) ps"
  from insert_stops_Inr[OF a] obtain s s' where s: "rt_solver rt = Some s" and s': "rt_solver rt' = Some s'"
    and st: "stops_table s' = stops_table s @ new"
    unfolding new_def ps_def r_def by auto
  have len: "length new = 2 * length ps" by (simp add: new_def)
  have o: "new ! i = origin_stop r (fst (ps ! i))" if "i < length ps" for i
    using that by (simp add: new_def nth_append case_prod_beta)
  have d: "new ! (length ps + i) = destination_stop r (fst (ps ! i)) (snd (ps ! i))" if "i < length ps" for i
    using that by (simp add: new_def nth_append case_prod_beta)
  have each: "i < length ps + i
             \<and> OriginUniqueID (new ! i) = o_id (fst (ps ! i))
             \<and> SHAPE (new ! i) = o_shape (fst (ps ! i))
             \<and> DestinationUniqueID (new ! i) = VNone
             \<and> DestinationUniqueID (new ! (length ps + i)) = d_id (snd (ps ! i))
             \<and> SHAPE (new ! (length ps + i)) = d_shape (snd (ps ! i))
             \<and> OriginUniqueID (new ! (length ps + i)) = VNone
             \<and> RouteName (new ! i) = RouteName (new ! (length ps + i))
             \<and> Sequence (new ! i) = (if r then 2 else 1)
             \<and> Sequence (new ! (length ps + i)) = (if r then 1 else 2)" if "i < length ps" for i
    using that o[OF that] d[OF that] by (auto simp add: origin_stop_def destination_stop_def)
  from s s' st len each
  show "\<exists>s s' new. rt_solver rt = Some s \<and> rt_solver rt' = Some s'
         \<and> stops_table s' = stops_table s @ new
         \<and> length new = 2 * length (matched_pairs w (dest_id_field (kwargs rt)) (selected_origins rt))
         \<and> (\<forall>i < length (matched_pairs w (dest_id_field (kwargs rt)) (selected_origins rt)).
               i < length (matched_pairs w (dest_id_field (kwargs rt)) (selected_origins rt)) + i
             \<and> OriginUniqueID (new ! i) = o_id (fst (matched_pairs w (dest_id_field (kwargs rt)) (selected_origins rt) ! i))
             \<and> SHAPE (new ! i) = o_shape (fst (matched_pairs w (dest_id_field (kwargs rt)) (selected_origins rt) ! i))
             \<and> DestinationUniqueID (new ! i) = VNone
             \<and> DestinationUniqueID (new ! (length (matched_pairs w (dest_id_field (kwargs rt)) (selected_origins rt)) + i))
                   = d_id (snd (matched_pairs w (dest_id_field (kwargs rt)) (selected_origins rt) ! i))
             \<and> SHAPE (new ! (length (matched_pairs w (dest_id_field (kwargs rt)) (selected_origins rt)) + i))
                   = d_shape (snd (matched_pairs w (dest_id_field (kwargs rt)) (selected_origins rt) ! i))
             \<and> OriginUniqueID (new ! (length (matched_pairs w (dest_id_field (kwargs rt)) (selected_origins rt)) + i)) = VNone
             \<and> RouteName (new ! i)
                   = RouteName (new ! (length (matched_pairs w (dest_id_field (kwargs rt)) (selected_origins rt)) + i))
             \<and> Sequence (new ! i) = (if reverse_direction (kwargs rt) then 2 else 1)
             \<and> Sequence (new ! (length (matched_pairs w (dest_id_field (kwargs rt)) (selected_origins rt)) + i))
                   = (if reverse_direction (kwargs rt) then 1 else 2))"
    unfolding ps_def r_def by blast
next
  assume "(\<forall>c. fault w c = None)
        \<and> (\<exists>f fs t. origin_id_fields w = f # fs \<and> map_of field_types (f_type f) = Some t)
        \<and> (\<exists>f fs t. dest_id_fields w = f # fs \<and> map_of field_types (f_type f) = Some t)
        \<and> (\<exists>s. rt_solver rt = Some s)"
  then show "\<exists>rt'. insert_stops w rt = Inr rt'"
    using insert_stops_returns[of w rt] by blast
qed

lemma ex_prepared_facts:
  "\<exists>rt s. ex_prepared ''a1'' (1, 50) = Inr rt \<and> rt_solver rt = Some s \<and> stops_table s = []
      \<and> selected_origins rt = ex_origins \<and> \<not> reverse_direction (kwargs rt)
      \<and> dest_id_field (kwargs rt) = ''NAME''"
  by (simp add: ex_prepared_def Route_init_def select_inputs_def initialize_rt_solver_def ex_world_def ex_inputs_def
        ex_origins_def Let_def perform_def make_nds_layer_def is_nds_service_def py_setattr_def
        os_path_basename_def is_sep_def os_sep_def os_altsep_def set_config_props_tables)

lemma ex_matched_pairs:
  "matched_pairs (ex_world ''a1'') ''NAME'' ex_origins =
     [(\<lparr>o_oid = 1, o_shape = VGeom ''p1'', o_id = VInt 10, o_assigned_dest = VStr ''A'', o_transfer = []\<rparr>,
       \<lparr>d_shape = VGeom ''q1'', d_id = VStr ''A'', d_transfer = []\<rparr>),
      (\<lparr>o_oid = 3, o_shape = VGeom ''p3'', o_id = VInt 12, o_assigned_dest = VStr ''A'', o_transfer = []\<rparr>,
       \<lparr>d_shape = VGeom ''q1'', d_id = VStr ''A'', d_transfer = []\<rparr>)]"
  by (simp add: matched_pairs_def ex_origins_def ex_destinations_def ex_world_def
        ex_destinations_where_def dest_where_clause_def apostrophe_def List.map_filter_simps)

theorem origin_stop_precedes_destination_stop_witness:
  "\<exists>rt rt' s'. ex_prepared ''a1'' (1, 50) = Inr rt \<and> insert_stops (ex_world ''a1'') rt = Inr rt'
      \<and> rt_solver rt' = Some s' \<and> length (stops_table s') = 4
      \<and> map Sequence (stops_table s') = [1, 1, 2, 2]
      \<and> map OriginUniqueID (stops_table s') = [VInt 10, VInt 12, VNone, VNone]
      \<and> map DestinationUniqueID (stops_table s') = [VNone, VNone, VStr ''A'', VStr ''A'']
      \<and> RouteName (stops_table s' ! 0) = RouteName (stops_table s' ! 2)
      \<and> RouteName (stops_table s' ! 1) = RouteName (stops_table s' ! 3)"
proof -
  from ex_prepared_facts obtain rt s where rt: "ex_prepared ''a1'' (1, 50) = Inr rt"
    and s: "rt_solver rt = Some s" and e: "stops_table s = []"
    and so: "selected_origins rt = ex_origins" and nr: "\<not> reverse_direction (kwargs rt)"
    and dt: "dest_id_field (kwargs rt) = ''NAME''"
    by blast
  note t = origin_stop_precedes_destination_stop [of "ex_world ''a1''" rt]
  have "\<exists>rt'. insert_stops (ex_world ''a1'') rt = Inr rt'"
    using t[THEN conjunct2] s by (simp add: ex_world_def field_types_def)
  then obtain rt' where rt': "insert_stops (ex_world ''a1'') rt = Inr rt'" by blast
  from t[THEN conjunct1, rule_format, OF rt'] s e obtain s' new where s': "rt_solver rt' = Some s'"
    and st: "stops_table s' = new" and len: "length new = 4"
    and each: "\<And>i. i < 2 \<Longrightarrow>
               OriginUniqueID (new ! i) = o_id (fst (matched_pairs (ex_world ''a1'') ''NAME'' ex_origins ! i))
             \<and> DestinationUniqueID (new ! i) = VNone
             \<and> DestinationUniqueID (new ! (2 + i)) = d_id (snd (matched_pairs (ex_world ''a1'') ''NAME'' ex_origins ! i))
             \<and> OriginUniqueID (new ! (2 + i)) = VNone
             \<and> RouteName (new ! i) = RouteName (new ! (2 + i))
             \<and> Sequence (new ! i) = 1
             \<and> Sequence (new ! (2 + i)) = 2"
    unfolding so dt ex_matched_pairs using nr by auto
  from len obtain a b c d where new: "new = [a, b, c, d]"
    by (auto simp: length_Suc_conv numeral_eq_Suc)
  from each[of 0] each[of 1] new
  have "map Sequence new = [1, 1, 2, 2]"
    and "map OriginUniqueID new = [VInt 10, VInt 12, VNone, VNone]"
    and "map DestinationUniqueID new = [VNone, VNone, VStr ''A'', VStr ''A'']"
    and "RouteName (new ! 0) = RouteName (new ! 2)" and "RouteName (new ! 1) = RouteName (new ! 3)"
    by (simp_all add: ex_matched_pairs)
  with rt rt' s' st len show ?thesis by auto
qed

section \<open>Properties of a job whose origins have no destination\<close>

lemma Route_init_Inr:
  assumes "Route_init w inputs = Inr rt"
  shows "rt_solver rt = None \<and> solve_result rt = None \<and> selected_origins rt = []
         \<and> Solve \<notin> set (performed rt)
         \<and> job_id rt = uuid4_hex w
         \<and> job_folder rt = os_path_join (scratch_folder inputs) (uuid4_hex w)
         \<and> job_result rt = \<lparr>jobId = uuid4_hex w, jobFolder = os_path_join (scratch_folder inputs) (uuid4_hex w),
               solveSucceeded = False, solveMessages = [], outputRoutes = [],
               logFile = os_path_join (os_path_join (scratch_folder inputs) (uuid4_hex w)) ''RoutePairs.log''\<rparr>
         \<and> is_service rt = is_nds_service (network_data_source inputs)
         \<and> (\<exists>n. kwargs rt = inputs\<lparr>network_data_source := n\<rparr>)"
  using assms unfolding Route_init_def make_nds_layer_def
  by (auto simp: Let_def dest!: perform_Inr split: sum.splits nds.splits if_splits
        intro: exI[of _ "network_data_source inputs"])

lemma Route_init_returns:
  assumes "\<forall>c. fault w c = None" and "\<exists>s. network_data_source inputs = NdsStr s"
  shows "\<exists>rt. Route_init w inputs = Inr rt"
  using assms unfolding Route_init_def make_nds_layer_def
  by (auto simp: Let_def perform_no_fault split: sum.splits nds.splits if_splits)

lemma select_inputs_Inr:
  assumes "select_inputs w rt chunk = Inr rt'"
  shows "selected_origins rt' = filter (\<lambda>r. fst chunk \<le> o_oid r \<and> o_oid r \<le> snd chunk) (origins_table w)
         \<and> rt_solver rt' = rt_solver rt \<and> solve_result rt' = solve_result rt
         \<and> job_result rt' = job_result rt \<and> kwargs rt' = kwargs rt \<and> is_service rt' = is_service rt
         \<and> job_folder rt' = job_folder rt
         \<and> (Solve \<notin> set (performed rt) \<longrightarrow> Solve \<notin> set (performed rt'))"
  using assms unfolding select_inputs_def
  by (auto simp: Let_def dest!: perform_Inr split: sum.splits)

lemma select_inputs_returns:
  assumes "\<forall>c. fault w c = None"
  shows "\<exists>rt'. select_inputs w rt chunk = Inr rt'"
  using assms unfolding select_inputs_def by (simp add: Let_def perform_no_fault)

lemma initialize_rt_solver_frame:
  assumes "initialize_rt_solver w cfg rt = Inr rt'"
  shows "selected_origins rt' = selected_origins rt \<and> solve_result rt' = solve_result rt
         \<and> job_result rt' = job_result rt \<and> kwargs rt' = kwargs rt \<and> job_folder rt' = job_folder rt
         \<and> (\<exists>s. rt_solver rt' = Some s \<and> stops_table s = [])
         \<and> (Solve \<notin> set (performed rt) \<longrightarrow> Solve \<notin> set (performed rt'))"
  using assms unfolding initialize_rt_solver_def
  by (auto simp: Let_def py_setattr_def set_config_props_tables dest!: perform_Inr
        split: sum.splits option.splits if_splits)

lemma matched_pairs_origins:
  "map fst (matched_pairs w f os) =
     filter (\<lambda>origin. o_assigned_dest origin \<noteq> VNone
                \<and> destinations_where w (dest_where_clause f (o_assigned_dest origin)) \<noteq> []) os"
proof (induction os)
  case Nil
  then show ?case by (simp add: matched_pairs_def List.map_filter_simps)
next
  case (Cons origin rest)
  have "map fst (matched_pairs w f [origin]) =
          filter (\<lambda>origin. o_assigned_dest origin \<noteq> VNone
                \<and> destinations_where w (dest_where_clause f (o_assigned_dest origin)) \<noteq> []) [origin]"
    by (simp add: matched_pairs_single split: list.splits)
  with Cons show ?case by (simp add: matched_pairs_Cons[of w f origin rest])
qed

lemma matched_pairs_none:
  assumes "\<forall>origin \<in> set os. o_assigned_dest origin = VNone
             \<or> destinations_where w (dest_where_clause f (o_assigned_dest origin)) = []"
  shows "matched_pairs w f os = []"
proof -
  have "map fst (matched_pairs w f os) = []"
    unfolding matched_pairs_origins using assms by (auto simp: filter_empty_conv)
  then show ?thesis by simp
qed

text \<open>
  Where the search cursor yields no row for any origin of the chunk, the job does what
  its comment says (``The origin's destination is not present in the destinations table.
  Just skip the origin.''): it returns without stops, without calling the solver and with
  \<open>solveSucceeded = False\<close>.
\<close>

lemma unmatched_chunk_job:
  assumes nf: "\<forall>c. fault w c = None"
    and nds: "\<exists>s. network_data_source inputs = NdsStr s"
    and sa: "setattr_fault w ''travelMode'' (travel_mode inputs) = None"
            "setattr_fault w ''timeUnits'' (time_units inputs) = None"
            "setattr_fault w ''distanceUnits'' (distance_units inputs) = None"
            "setattr_fault w ''timeOfDay'' (time_of_day inputs) = None"
    and oif: "\<exists>f fs t. origin_id_fields w = f # fs \<and> map_of field_types (f_type f) = Some t"
    and dif: "\<exists>f fs t. dest_id_fields w = f # fs \<and> map_of field_types (f_type f) = Some t"
    and un: "\<forall>origin \<in> set (origins_table w). fst chunk \<le> o_oid origin \<and> o_oid origin \<le> snd chunk \<longrightarrow>
               o_assigned_dest origin = VNone
               \<or> destinations_where w (dest_where_clause (dest_id_field inputs) (o_assigned_dest origin)) = []"
  shows "\<exists>rt s. run_job w cfg inputs chunk = Inr rt \<and> rt_solver rt = Some s \<and> stops_table s = []
           \<and> solve_result rt = None \<and> Solve \<notin> set (performed rt)
           \<and> \<not> solveSucceeded (job_result rt) \<and> solveMessages (job_result rt) = []
           \<and> solve_route w cfg inputs chunk = Inr (job_result rt)"
proof -
  from Route_init_returns[OF nf nds] obtain rt0 where r0: "Route_init w inputs = Inr rt0" by blast
  note f0 = Route_init_Inr[OF r0]
  from f0 obtain n where kw0: "kwargs rt0 = inputs\<lparr>network_data_source := n\<rparr>" by blast
  from select_inputs_returns[OF nf, of rt0 chunk] obtain rt1 where r1: "select_inputs w rt0 chunk = Inr rt1" by blast
  note f1 = select_inputs_Inr[OF r1]
  have kw1: "kwargs rt1 = inputs\<lparr>network_data_source := n\<rparr>" using f1 kw0 by simp
  have "\<exists>rt2. initialize_rt_solver w cfg rt1 = Inr rt2"
    using initialize_rt_solver_returns[of rt1 w cfg] nf sa kw1 by simp
  then obtain rt2 where r2: "initialize_rt_solver w cfg rt1 = Inr rt2" by blast
  note f2 = initialize_rt_solver_frame[OF r2]
  from f2 obtain s2 where s2: "rt_solver rt2 = Some s2" "stops_table s2 = []" by blast
  have "\<exists>rt3. insert_stops w rt2 = Inr rt3"
    using insert_stops_returns[OF nf oif dif, of rt2] s2 by blast
  then obtain rt3 where r3: "insert_stops w rt2 = Inr rt3" by blast
  note f3 = insert_stops_frame[OF r3]
  have sel: "selected_origins rt2 = filter (\<lambda>r. fst chunk \<le> o_oid r \<and> o_oid r \<le> snd chunk) (origins_table w)"
    using f1 f2 by simp
  have df: "dest_id_field (kwargs rt2) = dest_id_field inputs" using f2 kw1 by simp
  have mp: "matched_pairs w (dest_id_field (kwargs rt2)) (selected_origins rt2) = []"
    unfolding sel df by (rule matched_pairs_none) (use un in auto)
  from insert_stops_Inr[OF r3] s2 mp obtain s3 where s3: "rt_solver rt3 = Some s3" "stops_table s3 = []"
    by auto
  have sv: "solve w cfg rt0 chunk = Inr rt3"
    using r1 r2 r3 s3 by (simp add: solve_def)
  have rj: "run_job w cfg inputs chunk = Inr rt3" using r0 sv by (simp add: run_job_def)
  have sr: "solve_route w cfg inputs chunk = Inr (job_result rt3)" using rj by (simp add: solve_route_def)
  have "solve_result rt3 = None" using f0 f1 f2 f3 by simp
  moreover have "Solve \<notin> set (performed rt3)" using f0 f1 f2 f3 by simp
  moreover have "job_result rt3 = job_result rt0" using f1 f2 f3 by simp
  then have "\<not> solveSucceeded (job_result rt3)" "solveMessages (job_result rt3) = []" using f0 by simp_all
  ultimately show ?thesis using rj sr s3 by blast
qed

lemma ex_tautology_steps:
  "(case run_job ex_world_tautology_id ex_config ex_inputs (1, 1) of
      Inl e \<Rightarrow> False
    | Inr rt \<Rightarrow>
        (case rt_solver rt of
           None \<Rightarrow> False
         | Some s \<Rightarrow>
             map OriginUniqueID (stops_table s) = [VInt 10, VNone]
           \<and> map DestinationUniqueID (stops_table s) = [VNone, VStr ''A'']
           \<and> map Sequence (stops_table s) = [1, 2]
           \<and> map RouteName (stops_table s) = [''10 - '' @ ex_tautology_id, ''10 - '' @ ex_tautology_id]
           \<and> Solve \<in> set (performed rt)
           \<and> solveSucceeded (job_result rt)))"
  by code_simp

text \<open>
  Claim C6 says that an origin whose assigned destination id is absent from the
  destination input is skipped without error, and that a chunk of such origins gives no
  stops, no solve and \<open>solveSucceeded = False\<close>. The loop's comment says the same, but the id
  is written unescaped into the where clause, so for an absent id with an apostrophe the
  query is not a test for that id. The chunk whose origin is assigned to
  \<open>x' OR '1'='1\<close>, an id no destination has, gets the row of destination \<open>A\<close>: two stops
  are inserted under the route name \<open>10 - x' OR '1'='1\<close>, the solver is called and the job
  result has \<open>solveSucceeded = True\<close>. The chunk whose origin is assigned to \<open>O'Hare\<close>,
  absent as well, raises the cursor's \<open>RuntimeError\<close> out of \<open>solve_route\<close>.
\<close>

theorem apostrophe_in_destination_id_is_not_skipped:
  "VStr ex_tautology_id \<notin> set (map d_id (destinations_table ex_world_tautology_id))
   \<and> dest_where_clause (dest_id_field ex_inputs) (VStr ex_tautology_id)
        = ''NAME = '' @ [apostrophe] @ ex_tautology_id @ [apostrophe]
   \<and> (\<exists>rt s. run_job ex_world_tautology_id ex_config ex_inputs (1, 1) = Inr rt
          \<and> rt_solver rt = Some s
          \<and> map OriginUniqueID (stops_table s) = [VInt 10, VNone]
          \<and> map DestinationUniqueID (stops_table s) = [VNone, VStr ''A'']
          \<and> map Sequence (stops_table s) = [1, 2]
          \<and> map RouteName (stops_table s) = [''10 - '' @ ex_tautology_id, ''10 - '' @ ex_tautology_id]
          \<and> Solve \<in> set (performed rt)
          \<and> solveSucceeded (job_result rt))
   \<and> solve_route ex_world_tautology_id ex_config ex_inputs (1, 1) = Inr (ex_solved ''a1'' (1, 1))
   \<and> VStr ex_apostrophe_id \<notin> set (map d_id (destinations_table ex_world_apostrophe_id))
   \<and> solve_route ex_world_apostrophe_id ex_config ex_inputs (1, 1) = Inl (External ''RuntimeError'')"
proof -
  have a: "VStr ex_tautology_id \<notin> set (map d_id (destinations_table ex_world_tautology_id))"
    by code_simp
  have b: "dest_where_clause (dest_id_field ex_inputs) (VStr ex_tautology_id)
        = ''NAME = '' @ [apostrophe] @ ex_tautology_id @ [apostrophe]"
    by code_simp
  have c: "\<exists>rt s. run_job ex_world_tautology_id ex_config ex_inputs (1, 1) = Inr rt
          \<and> rt_solver rt = Some s
          \<and> map OriginUniqueID (stops_table s) = [VInt 10, VNone]
          \<and> map DestinationUniqueID (stops_table s) = [VNone, VStr ''A'']
          \<and> map Sequence (stops_table s) = [1, 2]
          \<and> map RouteName (stops_table s) = [''10 - '' @ ex_tautology_id, ''10 - '' @ ex_tautology_id]
          \<and> Solve \<in> set (performed rt)
          \<and> solveSucceeded (job_result rt)"
    using ex_tautology_steps by (simp split: sum.splits option.splits)
  have d: "solve_route ex_world_tautology_id ex_config ex_inputs (1, 1) = Inr (ex_solved ''a1'' (1, 1))"
    by code_simp
  have e: "VStr ex_apostrophe_id \<notin> set (map d_id (destinations_table ex_world_apostrophe_id))"
    by code_simp
  have f: "solve_route ex_world_apostrophe_id ex_config ex_inputs (1, 1) = Inl (External ''RuntimeError'')"
    by code_simp
  from a b c d e f show ?thesis by blast
qed

section \<open>Properties of a job that meets an error\<close>

text \<open>
  Claim C5 says that an unexpected internal error inside a job's solve attempt comes back
  as a job result with \<open>solveSucceeded = False\<close>. It does not: when the geoprocessing tool
  fails to make the destinations layer, or when the origin id field has a type that
  \<open>field_types\<close> does not list, \<open>solve_route\<close> raises and returns no job result.
\<close>

theorem internal_error_is_raised_counterexample:
  "solve_route ex_world_gp_fault ex_config ex_inputs (1, 50) = Inl (External ''ExecuteError'')
   \<and> solve_route ex_world_date_id ex_config ex_inputs (1, 50) = Inl KeyError"
  by code_simp

lemma export_to_feature_class_frame:
  assumes "export_to_feature_class w rt chunk = Inr rt'"
  shows "rt_solver rt' = rt_solver rt \<and> solve_result rt' = solve_result rt
         \<and> solveSucceeded (job_result rt') = solveSucceeded (job_result rt)
         \<and> solveMessages (job_result rt') = solveMessages (job_result rt)
         \<and> outputRoutes (job_result rt') =
             os_path_join (os_path_join (job_folder rt) ''scratch.gdb'')
               (''Routes_'' @ str_int (fst chunk) @ ''_'' @ str_int (snd chunk))"
  using assms unfolding export_to_feature_class_def
  by (auto simp: Let_def split: sum.splits)

lemma solve_steps:
  assumes sv: "solve w cfg rt chunk = Inr rt'"
  obtains rt1 rt2 rt3 s where "select_inputs w rt chunk = Inr rt1"
    and "initialize_rt_solver w cfg rt1 = Inr rt2" and "insert_stops w rt2 = Inr rt3"
    and "rt_solver rt3 = Some s"
proof (cases "select_inputs w rt chunk")
  case (Inl e)
  with sv show ?thesis by (simp add: solve_def)
next
  case r1: (Inr rt1)
  show ?thesis
  proof (cases "initialize_rt_solver w cfg rt1")
    case (Inl e)
    with sv r1 show ?thesis by (simp add: solve_def)
  next
    case r2: (Inr rt2)
    show ?thesis
    proof (cases "insert_stops w rt2")
      case (Inl e)
      with sv r1 r2 show ?thesis by (simp add: solve_def)
    next
      case r3: (Inr rt3)
      show ?thesis
      proof (cases "rt_solver rt3")
        case None
        with sv r1 r2 r3 show ?thesis by (simp add: solve_def)
      next
        case (Some s)
        with r1 r2 r3 that show ?thesis by blast
      qed
    qed
  qed
qed

lemma solve_after_insert:
  assumes "select_inputs w rt chunk = Inr rt1"
    and "initialize_rt_solver w cfg rt1 = Inr rt2" and "insert_stops w rt2 = Inr rt3"
    and "rt_solver rt3 = Some s" and "stops_table s \<noteq> []"
    and "load_barriers w (barriers (kwargs rt3)) (performed rt3) = Inr d1"
    and "perform w Solve d1 = Inr d2"
    and "rt4 = rt3\<lparr>solve_result := Some (solve_succeeded w s, map snd (solver_messages w s)),
                      job_result := (job_result rt3)\<lparr>solveMessages := map snd (solver_messages w s)\<rparr>,
                      performed := d2\<rparr>"
  shows "solve w cfg rt chunk =
           (if \<not> solve_succeeded w s then Inr rt4
            else export_to_feature_class w (rt4\<lparr>job_result := (job_result rt4)\<lparr>solveSucceeded := True\<rparr>\<rparr>) chunk)"
  using assms by (simp add: solve_def Let_def)

lemma solve_Inr:
  assumes sv: "solve w cfg rt chunk = Inr rt'"
    and j0: "\<not> solveSucceeded (job_result rt)" "solveMessages (job_result rt) = []"
  shows "\<exists>s. rt_solver rt' = Some s
           \<and> solveSucceeded (job_result rt') = (stops_table s \<noteq> [] \<and> solve_succeeded w s)
           \<and> solveMessages (job_result rt') = (if stops_table s = [] then [] else map snd (solver_messages w s))"
proof -
  from sv obtain rt1 rt2 rt3 s where r1: "select_inputs w rt chunk = Inr rt1"
    and r2: "initialize_rt_solver w cfg rt1 = Inr rt2" and r3: "insert_stops w rt2 = Inr rt3"
    and s: "rt_solver rt3 = Some s"
    by (rule solve_steps)
  note f1 = select_inputs_Inr[OF r1] and f2 = initialize_rt_solver_frame[OF r2] and f3 = insert_stops_frame[OF r3]
  have j3: "job_result rt3 = job_result rt" using f1 f2 f3 by simp
  show ?thesis
  proof (cases "stops_table s = []")
    case True
    with sv r1 r2 r3 s have "rt' = rt3" by (simp add: solve_def)
    with True s j3 j0 show ?thesis by simp
  next
    case ne: False
    show ?thesis
    proof (cases "load_barriers w (barriers (kwargs rt3)) (performed rt3)")
      case (Inl e)
      with sv r1 r2 r3 s ne show ?thesis by (simp add: solve_def)
    next
      case lb: (Inr d1)
      show ?thesis
      proof (cases "perform w Solve d1")
        case (Inl e)
        with sv r1 r2 r3 s ne lb show ?thesis by (simp add: solve_def)
      next
        case ps: (Inr d2)
        define rt4 where "rt4 = rt3\<lparr>solve_result := Some (solve_succeeded w s, map snd (solver_messages w s)),
                      job_result := (job_result rt3)\<lparr>solveMessages := map snd (solver_messages w s)\<rparr>,
                      performed := d2\<rparr>"
        note u = solve_after_insert[OF r1 r2 r3 s ne lb ps rt4_def]
        have s4: "rt_solver rt4 = Some s" and m4: "solveMessages (job_result rt4) = map snd (solver_messages w s)"
          and g4: "solveSucceeded (job_result rt4) = False"
          using s j3 j0 by (simp_all add: rt4_def)
        show ?thesis
        proof (cases "solve_succeeded w s")
          case False
          with sv u have "rt' = rt4" by simp
          with False ne s4 m4 g4 show ?thesis by simp
        next
          case True
          with sv u have "export_to_feature_class w (rt4\<lparr>job_result := (job_result rt4)\<lparr>solveSucceeded := True\<rparr>\<rparr>) chunk = Inr rt'"
            by simp
          from export_to_feature_class_frame[OF this] True ne s4 m4 show ?thesis by simp
        qed
      qed
    qed
  qed
qed


lemma solve_route_Inr:
  assumes "solve_route w cfg inputs chunk = Inr r"
  shows "\<exists>rt s. run_job w cfg inputs chunk = Inr rt \<and> r = job_result rt \<and> rt_solver rt = Some s
           \<and> solveSucceeded r = (stops_table s \<noteq> [] \<and> solve_succeeded w s)
           \<and> solveMessages r = (if stops_table s = [] then [] else map snd (solver_messages w s))"
proof -
  from assms obtain rt where rj: "run_job w cfg inputs chunk = Inr rt" and r: "r = job_result rt"
    by (auto simp: solve_route_def split: sum.splits)
  from rj obtain rt0 where r0: "Route_init w inputs = Inr rt0" and sv: "solve w cfg rt0 chunk = Inr rt"
    by (auto simp: run_job_def split: sum.splits)
  note f0 = Route_init_Inr[OF r0]
  have "\<not> solveSucceeded (job_result rt0)" "solveMessages (job_result rt0) = []" using f0 by simp_all
  from solve_Inr[OF sv this] rj r show ?thesis by blast
qed

text \<open>
  Claim C5, as amended. Neither \<open>solve_route\<close> nor \<open>Route.solve\<close> catches anything: an
  exception raised while the job is built, its inputs are selected, its solver is
  initialised, its stops are inserted, its barriers are loaded, the solver runs or the
  result is exported is the outcome of \<open>solve_route\<close>. When \<open>solve_route\<close> does return a job
  result, \<open>solveSucceeded\<close> is false exactly when no stop was inserted or the solver reported
  failure, and \<open>solveMessages\<close> holds the solver's messages (none when the solve was
  skipped), never a captured error.
\<close>

theorem internal_error_leaves_solve_route:
  "(Route_init w inputs = Inl e \<longrightarrow> solve_route w cfg inputs chunk = Inl e)
   \<and> (\<forall>rt. Route_init w inputs = Inr rt \<and> select_inputs w rt chunk = Inl e
          \<longrightarrow> solve_route w cfg inputs chunk = Inl e)
   \<and> (\<forall>rt rt1. Route_init w inputs = Inr rt \<and> select_inputs w rt chunk = Inr rt1
          \<and> initialize_rt_solver w cfg rt1 = Inl e
          \<longrightarrow> solve_route w cfg inputs chunk = Inl e)
   \<and> (\<forall>rt rt1 rt2. Route_init w inputs = Inr rt \<and> select_inputs w rt chunk = Inr rt1
          \<and> initialize_rt_solver w cfg rt1 = Inr rt2 \<and> insert_stops w rt2 = Inl e
          \<longrightarrow> solve_route w cfg inputs chunk = Inl e)
   \<and> (\<forall>rt rt1 rt2 rt3 s. Route_init w inputs = Inr rt \<and> select_inputs w rt chunk = Inr rt1
          \<and> initialize_rt_solver w cfg rt1 = Inr rt2 \<and> insert_stops w rt2 = Inr rt3
          \<and> rt_solver rt3 = Some s \<and> stops_table s \<noteq> []
          \<and> load_barriers w (barriers (kwargs rt3)) (performed rt3) = Inl e
          \<longrightarrow> solve_route w cfg inputs chunk = Inl e)
   \<and> (\<forall>rt rt1 rt2 rt3 s d1. Route_init w inputs = Inr rt \<and> select_inputs w rt chunk = Inr rt1
          \<and> initialize_rt_solver w cfg rt1 = Inr rt2 \<and> insert_stops w rt2 = Inr rt3
          \<and> rt_solver rt3 = Some s \<and> stops_table s \<noteq> []
          \<and> load_barriers w (barriers (kwargs rt3)) (performed rt3) = Inr d1 \<and> perform w Solve d1 = Inl e
          \<longrightarrow> solve_route w cfg inputs chunk = Inl e)
   \<and> (\<forall>rt rt1 rt2 rt3 s d1 d2 rt4. Route_init w inputs = Inr rt \<and> select_inputs w rt chunk = Inr rt1
          \<and> initialize_rt_solver w cfg rt1 = Inr rt2 \<and> insert_stops w rt2 = Inr rt3
          \<and> rt_solver rt3 = Some s \<and> stops_table s \<noteq> []
          \<and> load_barriers w (barriers (kwargs rt3)) (performed rt3) = Inr d1 \<and> perform w Solve d1 = Inr d2
          \<and> solve_succeeded w s
          \<and> rt4 = rt3\<lparr>solve_result := Some (solve_succeeded w s, map snd (solver_messages w s)),
                         job_result := (job_result rt3)\<lparr>solveMessages := map snd (solver_messages w s)\<rparr>,
                         performed := d2\<rparr>
          \<and> export_to_feature_class w (rt4\<lparr>job_result := (job_result rt4)\<lparr>solveSucceeded := True\<rparr>\<rparr>) chunk = Inl e
          \<longrightarrow> solve_route w cfg inputs chunk = Inl e)
   \<and> (\<forall>r. solve_route w cfg inputs chunk = Inr r \<longrightarrow>
         (\<exists>rt s. run_job w cfg inputs chunk = Inr rt \<and> r = job_result rt \<and> rt_solver rt = Some s
            \<and> solveSucceeded r = (stops_table s \<noteq> [] \<and> solve_succeeded w s)
            \<and> solveMessages r = (if stops_table s = [] then [] else map snd (solver_messages w s))))"
proof (intro conjI allI impI)
  assume "Route_init w inputs = Inl e"
  then show "solve_route w cfg inputs chunk = Inl e" by (simp add: solve_route_def run_job_def)
next
  fix rt assume "Route_init w inputs = Inr rt \<and> select_inputs w rt chunk = Inl e"
  then show "solve_route w cfg inputs chunk = Inl e" by (simp add: solve_route_def run_job_def solve_def)
next
  fix rt rt1 assume "Route_init w inputs = Inr rt \<and> select_inputs w rt chunk = Inr rt1
          \<and> initialize_rt_solver w cfg rt1 = Inl e"
  then show "solve_route w cfg inputs chunk = Inl e" by (simp add: solve_route_def run_job_def solve_def)
next
  fix rt rt1 rt2 assume "Route_init w inputs = Inr rt \<and> select_inputs w rt chunk = Inr rt1
          \<and> initialize_rt_solver w cfg rt1 = Inr rt2 \<and> insert_stops w rt2 = Inl e"
  then show "solve_route w cfg inputs chunk = Inl e" by (simp add: solve_route_def run_job_def solve_def)
next
  fix rt rt1 rt2 rt3 s assume "Route_init w inputs = Inr rt \<and> select_inputs w rt chunk = Inr rt1
          \<and> initialize_rt_solver w cfg rt1 = Inr rt2 \<and> insert_stops w rt2 = Inr rt3
          \<and> rt_solver rt3 = Some s \<and> stops_table s \<noteq> []
          \<and> load_barriers w (barriers (kwargs rt3)) (performed rt3) = Inl e"
  then show "solve_route w cfg inputs chunk = Inl e" by (simp add: solve_route_def run_job_def solve_def)
next
  fix rt rt1 rt2 rt3 s d1 assume "Route_init w inputs = Inr rt \<and> select_inputs w rt chunk = Inr rt1
          \<and> initialize_rt_solver w cfg rt1 = Inr rt2 \<and> insert_stops w rt2 = Inr rt3
          \<and> rt_solver rt3 = Some s \<and> stops_table s \<noteq> []
          \<and> load_barriers w (barriers (kwargs rt3)) (performed rt3) = Inr d1 \<and> perform w Solve d1 = Inl e"
  then show "solve_route w cfg inputs chunk = Inl e" by (simp add: solve_route_def run_job_def solve_def)
next
  fix rt rt1 rt2 rt3 s d1 d2 rt4
  assume a: "Route_init w inputs = Inr rt \<and> select_inputs w rt chunk = Inr rt1
          \<and> initialize_rt_solver w cfg rt1 = Inr rt2 \<and> insert_stops w rt2 = Inr rt3
          \<and> rt_solver rt3 = Some s \<and> stops_table s \<noteq> []
          \<and> load_barriers w (barriers (kwargs rt3)) (performed rt3) = Inr d1 \<and> perform w Solve d1 = Inr d2
          \<and> solve_succeeded w s
          \<and> rt4 = rt3\<lparr>solve_result := Some (solve_succeeded w s, map snd (solver_messages w s)),
                         job_result := (job_result rt3)\<lparr>solveMessages := map snd (solver_messages w s)\<rparr>,
                         performed := d2\<rparr>
          \<and> export_to_feature_class w (rt4\<lparr>job_result := (job_result rt4)\<lparr>solveSucceeded := True\<rparr>\<rparr>) chunk = Inl e"
  then have "solve w cfg rt chunk =
           (if \<not> solve_succeeded w s then Inr rt4
            else export_to_feature_class w (rt4\<lparr>job_result := (job_result rt4)\<lparr>solveSucceeded := True\<rparr>\<rparr>) chunk)"
    by (intro solve_after_insert) blast+
  moreover from a have "solve_succeeded w s"
    and "export_to_feature_class w (rt4\<lparr>job_result := (job_result rt4)\<lparr>solveSucceeded := True\<rparr>\<rparr>) chunk = Inl e"
    by blast+
  ultimately have "solve w cfg rt chunk = Inl e" by simp
  moreover from a have "Route_init w inputs = Inr rt" by blast
  ultimately show "solve_route w cfg inputs chunk = Inl e" by (simp add: solve_route_def run_job_def)
next
  fix r assume "solve_route w cfg inputs chunk = Inr r"
  then show "\<exists>rt s. run_job w cfg inputs chunk = Inr rt \<and> r = job_result rt \<and> rt_solver rt = Some s
            \<and> solveSucceeded r = (stops_table s \<noteq> [] \<and> solve_succeeded w s)
            \<and> solveMessages r = (if stops_table s = [] then [] else map snd (solver_messages w s))"
    by (rule solve_route_Inr)
qed

lemma ex_gp_fault_steps:
  "(case Route_init ex_world_gp_fault ex_inputs of
      Inl e \<Rightarrow> False
    | Inr rt \<Rightarrow>
        (case select_inputs ex_world_gp_fault rt (1, 50) of
           Inl e \<Rightarrow> False
         | Inr rt1 \<Rightarrow>
             (case initialize_rt_solver ex_world_gp_fault ex_config rt1 of
                Inl e \<Rightarrow> False
              | Inr rt2 \<Rightarrow>
                  (case insert_stops ex_world_gp_fault rt2 of
                     Inl e \<Rightarrow> e = External ''ExecuteError''
                   | Inr rt3 \<Rightarrow> False))))"
  by code_simp

lemma ex_unmatched_result:
  "solve_route (ex_world ''a1'') ex_config ex_inputs (2, 2) =
     Inr \<lparr>jobId = ''a1'', jobFolder = os_path_join ''scratch'' ''a1'', solveSucceeded = False,
          solveMessages = [], outputRoutes = [],
          logFile = os_path_join (os_path_join ''scratch'' ''a1'') ''RoutePairs.log''\<rparr>"
  by code_simp

theorem internal_error_leaves_solve_route_witness:
  "solve_route ex_world_gp_fault ex_config ex_inputs (1, 50) = Inl (External ''ExecuteError'')
   \<and> (\<exists>rt s. run_job (ex_world ''a1'') ex_config ex_inputs (2, 2) = Inr rt \<and> rt_solver rt = Some s
          \<and> stops_table s = [] \<and> \<not> solveSucceeded (job_result rt) \<and> solveMessages (job_result rt) = [])"
proof -
  from ex_gp_fault_steps obtain rt rt1 rt2 where
    "Route_init ex_world_gp_fault ex_inputs = Inr rt \<and> select_inputs ex_world_gp_fault rt (1, 50) = Inr rt1
       \<and> initialize_rt_solver ex_world_gp_fault ex_config rt1 = Inr rt2
       \<and> insert_stops ex_world_gp_fault rt2 = Inl (External ''ExecuteError'')"
    by (auto split: sum.splits)
  then have a: "solve_route ex_world_gp_fault ex_config ex_inputs (1, 50) = Inl (External ''ExecuteError'')"
    using internal_error_leaves_solve_route
            [of ex_world_gp_fault ex_inputs "External ''ExecuteError''" ex_config "(1, 50)",
             THEN conjunct2, THEN conjunct2, THEN conjunct2, THEN conjunct1]
    by blast
  from internal_error_leaves_solve_route
         [of "ex_world ''a1''" ex_inputs e ex_config "(2, 2)",
          THEN conjunct2, THEN conjunct2, THEN conjunct2, THEN conjunct2, THEN conjunct2, THEN conjunct2,
          THEN conjunct2, rule_format, OF ex_unmatched_result]
  obtain rt s where rj: "run_job (ex_world ''a1'') ex_config ex_inputs (2, 2) = Inr rt"
    and jr: "job_result rt = \<lparr>jobId = ''a1'', jobFolder = os_path_join ''scratch'' ''a1'', solveSucceeded = False,
          solveMessages = [], outputRoutes = [],
          logFile = os_path_join (os_path_join ''scratch'' ''a1'') ''RoutePairs.log''\<rparr>"
    and s: "rt_solver rt = Some s"
    and ss: "False = (stops_table s \<noteq> [] \<and> solve_succeeded (ex_world ''a1'') s)"
    by auto
  from ss have "stops_table s = []" by (simp add: ex_world_def)
  with rj jr s a show ?thesis by auto
qed

section \<open>Properties of the parallel run\<close>

lemma log_DEBUG [simp]: "log DEBUG msg lg = lg"
  by (simp add: log_def LOG_LEVEL_def)

lemma log_INFO: "log INFO msg lg = lg @ [(INFO, msg)]"
  by (simp add: log_def LOG_LEVEL_def)

lemma log_WARNING: "log WARNING msg lg = lg @ [(WARNING, msg)]"
  by (simp add: log_def LOG_LEVEL_def)

lemma log_ERROR: "log ERROR msg lg = lg @ [(ERROR, msg)]"
  by (simp add: log_def LOG_LEVEL_def)

lemma log_lines_ERROR: "log_lines ERROR ls lg = lg @ map (Pair ERROR) ls"
  by (induction ls arbitrary: lg) (simp_all add: log_ERROR)


lemma drain_step_returned:
  "drain_completed bw (Inr r # rest) n c =
     drain_completed bw rest (n + 1)
       (c\<lparr>logged := logged c @ [finished_line (total_jobs c) (n + 1)],
          route_fcs := route_fcs c @ (if solveSucceeded r then [outputRoutes r] else [])\<rparr>)"
  by (simp add: Let_def log_INFO finished_line_def)

lemma drain_step_raised:
  "drain_completed bw (Inl e # rest) n c =
     Inl (e, c\<lparr>logged := logged c @ [finished_line (total_jobs c) (n + 1),
                                        (ERROR, ''Failed to get Route result from parallel processing.'')]
                             @ map (Pair ERROR) (format_exc bw e)\<rparr>)"
  by (simp add: Let_def log_INFO log_ERROR log_lines_ERROR finished_line_def)

lemma drain_returned:
  "drain_completed bw (map Inr rs @ rest) n c =
     drain_completed bw rest (n + int (length rs))
       (c\<lparr>logged := logged c @ map (finished_line (total_jobs c)) [n + 1..n + int (length rs)],
          route_fcs := route_fcs c @ map outputRoutes (filter solveSucceeded rs)\<rparr>)"
proof (induction rs arbitrary: n c)
  case Nil
  then show ?case by simp
next
  case (Cons r rs)
  have u: "[n + 1..n + int (length (r # rs))] = (n + 1) # [n + 1 + 1..n + 1 + int (length rs)]"
    by (subst upto_rec1) (simp_all add: add.assoc)
  have "drain_completed bw (map Inr (r # rs) @ rest) n c =
          drain_completed bw (map Inr rs @ rest) (n + 1)
            (c\<lparr>logged := logged c @ [finished_line (total_jobs c) (n + 1)],
               route_fcs := route_fcs c @ (if solveSucceeded r then [outputRoutes r] else [])\<rparr>)"
    by (simp only: list.map append_Cons drain_step_returned)
  also have "\<dots> = drain_completed bw rest (n + 1 + int (length rs))
       (c\<lparr>logged := logged c @ [finished_line (total_jobs c) (n + 1)]
                      @ map (finished_line (total_jobs c)) [n + 1 + 1..n + 1 + int (length rs)],
          route_fcs := route_fcs c @ (if solveSucceeded r then [outputRoutes r] else [])
                      @ map outputRoutes (filter solveSucceeded rs)\<rparr>)"
    by (subst Cons.IH) simp
  also have "\<dots> = drain_completed bw rest (n + int (length (r # rs)))
       (c\<lparr>logged := logged c @ map (finished_line (total_jobs c)) [n + 1..n + int (length (r # rs))],
          route_fcs := route_fcs c @ map outputRoutes (filter solveSucceeded (r # rs))\<rparr>)"
    unfolding u by (simp add: add.assoc)
  finally show ?case .
qed


lemma validate_route_settings_Inr:
  assumes "validate_route_settings bw cfg c = Inr c1"
  shows "c1 = c\<lparr>catalog := rmtree (os_path_join (scratch_folder (rt_inputs c)) (uuid4_hex (main_world bw)))
                              (catalog c)\<rparr>"
proof (cases "Route_init (main_world bw) (rt_inputs c)")
  case (Inl e)
  with assms show ?thesis by (simp add: validate_route_settings_def Let_def)
next
  case r: (Inr rt)
  note f = Route_init_Inr[OF r]
  show ?thesis
  proof (cases "initialize_rt_solver (main_world bw) cfg rt")
    case (Inl e)
    with assms r show ?thesis by (simp add: validate_route_settings_def Let_def)
  next
    case (Inr rt')
    with assms r f show ?thesis by (simp add: validate_route_settings_def Let_def)
  qed
qed

lemma populate_input_data_transfer_fields_Inr:
  assumes "populate_input_data_transfer_fields bw c1 = Inr c2"
  shows "catalog c2 = catalog c1 \<and> route_fcs c2 = route_fcs c1 \<and> out_routes c2 = out_routes c1
         \<and> calc_scratch_folder c2 = calc_scratch_folder c1 \<and> total_jobs c2 = total_jobs c1"
  using assms unfolding populate_input_data_transfer_fields_def
  by (auto simp: Let_def split: option.splits if_splits)

lemma solve_route_in_parallel_after_populate:
  assumes "validate_route_settings bw cfg c = Inr c1"
    and "populate_input_data_transfer_fields bw c1 = Inr c2"
  shows "solve_route_in_parallel bw cfg c =
     (case drain_completed bw (completed bw) 0 c2 of Inl x \<Rightarrow> Inl x | Inr c3 \<Rightarrow>
     (case (if route_fcs c3 \<noteq> [] then
              post_process_route_fcs bw
                (c3\<lparr>logged := log INFO ''Post-processing Route results...'' (logged c3),
                    route_fcs := sort (route_fcs c3)\<rparr>)
            else Inr (c3\<lparr>logged := log WARNING ''All Route solves failed, so no output was produced.''
                                     (logged c3)\<rparr>)) of
        Inl x \<Rightarrow> Inl x
      | Inr c4 \<Rightarrow>
          let c5 = (if DELETE_INTERMEDIATE_OUTPUTS then
                      c4\<lparr>logged := log INFO ''Deleting intermediate outputs...'' (logged c4),
                          catalog := rmtree (calc_scratch_folder c4) (catalog c4)\<rparr>
                    else c4)
          in Inr (c5\<lparr>logged := log INFO ''Finished calculating Routes.'' (logged c5)\<rparr>)))"
  using assms by (simp add: solve_route_in_parallel_def)

text \<open>
  Claim C3. Once the settings are validated and the transfer fields are found, if
  retrieving the result of some job raises \<open>e\<close> (the first to raise in completion order,
  after any number of jobs whose results were retrieved), \<open>solve_route_in_parallel\<close> raises
  \<open>e\<close>. The failure is logged as an error with its traceback; the outputs of the jobs that
  had succeeded are collected in \<open>route_fcs\<close> but never merged: the catalog holds nothing
  that it did not hold before the run.
\<close>

theorem transport_failure_aborts_batch:
  "validate_route_settings bw cfg c = Inr c1 \<and> populate_input_data_transfer_fields bw c1 = Inr c2
     \<and> completed bw = map Inr rs @ Inl e # rest
   \<longrightarrow> (\<exists>c'. solve_route_in_parallel bw cfg c = Inl (e, c')
          \<and> catalog c' = rmtree (os_path_join (scratch_folder (rt_inputs c)) (uuid4_hex (main_world bw)))
                           (catalog c)
          \<and> out_routes c' = out_routes c
          \<and> route_fcs c' = route_fcs c @ map outputRoutes (filter solveSucceeded rs)
          \<and> logged c' = logged c2 @ map (finished_line (total_jobs c)) [1..int (length rs) + 1]
                          @ [(ERROR, ''Failed to get Route result from parallel processing.'')]
                          @ map (Pair ERROR) (format_exc bw e))"
proof
  assume a: "validate_route_settings bw cfg c = Inr c1 \<and> populate_input_data_transfer_fields bw c1 = Inr c2
     \<and> completed bw = map Inr rs @ Inl e # rest"
  then have v: "validate_route_settings bw cfg c = Inr c1"
    and p: "populate_input_data_transfer_fields bw c1 = Inr c2"
    and cm: "completed bw = map Inr rs @ Inl e # rest" by blast+
  note f1 = validate_route_settings_Inr[OF v] and f2 = populate_input_data_transfer_fields_Inr[OF p]
  define c' where "c' = c2\<lparr>logged := logged c2 @ map (finished_line (total_jobs c2)) [1..int (length rs)]
                                    @ [finished_line (total_jobs c2) (int (length rs) + 1),
                                       (ERROR, ''Failed to get Route result from parallel processing.'')]
                                    @ map (Pair ERROR) (format_exc bw e),
                         route_fcs := route_fcs c2 @ map outputRoutes (filter solveSucceeded rs)\<rparr>"
  have d: "drain_completed bw (completed bw) 0 c2 = Inl (e, c')"
    unfolding cm drain_returned drain_step_raised c'_def by simp
  have r: "solve_route_in_parallel bw cfg c = Inl (e, c')"
    unfolding solve_route_in_parallel_after_populate[OF v p] d by simp
  have u: "[1..int (length rs) + 1] = [1..int (length rs)] @ [int (length rs) + 1]"
    using upto_rec2[of 1 "int (length rs) + 1"] by simp
  have tj: "total_jobs c2 = total_jobs c" using f1 f2 by simp
  have "catalog c' = rmtree (os_path_join (scratch_folder (rt_inputs c)) (uuid4_hex (main_world bw))) (catalog c)"
    using f1 f2 by (simp add: c'_def)
  moreover have "out_routes c' = out_routes c" using f1 f2 by (simp add: c'_def)
  moreover have "route_fcs c' = route_fcs c @ map outputRoutes (filter solveSucceeded rs)"
    using f1 f2 by (simp add: c'_def)
  moreover have "logged c' = logged c2 @ map (finished_line (total_jobs c)) [1..int (length rs) + 1]
                          @ [(ERROR, ''Failed to get Route result from parallel processing.'')]
                          @ map (Pair ERROR) (format_exc bw e)"
    unfolding u by (simp add: c'_def tj)
  ultimately show "\<exists>c'. solve_route_in_parallel bw cfg c = Inl (e, c')
          \<and> catalog c' = rmtree (os_path_join (scratch_folder (rt_inputs c)) (uuid4_hex (main_world bw)))
                           (catalog c)
          \<and> out_routes c' = out_routes c
          \<and> route_fcs c' = route_fcs c @ map outputRoutes (filter solveSucceeded rs)
          \<and> logged c' = logged c2 @ map (finished_line (total_jobs c)) [1..int (length rs) + 1]
                          @ [(ERROR, ''Failed to get Route result from parallel processing.'')]
                          @ map (Pair ERROR) (format_exc bw e)"
    using r by blast
qed


lemma ex_job_outcomes_solved:
  "job_outcomes [(ex_world ''a1'', (1, 2))] ex_config ex_inputs = [Inr (ex_solved ''a1'' (1, 2))]"
  "job_outcomes [(ex_world ''b2'', (3, 3))] ex_config ex_inputs = [Inr (ex_solved ''b2'' (3, 3))]"
  "job_outcomes [(ex_world ''b2'', (1, 2))] ex_config ex_inputs = [Inr (ex_solved ''b2'' (1, 2))]"
  "job_outcomes [(ex_world ''a1'', (3, 3))] ex_config ex_inputs = [Inr (ex_solved ''a1'' (3, 3))]"
  by code_simp+

lemma ex_job_outcomes_unsolved:
  "job_outcomes [(ex_world_no_solution ''a1'', (1, 2)), (ex_world_no_solution ''b2'', (3, 3))] ex_config ex_inputs
     = map Inr [ex_unsolved ''a1'', ex_unsolved ''b2'']"
  by code_simp

lemma ex_validated:
  "case validate_route_settings (ex_batch outcomes) ex_config (ex_calculator fcs) of
     Inl x \<Rightarrow> False
   | Inr c1 \<Rightarrow> (case populate_input_data_transfer_fields (ex_batch outcomes) c1 of
                   Inl x \<Rightarrow> False | Inr c2 \<Rightarrow> logged c2 = [])"
  by (simp add: validate_route_settings_def populate_input_data_transfer_fields_def ex_batch_def ex_calculator_def
        ex_world_def ex_inputs_def Route_init_def initialize_rt_solver_def make_nds_layer_def is_nds_service_def
        perform_def py_setattr_def Let_def supported_fields_def)

theorem transport_failure_aborts_batch_witness:
  "\<exists>c'. solve_route_in_parallel
          (ex_batch (job_outcomes [(ex_world ''a1'', (1, 2))] ex_config ex_inputs
                       @ [Inl (External ''BrokenProcessPool'')]))
          ex_config (ex_calculator [(ex_output ''a1'' (1, 2), ex_routes [''10 - A''])])
        = Inl (External ''BrokenProcessPool'', c')
      \<and> catalog c' (out_routes c') = None
      \<and> route_fcs c' = [ex_output ''a1'' (1, 2)]
      \<and> logged c' = [finished_line 2 1, finished_line 2 2,
                       (ERROR, ''Failed to get Route result from parallel processing.''),
                       (ERROR, ''Traceback (most recent call last):'')]"
proof -
  define bw where "bw = ex_batch (job_outcomes [(ex_world ''a1'', (1, 2))] ex_config ex_inputs
                       @ [Inl (External ''BrokenProcessPool'')])"
  define c where "c = ex_calculator [(ex_output ''a1'' (1, 2), ex_routes [''10 - A''])]"
  from ex_validated[of "completed bw" "[(ex_output ''a1'' (1, 2), ex_routes [''10 - A''])]"]
  obtain c1 c2 where v: "validate_route_settings bw ex_config c = Inr c1"
    and p: "populate_input_data_transfer_fields bw c1 = Inr c2" and l2: "logged c2 = []"
    unfolding bw_def c_def by (auto simp: ex_batch_def split: sum.splits)
  have cm: "completed bw = map Inr [ex_solved ''a1'' (1, 2)] @ Inl (External ''BrokenProcessPool'') # []"
    by (simp add: bw_def ex_batch_def ex_job_outcomes_solved)
  from transport_failure_aborts_batch
         [of bw ex_config c c1 c2 "[ex_solved ''a1'' (1, 2)]" "External ''BrokenProcessPool''" "[]"] v p cm
  obtain c' where r: "solve_route_in_parallel bw ex_config c = Inl (External ''BrokenProcessPool'', c')"
    and cat: "catalog c' = rmtree (os_path_join (scratch_folder (rt_inputs c)) (uuid4_hex (main_world bw))) (catalog c)"
    and o: "out_routes c' = out_routes c"
    and fc: "route_fcs c' = route_fcs c @ map outputRoutes (filter solveSucceeded [ex_solved ''a1'' (1, 2)])"
    and lg: "logged c' = logged c2 @ map (finished_line (total_jobs c)) [1..int (length [ex_solved ''a1'' (1, 2)]) + 1]
                          @ [(ERROR, ''Failed to get Route result from parallel processing.'')]
                          @ map (Pair ERROR) (format_exc bw (External ''BrokenProcessPool''))"
    by blast
  have "catalog c' (out_routes c') = None"
    unfolding cat o by (simp add: c_def bw_def ex_calculator_def ex_batch_def ex_world_def ex_inputs_def rmtree_def
        ex_output_def os_path_join_def is_sep_def os_sep_def os_altsep_def)
  moreover have "route_fcs c' = [ex_output ''a1'' (1, 2)]"
    unfolding fc by (simp add: c_def ex_calculator_def ex_solved_def)
  moreover have "[1..int (length [ex_solved ''a1'' (1, 2)]) + 1] = [1, 2]"
    by (simp add: upto_rec1)
  then have "logged c' = [finished_line 2 1, finished_line 2 2,
                       (ERROR, ''Failed to get Route result from parallel processing.''),
                       (ERROR, ''Traceback (most recent call last):'')]"
    unfolding lg l2 by (simp add: c_def bw_def ex_calculator_def ex_batch_def)
  ultimately show ?thesis using r unfolding bw_def c_def by blast
qed


text \<open>
  Claim C4. Once the settings are validated and the transfer fields are found, a batch
  in which every job returns a result with \<open>solveSucceeded = False\<close> makes
  \<open>solve_route_in_parallel\<close> return normally: \<open>route_fcs\<close> stays empty, the merge is not
  run (no post-processing record is logged and the catalog gains nothing), and the log
  ends with the warning that all solves failed, the clean-up and the final record.
\<close>

theorem all_solves_failed_is_a_completed_run:
  "validate_route_settings bw cfg c = Inr c1 \<and> populate_input_data_transfer_fields bw c1 = Inr c2
     \<and> completed bw = map Inr rs \<and> (\<forall>r \<in> set rs. \<not> solveSucceeded r) \<and> route_fcs c = []
   \<longrightarrow> (\<exists>c'. solve_route_in_parallel bw cfg c = Inr c'
          \<and> route_fcs c' = []
          \<and> catalog c' = rmtree (calc_scratch_folder c)
                           (rmtree (os_path_join (scratch_folder (rt_inputs c)) (uuid4_hex (main_world bw)))
                              (catalog c))
          \<and> out_routes c' = out_routes c
          \<and> logged c' = logged c2 @ map (finished_line (total_jobs c)) [1..int (length rs)]
                          @ [(WARNING, ''All Route solves failed, so no output was produced.''),
                             (INFO, ''Deleting intermediate outputs...''),
                             (INFO, ''Finished calculating Routes.'')])"
proof
  assume a: "validate_route_settings bw cfg c = Inr c1 \<and> populate_input_data_transfer_fields bw c1 = Inr c2
     \<and> completed bw = map Inr rs \<and> (\<forall>r \<in> set rs. \<not> solveSucceeded r) \<and> route_fcs c = []"
  then have v: "validate_route_settings bw cfg c = Inr c1"
    and p: "populate_input_data_transfer_fields bw c1 = Inr c2"
    and cm: "completed bw = map Inr rs @ []" and nf: "\<forall>r \<in> set rs. \<not> solveSucceeded r"
    and e: "route_fcs c = []" by simp_all
  note f1 = validate_route_settings_Inr[OF v] and f2 = populate_input_data_transfer_fields_Inr[OF p]
  have fl: "filter solveSucceeded rs = []" using nf by (simp add: filter_empty_conv)
  have r2: "route_fcs c2 = []" using f1 f2 e by simp
  define c3 where "c3 = c2\<lparr>logged := logged c2 @ map (finished_line (total_jobs c2)) [1..int (length rs)]\<rparr>"
  have d: "drain_completed bw (completed bw) 0 c2 = Inr c3"
    unfolding cm drain_returned c3_def by (simp add: fl r2)
  have r3: "route_fcs c3 = []" using r2 by (simp add: c3_def)
  define c' where "c' = c3\<lparr>logged := logged c3 @ [(WARNING, ''All Route solves failed, so no output was produced.''),
                                              (INFO, ''Deleting intermediate outputs...''),
                                              (INFO, ''Finished calculating Routes.'')],
                         catalog := rmtree (calc_scratch_folder c3) (catalog c3)\<rparr>"
  have r: "solve_route_in_parallel bw cfg c = Inr c'"
    unfolding solve_route_in_parallel_after_populate[OF v p] d
    by (simp add: r3 c'_def Let_def DELETE_INTERMEDIATE_OUTPUTS_def log_INFO log_WARNING)
  have "route_fcs c' = []" using r3 by (simp add: c'_def)
  moreover have "catalog c' = rmtree (calc_scratch_folder c)
                           (rmtree (os_path_join (scratch_folder (rt_inputs c)) (uuid4_hex (main_world bw)))
                              (catalog c))"
    using f1 f2 by (simp add: c'_def c3_def)
  moreover have "out_routes c' = out_routes c" using f1 f2 by (simp add: c'_def c3_def)
  moreover have "logged c' = logged c2 @ map (finished_line (total_jobs c)) [1..int (length rs)]
                          @ [(WARNING, ''All Route solves failed, so no output was produced.''),
                             (INFO, ''Deleting intermediate outputs...''),
                             (INFO, ''Finished calculating Routes.'')]"
    using f1 f2 by (simp add: c'_def c3_def)
  ultimately show "\<exists>c'. solve_route_in_parallel bw cfg c = Inr c'
          \<and> route_fcs c' = []
          \<and> catalog c' = rmtree (calc_scratch_folder c)
                           (rmtree (os_path_join (scratch_folder (rt_inputs c)) (uuid4_hex (main_world bw)))
                              (catalog c))
          \<and> out_routes c' = out_routes c
          \<and> logged c' = logged c2 @ map (finished_line (total_jobs c)) [1..int (length rs)]
                          @ [(WARNING, ''All Route solves failed, so no output was produced.''),
                             (INFO, ''Deleting intermediate outputs...''),
                             (INFO, ''Finished calculating Routes.'')]"
    using r by blast
qed

theorem all_solves_failed_is_a_completed_run_witness:
  "\<exists>c'. solve_route_in_parallel
          (ex_batch (job_outcomes [(ex_world_no_solution ''a1'', (1, 2)), (ex_world_no_solution ''b2'', (3, 3))]
                       ex_config ex_inputs))
          ex_config (ex_calculator [])
        = Inr c'
      \<and> route_fcs c' = [] \<and> catalog c' (out_routes c') = None
      \<and> logged c' = [finished_line 2 1, finished_line 2 2,
                       (WARNING, ''All Route solves failed, so no output was produced.''),
                       (INFO, ''Deleting intermediate outputs...''),
                       (INFO, ''Finished calculating Routes.'')]"
proof -
  define bw where "bw = ex_batch (job_outcomes [(ex_world_no_solution ''a1'', (1, 2)),
                                                (ex_world_no_solution ''b2'', (3, 3))] ex_config ex_inputs)"
  define c where "c = ex_calculator []"
  from ex_validated[of "completed bw" "[]"]
  obtain c1 c2 where v: "validate_route_settings bw ex_config c = Inr c1"
    and p: "populate_input_data_transfer_fields bw c1 = Inr c2" and l2: "logged c2 = []"
    unfolding bw_def c_def by (auto simp: ex_batch_def split: sum.splits)
  have cm: "completed bw = map Inr [ex_unsolved ''a1'', ex_unsolved ''b2'']"
    by (simp add: bw_def ex_batch_def ex_job_outcomes_unsolved)
  have nf: "\<forall>r \<in> set [ex_unsolved ''a1'', ex_unsolved ''b2'']. \<not> solveSucceeded r"
    by (simp add: ex_unsolved_def)
  have e: "route_fcs c = []" by (simp add: c_def ex_calculator_def)
  from all_solves_failed_is_a_completed_run
         [of bw ex_config c c1 c2 "[ex_unsolved ''a1'', ex_unsolved ''b2'']"] v p cm nf e
  obtain c' where r: "solve_route_in_parallel bw ex_config c = Inr c'"
    and fc: "route_fcs c' = []"
    and cat: "catalog c' = rmtree (calc_scratch_folder c)
                           (rmtree (os_path_join (scratch_folder (rt_inputs c)) (uuid4_hex (main_world bw)))
                              (catalog c))"
    and lg: "logged c' = logged c2 @ map (finished_line (total_jobs c)) [1..int (length [ex_unsolved ''a1'', ex_unsolved ''b2''])]
                          @ [(WARNING, ''All Route solves failed, so no output was produced.''),
                             (INFO, ''Deleting intermediate outputs...''),
                             (INFO, ''Finished calculating Routes.'')]"
    by blast
  have "catalog c' (out_routes c') = None"
    unfolding cat by (simp add: c_def ex_calculator_def rmtree_def)
  moreover have "[1..int (length [ex_unsolved ''a1'', ex_unsolved ''b2''])] = [1, 2]"
    by (simp add: upto_rec1)
  then have "logged c' = [finished_line 2 1, finished_line 2 2,
                       (WARNING, ''All Route solves failed, so no output was produced.''),
                       (INFO, ''Deleting intermediate outputs...''),
                       (INFO, ''Finished calculating Routes.'')]"
    unfolding lg l2 by (simp add: c_def ex_calculator_def)
  ultimately show ?thesis using r fc unfolding bw_def c_def by blast
qed

section \<open>Properties of the merge\<close>

lemma row_read_back:
  assumes "distinct (map fst r)"
  shows "zip (map fst r) (map (\<lambda>f. case map_of r f of None \<Rightarrow> VNone | Some v \<Rightarrow> v) (map fst r)) = r"
proof -
  have "zip (map fst r) (map (\<lambda>f. case map_of r f of None \<Rightarrow> VNone | Some v \<Rightarrow> v) (map fst r))
          = map (\<lambda>x. (fst x, case map_of r (fst x) of None \<Rightarrow> VNone | Some v \<Rightarrow> v)) r"
    by (simp add: zip_map_map zip_same_conv_map)
  also have "\<dots> = map (\<lambda>x. x) r"
  proof (rule map_cong[OF refl])
    fix x assume "x \<in> set r"
    then have "map_of r (fst x) = Some (snd x)" using assms by (simp add: map_of_eq_Some_iff)
    then show "(fst x, case map_of r (fst x) of None \<Rightarrow> VNone | Some v \<Rightarrow> v) = x" by (cases x) simp
  qed
  finally show ?thesis by simp
qed

lemma search_cursor_same_fields:
  assumes "cat fc = Some t" and "flds = ''SHAPE@'' # fc_fields t" and "distinct flds"
    and "\<forall>r \<in> set (fc_rows t). map fst r = flds"
  shows "search_cursor cat fc flds =
           Inr (map (\<lambda>r. map (\<lambda>f. case map_of r f of None \<Rightarrow> VNone | Some v \<Rightarrow> v) flds) (fc_rows t))
         \<and> map (zip flds) (map (\<lambda>r. map (\<lambda>f. case map_of r f of None \<Rightarrow> VNone | Some v \<Rightarrow> v) flds) (fc_rows t))
             = fc_rows t"
proof -
  have "map (zip flds) (map (\<lambda>r. map (\<lambda>f. case map_of r f of None \<Rightarrow> VNone | Some v \<Rightarrow> v) flds) (fc_rows t))
          = map (\<lambda>r. r) (fc_rows t)"
    unfolding map_map
  proof (rule map_cong[OF refl])
    fix r assume "r \<in> set (fc_rows t)"
    with assms(4) have m: "map fst r = flds" by blast
    with assms(3) have "distinct (map fst r)" by simp
    from row_read_back[OF this] m
    show "(zip flds \<circ> (\<lambda>r. map (\<lambda>f. case map_of r f of None \<Rightarrow> VNone | Some v \<Rightarrow> v) flds)) r = r"
      by simp
  qed
  then show ?thesis using assms(1,2) by (simp add: search_cursor_def)
qed

lemma catalog_written_elsewhere:
  "list_all2 (\<lambda>p t. cat p = Some t) fcs ts \<Longrightarrow> out \<notin> set fcs
     \<Longrightarrow> list_all2 (\<lambda>p t. (cat(out \<mapsto> v)) p = Some t) fcs ts"
  by (induction rule: list_all2_induct) auto

lemma append_route_fcs_same_fields:
  assumes "out \<notin> set fcs" and "cat out = Some t0"
    and "list_all2 (\<lambda>p t. cat p = Some t) fcs ts"
    and "\<forall>t \<in> set ts. ''SHAPE@'' # fc_fields t = flds"
    and "distinct flds"
    and "\<forall>t \<in> set ts. \<forall>r \<in> set (fc_rows t). map fst r = flds"
  shows "append_route_fcs out flds fcs cat =
           Inr (cat(out \<mapsto> t0\<lparr>fc_rows := fc_rows t0 @ concat (map fc_rows ts)\<rparr>))"
  using assms
proof (induction fcs arbitrary: ts cat t0)
  case Nil
  then show ?case by (auto simp: fun_eq_iff)
next
  case (Cons fc fcs)
  from Cons.prems(3) obtain t ts' where ts: "ts = t # ts'" and ct: "cat fc = Some t"
    and rest: "list_all2 (\<lambda>p t. cat p = Some t) fcs ts'"
    by (auto simp: list_all2_Cons1)
  have sc: "search_cursor cat fc flds =
           Inr (map (\<lambda>r. map (\<lambda>f. case map_of r f of None \<Rightarrow> VNone | Some v \<Rightarrow> v) flds) (fc_rows t))"
    and rb: "map (zip flds) (map (\<lambda>r. map (\<lambda>f. case map_of r f of None \<Rightarrow> VNone | Some v \<Rightarrow> v) flds) (fc_rows t))
             = fc_rows t"
    using search_cursor_same_fields[of "cat" fc t flds] ct Cons.prems(4,5,6) ts by auto
  define cat' where "cat' = cat(out \<mapsto> t0\<lparr>fc_rows := fc_rows t0 @ fc_rows t\<rparr>)"
  have ir: "insert_rows cat out flds
              (map (\<lambda>r. map (\<lambda>f. case map_of r f of None \<Rightarrow> VNone | Some v \<Rightarrow> v) flds) (fc_rows t)) = Inr cat'"
    using Cons.prems(2) rb by (simp add: insert_rows_def cat'_def)
  have step: "append_route_fcs out flds (fc # fcs) cat = append_route_fcs out flds fcs cat'"
    by (simp add: sc ir)
  have o: "out \<notin> set fcs" using Cons.prems(1) by simp
  have co: "cat' out = Some (t0\<lparr>fc_rows := fc_rows t0 @ fc_rows t\<rparr>)" by (simp add: cat'_def)
  have rest': "list_all2 (\<lambda>p t. cat' p = Some t) fcs ts'"
    unfolding cat'_def using rest o by (rule catalog_written_elsewhere)
  have "append_route_fcs out flds fcs cat' =
          Inr (cat'(out \<mapsto> (t0\<lparr>fc_rows := fc_rows t0 @ fc_rows t\<rparr>)\<lparr>fc_rows :=
                 fc_rows (t0\<lparr>fc_rows := fc_rows t0 @ fc_rows t\<rparr>) @ concat (map fc_rows ts')\<rparr>))"
    using Cons.prems(4,5,6) ts by (intro Cons.IH[OF o co rest']) auto
  then show ?case unfolding step ts by (auto simp: cat'_def fun_eq_iff)
qed


text \<open>
  Claim C9. Let the outputs listed in \<open>route_fcs\<close> exist with tables \<open>t1 # ts\<close>, all with the
  fields of the first, each row giving a value to \<open>SHAPE@\<close> and to every field, and let the
  final output be none of them. Then \<open>_post_process_route_fcs\<close> returns, and the catalog
  changes at the final output only: it is a polyline feature class with the fields and
  spatial reference of the first output, whose rows are the rows of the outputs, unchanged
  and in the order of \<open>route_fcs\<close>; their number is the sum of the outputs' row counts.
\<close>

theorem merge_keeps_schema_and_rows:
  "list_all2 (\<lambda>p t. catalog c p = Some t) (route_fcs c) (t1 # ts)
     \<and> out_routes c \<notin> set (route_fcs c)
     \<and> (\<forall>t \<in> set ts. fc_fields t = fc_fields t1)
     \<and> distinct (''SHAPE@'' # fc_fields t1)
     \<and> (\<forall>t \<in> set (t1 # ts). \<forall>r \<in> set (fc_rows t). map fst r = ''SHAPE@'' # fc_fields t)
     \<and> (\<forall>args. fault (main_world bw) (GpTool ''CreateFeatureclass'' args) = None)
   \<longrightarrow> (\<exists>c'. post_process_route_fcs bw c = Inr c'
          \<and> catalog c' = (catalog c)(out_routes c \<mapsto>
                             \<lparr>fc_geometry = ''POLYLINE'', fc_fields = fc_fields t1,
                              fc_spatial_ref = fc_spatial_ref t1,
                              fc_rows = concat (map fc_rows (t1 # ts))\<rparr>)
          \<and> length (concat (map fc_rows (t1 # ts))) = sum_list (map (\<lambda>t. length (fc_rows t)) (t1 # ts))
          \<and> route_fcs c' = route_fcs c \<and> logged c' = logged c \<and> out_routes c' = out_routes c)"
proof
  assume a: "list_all2 (\<lambda>p t. catalog c p = Some t) (route_fcs c) (t1 # ts)
     \<and> out_routes c \<notin> set (route_fcs c)
     \<and> (\<forall>t \<in> set ts. fc_fields t = fc_fields t1)
     \<and> distinct (''SHAPE@'' # fc_fields t1)
     \<and> (\<forall>t \<in> set (t1 # ts). \<forall>r \<in> set (fc_rows t). map fst r = ''SHAPE@'' # fc_fields t)
     \<and> (\<forall>args. fault (main_world bw) (GpTool ''CreateFeatureclass'' args) = None)"
  then have la: "list_all2 (\<lambda>p t. catalog c p = Some t) (route_fcs c) (t1 # ts)"
    and o: "out_routes c \<notin> set (route_fcs c)"
    and same: "\<forall>t \<in> set ts. fc_fields t = fc_fields t1"
    and d: "distinct (''SHAPE@'' # fc_fields t1)"
    and wf: "\<forall>t \<in> set (t1 # ts). \<forall>r \<in> set (fc_rows t). map fst r = ''SHAPE@'' # fc_fields t"
    and nf: "\<forall>args. fault (main_world bw) (GpTool ''CreateFeatureclass'' args) = None"
    by blast+
  from la obtain first others where rf: "route_fcs c = first # others" and c1: "catalog c first = Some t1"
    by (auto simp: list_all2_Cons2)
  define t0 where "t0 = \<lparr>fc_geometry = ''POLYLINE'', fc_fields = fc_fields t1,
                         fc_spatial_ref = fc_spatial_ref t1, fc_rows = []\<rparr>"
  define cat1 where "cat1 = (catalog c)(out_routes c \<mapsto> t0)"
  have la1: "list_all2 (\<lambda>p t. cat1 p = Some t) (route_fcs c) (t1 # ts)"
    unfolding cat1_def using la o by (rule catalog_written_elsewhere)
  have f: "\<forall>t \<in> set (t1 # ts). ''SHAPE@'' # fc_fields t = ''SHAPE@'' # fc_fields t1"
    using same by simp
  have wf': "\<forall>t \<in> set (t1 # ts). \<forall>r \<in> set (fc_rows t). map fst r = ''SHAPE@'' # fc_fields t1"
    using wf same by simp
  have ap: "append_route_fcs (out_routes c) (''SHAPE@'' # fc_fields t1) (route_fcs c) cat1 =
              Inr (cat1(out_routes c \<mapsto> t0\<lparr>fc_rows := fc_rows t0 @ concat (map fc_rows (t1 # ts))\<rparr>))"
    by (rule append_route_fcs_same_fields[OF o _ la1 f d wf']) (simp add: cat1_def)
  define c' where "c' = c\<lparr>catalog := cat1(out_routes c \<mapsto> t0\<lparr>fc_rows := fc_rows t0 @ concat (map fc_rows (t1 # ts))\<rparr>)\<rparr>"
  have r: "post_process_route_fcs bw c = Inr c'"
    using rf c1 nf ap unfolding post_process_route_fcs_def c'_def cat1_def t0_def
    by (simp add: Let_def)
  have "catalog c' = (catalog c)(out_routes c \<mapsto>
                             \<lparr>fc_geometry = ''POLYLINE'', fc_fields = fc_fields t1,
                              fc_spatial_ref = fc_spatial_ref t1,
                              fc_rows = concat (map fc_rows (t1 # ts))\<rparr>)"
    by (simp add: c'_def cat1_def t0_def)
  moreover have "length (concat (map fc_rows (t1 # ts))) = sum_list (map (\<lambda>t. length (fc_rows t)) (t1 # ts))"
    by (simp add: length_concat o_def)
  moreover have "route_fcs c' = route_fcs c \<and> logged c' = logged c \<and> out_routes c' = out_routes c"
    by (simp add: c'_def)
  ultimately show "\<exists>c'. post_process_route_fcs bw c = Inr c'
          \<and> catalog c' = (catalog c)(out_routes c \<mapsto>
                             \<lparr>fc_geometry = ''POLYLINE'', fc_fields = fc_fields t1,
                              fc_spatial_ref = fc_spatial_ref t1,
                              fc_rows = concat (map fc_rows (t1 # ts))\<rparr>)
          \<and> length (concat (map fc_rows (t1 # ts))) = sum_list (map (\<lambda>t. length (fc_rows t)) (t1 # ts))
          \<and> route_fcs c' = route_fcs c \<and> logged c' = logged c \<and> out_routes c' = out_routes c"
    using r by blast
qed

theorem merge_keeps_schema_and_rows_witness:
  "\<exists>c'. post_process_route_fcs (ex_batch [])
          ((ex_calculator [(ex_output ''a1'' (1, 2), ex_routes [''10 - A'', ''11 - A'']),
                           (ex_output ''b2'' (3, 3), ex_routes [''12 - A''])])
             \<lparr>route_fcs := [ex_output ''a1'' (1, 2), ex_output ''b2'' (3, 3)]\<rparr>) = Inr c'
      \<and> catalog c' (out_routes c') = Some (ex_routes [''10 - A'', ''11 - A'', ''12 - A''])
      \<and> length (fc_rows (ex_routes [''10 - A'', ''11 - A'', ''12 - A''])) = 2 + 1"
proof -
  define c where "c = (ex_calculator [(ex_output ''a1'' (1, 2), ex_routes [''10 - A'', ''11 - A'']),
                           (ex_output ''b2'' (3, 3), ex_routes [''12 - A''])])
             \<lparr>route_fcs := [ex_output ''a1'' (1, 2), ex_output ''b2'' (3, 3)]\<rparr>"
  have ne: "ex_output ''a1'' (1, 2) \<noteq> ex_output ''b2'' (3, 3)"
    and no: "os_path_join ''output.gdb'' ''Routes'' \<noteq> ex_output ''a1'' (1, 2)"
            "os_path_join ''output.gdb'' ''Routes'' \<noteq> ex_output ''b2'' (3, 3)"
    by (simp_all add: ex_output_def os_path_join_def is_sep_def os_sep_def os_altsep_def)
  have h: "list_all2 (\<lambda>p t. catalog c p = Some t) (route_fcs c)
             (ex_routes [''10 - A'', ''11 - A''] # [ex_routes [''12 - A'']])
     \<and> out_routes c \<notin> set (route_fcs c)
     \<and> (\<forall>t \<in> set [ex_routes [''12 - A'']]. fc_fields t = fc_fields (ex_routes [''10 - A'', ''11 - A'']))
     \<and> distinct (''SHAPE@'' # fc_fields (ex_routes [''10 - A'', ''11 - A'']))
     \<and> (\<forall>t \<in> set (ex_routes [''10 - A'', ''11 - A''] # [ex_routes [''12 - A'']]).
           \<forall>r \<in> set (fc_rows t). map fst r = ''SHAPE@'' # fc_fields t)
     \<and> (\<forall>args. fault (main_world (ex_batch [])) (GpTool ''CreateFeatureclass'' args) = None)"
    using ne no by (simp add: c_def ex_calculator_def ex_routes_def ex_batch_def ex_world_def)
  from merge_keeps_schema_and_rows
         [of c "ex_routes [''10 - A'', ''11 - A'']" "[ex_routes [''12 - A'']]" "ex_batch []", THEN mp, OF h]
  obtain c' where r: "post_process_route_fcs (ex_batch []) c = Inr c'"
    and cat: "catalog c' = (catalog c)(out_routes c \<mapsto>
                             \<lparr>fc_geometry = ''POLYLINE'', fc_fields = fc_fields (ex_routes [''10 - A'', ''11 - A'']),
                              fc_spatial_ref = fc_spatial_ref (ex_routes [''10 - A'', ''11 - A'']),
                              fc_rows = concat (map fc_rows (ex_routes [''10 - A'', ''11 - A''] # [ex_routes [''12 - A'']]))\<rparr>)"
    and o: "out_routes c' = out_routes c"
    by blast
  have "catalog c' (out_routes c') = Some (ex_routes [''10 - A'', ''11 - A'', ''12 - A''])"
    unfolding cat o by (simp add: ex_routes_def)
  moreover have "length (fc_rows (ex_routes [''10 - A'', ''11 - A'', ''12 - A''])) = 2 + 1"
    by (simp add: ex_routes_def)
  ultimately show ?thesis using r unfolding c_def by blast
qed

section \<open>Properties of the merge order\<close>

text \<open>
  Claim C2 says that the sort key of the merge follows the chunks' lower bounds and makes
  the row order of the combined output the same in every run of a batch. It does not. The
  example batch is run twice, with the same chunks and the same routes from each chunk;
  the two runs differ only in the job ids that \<open>uuid4\<close> hands to the jobs. In the first run
  the route of chunk (1, 2) comes first in the combined output, in the second run the
  route of chunk (3, 3).
\<close>

theorem merge_order_is_not_reproducible_counterexample:
  "merged_rows (solve_route_in_parallel
      (ex_batch (job_outcomes [(ex_world ''a1'', (1, 2)), (ex_world ''b2'', (3, 3))] ex_config ex_inputs))
      ex_config
      (ex_calculator [(ex_output ''a1'' (1, 2), ex_routes [''10 - A'']),
                      (ex_output ''b2'' (3, 3), ex_routes [''12 - A''])]))
     = Some (fc_rows (ex_routes [''10 - A'', ''12 - A'']))
   \<and> merged_rows (solve_route_in_parallel
      (ex_batch (job_outcomes [(ex_world ''b2'', (1, 2)), (ex_world ''a1'', (3, 3))] ex_config ex_inputs))
      ex_config
      (ex_calculator [(ex_output ''b2'' (1, 2), ex_routes [''10 - A'']),
                      (ex_output ''a1'' (3, 3), ex_routes [''12 - A''])]))
     = Some (fc_rows (ex_routes [''12 - A'', ''10 - A'']))"
  by code_simp

lemma validate_ignores_completed [simp]:
  "validate_route_settings (bw\<lparr>completed := x\<rparr>) cfg c = validate_route_settings bw cfg c"
  by (simp add: validate_route_settings_def Let_def split: sum.splits)

lemma populate_ignores_completed [simp]:
  "populate_input_data_transfer_fields (bw\<lparr>completed := x\<rparr>) c = populate_input_data_transfer_fields bw c"
  by (simp add: populate_input_data_transfer_fields_def Let_def split: option.splits)

lemma post_process_ignores_completed [simp]:
  "post_process_route_fcs (bw\<lparr>completed := x\<rparr>) c = post_process_route_fcs bw c"
  by (simp add: post_process_route_fcs_def Let_def split: list.splits option.splits)

lemma post_process_route_fcs_frame:
  "post_process_route_fcs bw c = Inr c' \<Longrightarrow> route_fcs c' = route_fcs c"
  unfolding post_process_route_fcs_def
  by (auto simp: Let_def split: list.splits option.splits sum.splits prod.splits)

lemma sort_same_mset: "mset xs = mset ys \<Longrightarrow> sort xs = sort (ys :: string list)"
  by (rule properties_for_sort) simp_all

lemma run_with_returned:
  assumes v: "validate_route_settings bw cfg c = Inr c1"
    and p: "populate_input_data_transfer_fields bw c1 = Inr c2"
  shows "solve_route_in_parallel (bw\<lparr>completed := map Inr rs\<rparr>) cfg c =
     (case (if route_fcs c2 @ map outputRoutes (filter solveSucceeded rs) \<noteq> [] then
              post_process_route_fcs bw
                (c2\<lparr>logged := logged c2 @ map (finished_line (total_jobs c2)) [1..int (length rs)]
                                @ [(INFO, ''Post-processing Route results...'')],
                    route_fcs := sort (route_fcs c2 @ map outputRoutes (filter solveSucceeded rs))\<rparr>)
            else Inr (c2\<lparr>logged := logged c2 @ map (finished_line (total_jobs c2)) [1..int (length rs)]
                                      @ [(WARNING, ''All Route solves failed, so no output was produced.'')],
                          route_fcs := route_fcs c2 @ map outputRoutes (filter solveSucceeded rs)\<rparr>)) of
        Inl x \<Rightarrow> Inl x
      | Inr c4 \<Rightarrow>
          Inr (c4\<lparr>logged := logged c4 @ [(INFO, ''Deleting intermediate outputs...''),
                                         (INFO, ''Finished calculating Routes.'')],
                  catalog := rmtree (calc_scratch_folder c4) (catalog c4)\<rparr>))"
proof -
  have d: "drain_completed (bw\<lparr>completed := map Inr rs\<rparr>) (map Inr rs @ []) 0 c2 =
             Inr (c2\<lparr>logged := logged c2 @ map (finished_line (total_jobs c2)) [1..int (length rs)],
                     route_fcs := route_fcs c2 @ map outputRoutes (filter solveSucceeded rs)\<rparr>)"
    unfolding drain_returned by simp
  show ?thesis
    using v p d
    by (simp add: solve_route_in_parallel_def Let_def DELETE_INTERMEDIATE_OUTPUTS_def log_INFO log_WARNING
          split: sum.splits)
qed


lemma run_without_validation:
  assumes "validate_route_settings bw cfg c = Inl x"
  shows "solve_route_in_parallel (bw\<lparr>completed := y\<rparr>) cfg c = Inl x"
  using assms by (simp add: solve_route_in_parallel_def)

lemma run_without_transfer_fields:
  assumes "validate_route_settings bw cfg c = Inr c1"
    and "populate_input_data_transfer_fields bw c1 = Inl x"
  shows "solve_route_in_parallel (bw\<lparr>completed := y\<rparr>) cfg c = Inl x"
  using assms by (simp add: solve_route_in_parallel_def)

text \<open>
  Claim C2, as amended. The merge sorts the paths of the successful outputs as strings
  before it appends their rows: when the run returns, \<open>route_fcs\<close> is the sorted list of the
  output paths of the successful jobs. The outcome of the run therefore does not depend
  on the order in which the jobs complete: two runs whose futures return the same job
  results in different orders end alike. (An output path is the scratch folder, the
  job's random id, \<open>scratch.gdb\<close> and \<open>Routes_low_high\<close>, so the order is that of the job ids.)
\<close>

theorem merge_order_follows_output_paths:
  "(mset rs1 = mset rs2 \<longrightarrow>
      solve_route_in_parallel (bw\<lparr>completed := map Inr rs1\<rparr>) cfg c
        = solve_route_in_parallel (bw\<lparr>completed := map Inr rs2\<rparr>) cfg c)
   \<and> (\<forall>c'. solve_route_in_parallel (bw\<lparr>completed := map Inr rs1\<rparr>) cfg c = Inr c' \<longrightarrow>
          sorted (route_fcs c')
        \<and> route_fcs c' = sort (route_fcs c @ map outputRoutes (filter solveSucceeded rs1)))"
proof (rule conjI)
  show "mset rs1 = mset rs2 \<longrightarrow>
      solve_route_in_parallel (bw\<lparr>completed := map Inr rs1\<rparr>) cfg c
        = solve_route_in_parallel (bw\<lparr>completed := map Inr rs2\<rparr>) cfg c"
  proof
  assume m: "mset rs1 = mset rs2"
  show "solve_route_in_parallel (bw\<lparr>completed := map Inr rs1\<rparr>) cfg c
        = solve_route_in_parallel (bw\<lparr>completed := map Inr rs2\<rparr>) cfg c"
  proof (cases "validate_route_settings bw cfg c")
    case (Inl x)
    then show ?thesis by (simp add: run_without_validation)
  next
    case v: (Inr c1)
    show ?thesis
    proof (cases "populate_input_data_transfer_fields bw c1")
      case (Inl x)
      with v show ?thesis by (simp add: run_without_transfer_fields)
    next
      case p: (Inr c2)
      have len: "length rs1 = length rs2" using m by (rule mset_eq_length)
      have "mset (filter solveSucceeded rs1) = mset (filter solveSucceeded rs2)"
        using m by (metis mset_filter)
      then have "mset (map outputRoutes (filter solveSucceeded rs1)) = mset (map outputRoutes (filter solveSucceeded rs2))"
        by (metis mset_map)
      then have ms: "mset (route_fcs c2 @ map outputRoutes (filter solveSucceeded rs1))
                   = mset (route_fcs c2 @ map outputRoutes (filter solveSucceeded rs2))"
        by simp
      have so: "sort (route_fcs c2 @ map outputRoutes (filter solveSucceeded rs1))
                  = sort (route_fcs c2 @ map outputRoutes (filter solveSucceeded rs2))"
        using ms by (rule sort_same_mset)
      have em: "(route_fcs c2 @ map outputRoutes (filter solveSucceeded rs1) = [])
                  = (route_fcs c2 @ map outputRoutes (filter solveSucceeded rs2) = [])"
        using ms by (metis mset_zero_iff)
      show ?thesis
      proof (cases "route_fcs c2 @ map outputRoutes (filter solveSucceeded rs1) = []")
        case True
        with em have "route_fcs c2 @ map outputRoutes (filter solveSucceeded rs2) = []" by simp
        with True show ?thesis
          unfolding run_with_returned[OF v p] by (simp add: len)
      next
        case False
        with em have "route_fcs c2 @ map outputRoutes (filter solveSucceeded rs2) \<noteq> []" by simp
        with False show ?thesis
          unfolding run_with_returned[OF v p] by (simp add: len so)
      qed
    qed
  qed
  qed
next
  show "\<forall>c'. solve_route_in_parallel (bw\<lparr>completed := map Inr rs1\<rparr>) cfg c = Inr c' \<longrightarrow>
          sorted (route_fcs c')
        \<and> route_fcs c' = sort (route_fcs c @ map outputRoutes (filter solveSucceeded rs1))"
  proof (intro allI impI)
  fix c' assume r: "solve_route_in_parallel (bw\<lparr>completed := map Inr rs1\<rparr>) cfg c = Inr c'"
  obtain c1 where v: "validate_route_settings bw cfg c = Inr c1"
    using r by (cases "validate_route_settings bw cfg c") (simp_all add: run_without_validation)
  obtain c2 where p: "populate_input_data_transfer_fields bw c1 = Inr c2"
    using r v by (cases "populate_input_data_transfer_fields bw c1") (simp_all add: run_without_transfer_fields)
  note f1 = validate_route_settings_Inr[OF v] and f2 = populate_input_data_transfer_fields_Inr[OF p]
  have r2: "route_fcs c2 = route_fcs c" using f1 f2 by simp
  define R where "R = route_fcs c @ map outputRoutes (filter solveSucceeded rs1)"
  have eq: "route_fcs c' = sort R"
  proof (cases "R = []")
    case True
    with r show ?thesis unfolding run_with_returned[OF v p] r2 R_def[symmetric] by auto
  next
    case False
    with r obtain c4 where pp: "post_process_route_fcs bw
                (c2\<lparr>logged := logged c2 @ map (finished_line (total_jobs c2)) [1..int (length rs1)]
                                @ [(INFO, ''Post-processing Route results...'')],
                    route_fcs := sort R\<rparr>) = Inr c4"
      and c': "c' = c4\<lparr>logged := logged c4 @ [(INFO, ''Deleting intermediate outputs...''),
                                         (INFO, ''Finished calculating Routes.'')],
                  catalog := rmtree (calc_scratch_folder c4) (catalog c4)\<rparr>"
      unfolding run_with_returned[OF v p] r2 R_def[symmetric] by (auto split: sum.splits)
    from post_process_route_fcs_frame[OF pp] c' show ?thesis by simp
  qed
  then show "sorted (route_fcs c')
        \<and> route_fcs c' = sort (route_fcs c @ map outputRoutes (filter solveSucceeded rs1))"
    by (simp add: R_def)
  qed
qed


lemma ex_run_merged:
  "merged_rows (solve_route_in_parallel
      ((ex_batch [])\<lparr>completed := map Inr [ex_solved ''b2'' (3, 3), ex_solved ''a1'' (1, 2)]\<rparr>) ex_config
      (ex_calculator [(ex_output ''a1'' (1, 2), ex_routes [''10 - A'']),
                      (ex_output ''b2'' (3, 3), ex_routes [''12 - A''])]))
     = Some (fc_rows (ex_routes [''10 - A'', ''12 - A'']))"
  by code_simp

lemma ex_sorted_outputs:
  "sort ([] @ map outputRoutes (filter solveSucceeded [ex_solved ''b2'' (3, 3), ex_solved ''a1'' (1, 2)]))
     = [ex_output ''a1'' (1, 2), ex_output ''b2'' (3, 3)]"
  by code_simp

theorem merge_order_follows_output_paths_witness:
  "solve_route_in_parallel
      ((ex_batch [])\<lparr>completed := map Inr [ex_solved ''b2'' (3, 3), ex_solved ''a1'' (1, 2)]\<rparr>) ex_config
      (ex_calculator [(ex_output ''a1'' (1, 2), ex_routes [''10 - A'']),
                      (ex_output ''b2'' (3, 3), ex_routes [''12 - A''])])
     = solve_route_in_parallel
        ((ex_batch [])\<lparr>completed := map Inr [ex_solved ''a1'' (1, 2), ex_solved ''b2'' (3, 3)]\<rparr>) ex_config
        (ex_calculator [(ex_output ''a1'' (1, 2), ex_routes [''10 - A'']),
                        (ex_output ''b2'' (3, 3), ex_routes [''12 - A''])])
   \<and> (\<exists>c'. solve_route_in_parallel
          ((ex_batch [])\<lparr>completed := map Inr [ex_solved ''b2'' (3, 3), ex_solved ''a1'' (1, 2)]\<rparr>) ex_config
          (ex_calculator [(ex_output ''a1'' (1, 2), ex_routes [''10 - A'']),
                          (ex_output ''b2'' (3, 3), ex_routes [''12 - A''])]) = Inr c'
        \<and> route_fcs c' = [ex_output ''a1'' (1, 2), ex_output ''b2'' (3, 3)]
        \<and> merged_rows (Inr c') = Some (fc_rows (ex_routes [''10 - A'', ''12 - A''])))"
proof -
  define c where "c = ex_calculator [(ex_output ''a1'' (1, 2), ex_routes [''10 - A'']),
                                     (ex_output ''b2'' (3, 3), ex_routes [''12 - A''])]"
  note t = merge_order_follows_output_paths
             [of "[ex_solved ''b2'' (3, 3), ex_solved ''a1'' (1, 2)]"
                 "[ex_solved ''a1'' (1, 2), ex_solved ''b2'' (3, 3)]" "ex_batch []" ex_config c]
  have m: "mset [ex_solved ''b2'' (3, 3), ex_solved ''a1'' (1, 2)]
             = mset [ex_solved ''a1'' (1, 2), ex_solved ''b2'' (3, 3)]"
    by (simp add: add_mset_commute)
  from t[THEN conjunct1, THEN mp, OF m]
  have a: "solve_route_in_parallel
      ((ex_batch [])\<lparr>completed := map Inr [ex_solved ''b2'' (3, 3), ex_solved ''a1'' (1, 2)]\<rparr>) ex_config c
     = solve_route_in_parallel
        ((ex_batch [])\<lparr>completed := map Inr [ex_solved ''a1'' (1, 2), ex_solved ''b2'' (3, 3)]\<rparr>) ex_config c" .
  from ex_run_merged obtain c' where r: "solve_route_in_parallel
      ((ex_batch [])\<lparr>completed := map Inr [ex_solved ''b2'' (3, 3), ex_solved ''a1'' (1, 2)]\<rparr>) ex_config c = Inr c'"
    and mr: "merged_rows (Inr c') = Some (fc_rows (ex_routes [''10 - A'', ''12 - A'']))"
    unfolding c_def[symmetric]
    by (cases "solve_route_in_parallel
      ((ex_batch [])\<lparr>completed := map Inr [ex_solved ''b2'' (3, 3), ex_solved ''a1'' (1, 2)]\<rparr>) ex_config c")
       (simp_all add: merged_rows_def)
  have rc: "route_fcs c = []" by (simp add: c_def ex_calculator_def)
  from t[THEN conjunct2, rule_format, OF r]
  have "route_fcs c' = [ex_output ''a1'' (1, 2), ex_output ''b2'' (3, 3)]"
    unfolding rc ex_sorted_outputs by simp
  with a r mr show ?thesis unfolding c_def by blast
qed

end
